(* ===== verification/Prelude.thy ===== *)
theory Prelude
  imports
    "HOL-Library.Word"
    "HOL-Library.Finite_Map"
    "HOL-Library.Char_ord"
    "HOL-Library.List_Lexorder"
    "HOL-Library.Product_Lexorder"
    "HOL-Library.Multiset"
    "HOL-Library.Sublist"
begin

section \<open>Shared vocabulary of the shardd development\<close>

text \<open>
  Machine integers, strings and containers of the Rust sources, with the lemmas every
  component shares.
  \<^item> \<open>u64\<close>, \<open>i64\<close>, \<open>u32\<close> and \<open>usize\<close> are words. The release profile of the workspace
    keeps Rust's default, so \<open>+\<close>, \<open>-\<close> and unary minus wrap around; \<open>x as i64\<close> on a \<open>u64\<close> keeps the
    bits. Signed comparisons are \<open><s\<close> and \<open>\<le>s\<close>.
  \<^item> \<open>String\<close> is the list of its UTF-8 bytes; Rust compares strings bytewise, which is the
    order of \<open>List_Lexorder\<close> over \<open>Char_ord\<close>.
  \<^item> \<open>BTreeMap\<close>, \<open>HashMap\<close> and \<open>DashMap\<close> are finite maps; iteration is in key order
    (\<open>fm_entries\<close>), the order a \<open>BTreeMap\<close> has and one that the hash maps may have.
\<close>

subsection \<open>Rust integers\<close>

type_synonym u8 = "8 word"
type_synonym u32 = "32 word"
type_synonym u64 = "64 word"
type_synonym i64 = "64 word"
type_synonym usize = "64 word"

named_theorems rust_defs \<open>definitions of the Rust primitives\<close>

definition unsigned_abs :: "i64 \<Rightarrow> u64" where
  [rust_defs]: "unsigned_abs a = (if a <s 0 then - a else a)"

definition i64_min :: i64 where
  [rust_defs]: "i64_min = 9223372036854775808"

definition checked_abs :: "i64 \<Rightarrow> i64 option" where
  [rust_defs]: "checked_abs a = (if a = i64_min then None else Some (if a <s 0 then - a else a))"

definition saturating_sub :: "u64 \<Rightarrow> u64 \<Rightarrow> u64" where
  [rust_defs]: "saturating_sub a b = (if b \<le> a then a - b else 0)"

definition saturating_mul :: "u64 \<Rightarrow> u64 \<Rightarrow> u64" where
  [rust_defs]: "saturating_mul a b = (if unat a * unat b < 2 ^ 64 then a * b else - 1)"

definition div_ceil :: "u64 \<Rightarrow> u64 \<Rightarrow> u64" where
  [rust_defs]: "div_ceil a b = (if a mod b = 0 then a div b else a div b + 1)"

definition signed_max :: "i64 \<Rightarrow> i64 \<Rightarrow> i64" where
  [rust_defs]: "signed_max a b = (if a \<le>s b then b else a)"

text \<open>The inclusive range \<open>a..=b\<close>: empty when \<open>b < a\<close>.\<close>

definition word_range :: "u64 \<Rightarrow> u64 \<Rightarrow> u64 list" where
  "word_range a b = map word_of_nat [unat a ..< Suc (unat b)]"

lemma unat_u64_less: "unat (w :: u64) < 18446744073709551616"
  using unsigned_less [of w] by simp

lemma unat_of_nat_u64: "n < 18446744073709551616 \<Longrightarrow> unat (word_of_nat n :: u64) = n"
  by (simp add: unat_of_nat)

lemma unat_of_nat_le: "n \<le> unat (b :: u64) \<Longrightarrow> unat (word_of_nat n :: u64) = n"
  using unat_u64_less [of b] by (simp add: unat_of_nat_u64)

lemma set_word_range [simp]: "set (word_range a b) = {w. a \<le> w \<and> w \<le> b}"
proof (rule set_eqI)
  fix w :: u64
  have "w \<in> set (word_range a b) \<longleftrightarrow> (\<exists>n. unat a \<le> n \<and> n \<le> unat b \<and> w = word_of_nat n)"
    by (auto simp: word_range_def)
  also have "\<dots> \<longleftrightarrow> unat a \<le> unat w \<and> unat w \<le> unat b"
  proof
    assume "\<exists>n. unat a \<le> n \<and> n \<le> unat b \<and> w = word_of_nat n"
    then show "unat a \<le> unat w \<and> unat w \<le> unat b"
      using unat_of_nat_le [of _ b] by auto
  next
    assume "unat a \<le> unat w \<and> unat w \<le> unat b"
    then show "\<exists>n. unat a \<le> n \<and> n \<le> unat b \<and> w = word_of_nat n"
      by (intro exI [of _ "unat w"]) simp
  qed
  finally show "w \<in> set (word_range a b) \<longleftrightarrow> w \<in> {w. a \<le> w \<and> w \<le> b}"
    by (simp add: word_le_nat_alt)
qed

lemma distinct_word_range [simp]: "distinct (word_range a b)"
proof -
  have "inj_on (word_of_nat :: nat \<Rightarrow> u64) {unat a ..< Suc (unat b)}"
    by (rule inj_on_inverseI [where g = unat]) (simp add: unat_of_nat_le [of _ b] less_Suc_eq_le)
  then show ?thesis by (simp add: word_range_def distinct_map del: upt_Suc)
qed

lemma word_range_empty [simp]: "b < a \<Longrightarrow> word_range a b = []"
  by (simp add: word_range_def word_less_nat_alt)

lemma sorted_word_range [simp]: "sorted (word_range a b)"
proof -
  have "sorted_wrt (\<lambda>x y. (word_of_nat x :: u64) \<le> word_of_nat y) [unat a ..< Suc (unat b)]"
    by (rule sorted_wrt_mono_rel [of _ "(\<le>)"])
      (auto simp: word_le_nat_alt unat_of_nat_le [of _ b] less_Suc_eq_le simp del: upt_Suc)
  then show ?thesis by (simp add: word_range_def sorted_wrt_map del: upt_Suc)
qed

text \<open>Signed comparisons read words as integers.\<close>

lemma signed_less_sint: "(a :: i64) <s b \<longleftrightarrow> sint a < sint b"
  by (simp add: word_sless_alt)

lemma signed_le_sint: "(a :: i64) \<le>s b \<longleftrightarrow> sint a \<le> sint b"
  by (simp add: word_sle_eq)

subsection \<open>Strings as UTF-8 bytes\<close>

text \<open>\<open>str::chars().count()\<close> counts the bytes that are not continuation bytes.\<close>

definition is_continuation :: "char \<Rightarrow> bool" where
  [rust_defs]: "is_continuation c \<longleftrightarrow> of_char c div 64 = (2 :: nat)"

definition chars_count :: "string \<Rightarrow> nat" where
  [rust_defs]: "chars_count s = length (filter (\<lambda>c. \<not> is_continuation c) s)"

definition to_ascii_lowercase :: "string \<Rightarrow> string" where
  [rust_defs]: "to_ascii_lowercase s =
     map (\<lambda>c. let n = of_char c :: nat in if 65 \<le> n \<and> n \<le> 90 then char_of (n + 32) else c) s"

text \<open>Decimal output of unsigned and signed integers.\<close>

definition digit_char :: "nat \<Rightarrow> char" where
  "digit_char n = char_of (48 + n)"

fun show_nat :: "nat \<Rightarrow> string" where
  "show_nat n = (if n < 10 then [digit_char n] else show_nat (n div 10) @ [digit_char (n mod 10)])"

declare show_nat.simps [simp del]

definition show_u64 :: "u64 \<Rightarrow> string" where
  "show_u64 w = show_nat (unat w)"

definition show_u32 :: "u32 \<Rightarrow> string" where
  "show_u32 w = show_nat (unat w)"

definition show_i64 :: "i64 \<Rightarrow> string" where
  "show_i64 w = (if w <s 0 then CHR ''-'' # show_nat (unat (- w)) else show_nat (unat w))"

text \<open>\<open>u32::from_str\<close>: an optional plus sign, then decimal digits, no overflow.\<close>

definition is_digit :: "char \<Rightarrow> bool" where
  "is_digit c \<longleftrightarrow> 48 \<le> (of_char c :: nat) \<and> (of_char c :: nat) \<le> 57"

definition digits_value :: "string \<Rightarrow> nat" where
  "digits_value s = foldl (\<lambda>acc c. 10 * acc + (of_char c - 48)) 0 s"

definition parse_u32 :: "string \<Rightarrow> u32 option" where
  "parse_u32 s =
     (let d = (case s of c # r \<Rightarrow> if c = CHR ''+'' \<and> r \<noteq> [] then r else s | [] \<Rightarrow> [])
      in if d \<noteq> [] \<and> list_all is_digit d \<and> digits_value d < 2 ^ 32
         then Some (word_of_nat (digits_value d)) else None)"

lemma is_digit_digit_char: "n < 10 \<Longrightarrow> is_digit (digit_char n)"
  by (simp add: is_digit_def digit_char_def)

lemma show_nat_digits: "list_all is_digit (show_nat n)"
proof (induction n rule: show_nat.induct)
  case (1 n)
  then show ?case
    by (cases "n < 10") (simp_all add: show_nat.simps [of n] is_digit_digit_char)
qed

lemma show_nat_nonempty [simp]: "show_nat n \<noteq> []"
  by (simp add: show_nat.simps [of n])

lemma digits_value_snoc: "digits_value (s @ [c]) = 10 * digits_value s + (of_char c - 48)"
  by (simp add: digits_value_def)

lemma digits_value_show_nat [simp]: "digits_value (show_nat n) = n"
proof (induction n rule: show_nat.induct)
  case (1 n)
  show ?case
  proof (cases "n < 10")
    case True
    then show ?thesis
      by (simp add: show_nat.simps [of n] digits_value_def digit_char_def)
  next
    case False
    with 1 show ?thesis
      by (simp add: show_nat.simps [of n] digits_value_snoc digit_char_def)
  qed
qed

lemma show_nat_inject [simp]: "show_nat m = show_nat n \<longleftrightarrow> m = n"
  by (metis digits_value_show_nat)

lemma not_digit_in_show_nat: "\<not> is_digit c \<Longrightarrow> c \<notin> set (show_nat n)"
  using show_nat_digits [of n] by (auto simp: list_all_iff)

lemma parse_u32_digits:
  assumes "d \<noteq> []" and "list_all is_digit d" and "digits_value d < 2 ^ 32"
  shows "parse_u32 d = Some (word_of_nat (digits_value d))"
proof -
  obtain c r where d: "d = c # r" using assms(1) by (cases d) auto
  have "c \<noteq> CHR ''+''" using assms(2) d by (auto simp: is_digit_def)
  then have "(case d of c # r \<Rightarrow> if c = CHR ''+'' \<and> r \<noteq> [] then r else d | [] \<Rightarrow> []) = d"
    using d by simp
  then show ?thesis using assms by (simp only: parse_u32_def Let_def) simp
qed

lemma parse_show_u32 [simp]: "parse_u32 (show_u32 w) = Some w"
proof -
  have "unat w < 2 ^ 32" using unsigned_less [of w] by simp
  then show ?thesis
    unfolding show_u32_def by (subst parse_u32_digits) (simp_all add: show_nat_digits)
qed

text \<open>\<open>split_once\<close> splits at the first separator, \<open>rsplit_once\<close> at the last.\<close>

definition split_once :: "char \<Rightarrow> string \<Rightarrow> (string \<times> string) option" where
  "split_once c s =
     (if c \<in> set s then Some (takeWhile (\<lambda>x. x \<noteq> c) s, tl (dropWhile (\<lambda>x. x \<noteq> c) s)) else None)"

definition rsplit_once :: "char \<Rightarrow> string \<Rightarrow> (string \<times> string) option" where
  "rsplit_once c s =
     map_option (\<lambda>(a, b). (rev b, rev a)) (split_once c (rev s))"

lemma split_once_append: "c \<notin> set a \<Longrightarrow> split_once c (a @ c # b) = Some (a, b)"
proof -
  assume "c \<notin> set a"
  then have "\<And>x. x \<in> set a \<Longrightarrow> x \<noteq> c" by auto
  then show ?thesis by (simp add: split_once_def takeWhile_append2 dropWhile_append2)
qed

lemma rsplit_once_append: "c \<notin> set b \<Longrightarrow> rsplit_once c (a @ c # b) = Some (a, b)"
  by (simp add: rsplit_once_def split_once_append)

subsection \<open>Sorting\<close>

text \<open>A stable sort by an injective key does not depend on the order of its input.\<close>

lemma sort_key_unique:
  assumes "set xs = set ys" and "distinct xs" and "distinct ys" and "inj_on f (set xs)"
  shows "sort_key f xs = sort_key f ys"
  by (rule map_sorted_distinct_set_unique [where f = f]) (use assms in \<open>simp_all add: distinct_map\<close>)

subsection \<open>Finite maps\<close>

text \<open>The library's congruence rule for filters blocks rewriting of the filtered map.\<close>

declare fmfilter_cong [cong del]

text \<open>Iteration over a map, in key order.\<close>

definition fm_entries :: "('k::linorder, 'v) fmap \<Rightarrow> ('k \<times> 'v) list" where
  "fm_entries m = sorted_list_of_fmap m"

definition fm_keys :: "('k::linorder, 'v) fmap \<Rightarrow> 'k list" where
  "fm_keys m = sorted_list_of_fset (fmdom m)"

definition fm_values :: "('k::linorder, 'v) fmap \<Rightarrow> 'v list" where
  "fm_values m = map snd (fm_entries m)"

definition fm_len :: "('k, 'v) fmap \<Rightarrow> usize" where
  "fm_len m = word_of_nat (fcard (fmdom m))"

abbreviation fm_contains :: "('k, 'v) fmap \<Rightarrow> 'k \<Rightarrow> bool" where
  "fm_contains m k \<equiv> fmlookup m k \<noteq> None"

definition fm_get_or :: "('k, 'v) fmap \<Rightarrow> 'k \<Rightarrow> 'v \<Rightarrow> 'v" where
  "fm_get_or m k d = (case fmlookup m k of Some v \<Rightarrow> v | None \<Rightarrow> d)"

text \<open>\<open>entry(k).or_insert(v)\<close>.\<close>

definition fm_or_insert :: "'k \<Rightarrow> 'v \<Rightarrow> ('k, 'v) fmap \<Rightarrow> ('k, 'v) fmap" where
  "fm_or_insert k v m = (case fmlookup m k of Some _ \<Rightarrow> m | None \<Rightarrow> fmupd k v m)"

lemma fm_get_or_upd [simp]: "fm_get_or (fmupd k v m) k' d = (if k = k' then v else fm_get_or m k' d)"
  by (simp add: fm_get_or_def)

lemma lookup_fold_fmupd:
  assumes "distinct (map f xs)"
  shows "fmlookup (fold (\<lambda>x. fmupd (f x) (g x)) xs m) k =
     (case find (\<lambda>x. f x = k) xs of Some x \<Rightarrow> Some (g x) | None \<Rightarrow> fmlookup m k)"
  using assms
proof (induction xs arbitrary: m)
  case (Cons a xs)
  have "f a = k \<Longrightarrow> find (\<lambda>x. f x = k) xs = None"
    using Cons.prems by (auto simp: find_None_iff image_iff)
  with Cons.IH [of "fmupd (f a) (g a) m"] Cons.prems show ?case
    by (cases "f a = k") (auto split: option.splits)
qed simp

lemma fm_get_or_empty [simp]: "fm_get_or fmempty k d = d"
  by (simp add: fm_get_or_def)

lemma fm_get_or_filter [simp]:
  "fm_get_or (fmfilter P m) k d = (if P k then fm_get_or m k d else d)"
  by (simp add: fm_get_or_def)

lemma fmlookup_or_insert [simp]:
  "fmlookup (fm_or_insert k v m) k' = (if k = k' then Some (fm_get_or m k v) else fmlookup m k')"
  by (auto simp: fm_or_insert_def fm_get_or_def split: option.splits)

lemma fm_get_or_or_insert [simp]:
  "fm_get_or (fm_or_insert k v m) k' d = (if k = k' then fm_get_or m k v else fm_get_or m k' d)"
  by (simp add: fm_get_or_def [of "fm_or_insert k v m"]) (simp add: fm_get_or_def)

lemma fm_get_or_twice [simp]: "fm_get_or m k (fm_get_or m k d) = fm_get_or m k d"
  by (simp add: fm_get_or_def split: option.splits)

lemma map_fst_fm_entries [simp]: "map fst (fm_entries m) = fm_keys m"
  by (simp add: fm_entries_def fm_keys_def sorted_list_of_fmap_def comp_def)

lemma set_fm_keys [simp]: "set (fm_keys m) = fmdom' m"
  by (simp add: fm_keys_def fmdom'_alt_def)

lemma sorted_fm_keys [simp]: "sorted (fm_keys m)"
  by (simp add: fm_keys_def sorted_list_of_fset.rep_eq)

lemma distinct_fm_keys [simp]: "distinct (fm_keys m)"
  by (simp add: fm_keys_def sorted_list_of_fset.rep_eq)

lemma distinct_fm_entries [simp]: "distinct (fm_entries m)"
  by (metis distinct_fm_keys distinct_map map_fst_fm_entries)

lemma in_fm_entries [simp]: "(k, v) \<in> set (fm_entries m) \<longleftrightarrow> fmlookup m k = Some v"
  by (auto simp: fm_entries_def sorted_list_of_fmap_def fmlookup_dom_iff image_iff)

lemma fm_entries_empty [simp]: "fm_entries fmempty = []"
  by (simp add: fm_entries_def sorted_list_of_fmap_def sorted_list_of_fset.rep_eq)

lemma fm_keys_empty [simp]: "fm_keys fmempty = []"
  by (simp add: fm_keys_def sorted_list_of_fset.rep_eq)

lemma fm_values_empty [simp]: "fm_values fmempty = []"
  by (simp add: fm_values_def)

lemma fm_values_keys: "fm_values m = map (\<lambda>k. the (fmlookup m k)) (fm_keys m)"
  by (simp add: fm_values_def fm_entries_def fm_keys_def sorted_list_of_fmap_def comp_def)

lemma fm_entries_keys: "fm_entries m = map (\<lambda>k. (k, the (fmlookup m k))) (fm_keys m)"
  by (simp add: fm_entries_def fm_keys_def sorted_list_of_fmap_def)

lemma in_fm_values [simp]: "v \<in> set (fm_values m) \<longleftrightarrow> (\<exists>k. fmlookup m k = Some v)"
proof -
  have "v \<in> set (fm_values m) \<longleftrightarrow> (\<exists>k. (k, v) \<in> set (fm_entries m))"
    by (force simp: fm_values_def simp del: in_fm_entries)
  then show ?thesis by simp
qed

lemma fm_keys_upd: "fm_keys (fmupd k v m) = (if k \<in> fmdom' m then fm_keys m else insort k (fm_keys m))"
proof (cases "k \<in> fmdom' m")
  case True
  then have "finsert k (fmdom m) = fmdom m" by (auto simp: fmdom'_alt_def)
  then show ?thesis using True by (simp add: fm_keys_def)
next
  case False
  then show ?thesis
    by (simp add: fm_keys_def sorted_list_of_fset.rep_eq fmdom'_alt_def)
qed

lemma map_insort_pair:
  "map (\<lambda>j. (j, g j)) (insort k ks) = insort_key fst (k, g k) (map (\<lambda>j. (j, g j)) ks)"
  by (induction ks) auto

text \<open>Evaluation of iteration on literal maps: a fresh key is inserted in order.\<close>

lemma fm_entries_upd_fresh:
  "fmlookup m k = None \<Longrightarrow> fm_entries (fmupd k v m) = insort_key fst (k, v) (fm_entries m)"
proof -
  assume fresh: "fmlookup m k = None"
  then have nk: "k \<notin> fmdom' m" by (simp add: fmlookup_dom'_iff)
  let ?g = "\<lambda>j. (j, the (fmlookup (fmupd k v m) j))"
  have "fm_entries (fmupd k v m) = map ?g (insort k (fm_keys m))"
    by (simp add: fm_entries_keys fm_keys_upd nk)
  also have "\<dots> = insort_key fst (?g k) (map ?g (fm_keys m))"
    by (rule map_insort_pair)
  also have "map ?g (fm_keys m) = fm_entries m"
    using nk by (auto simp: fm_entries_keys)
  finally show ?thesis by simp
qed

text \<open>A sum over a map does not depend on the order of iteration.\<close>

definition fm_sum :: "('k::linorder \<Rightarrow> 'v \<Rightarrow> 'a::comm_monoid_add) \<Rightarrow> ('k, 'v) fmap \<Rightarrow> 'a" where
  "fm_sum f m = sum_list (map (\<lambda>(k, v). f k v) (fm_entries m))"

lemma fm_sum_set: "fm_sum f m = (\<Sum>k\<in>fmdom' m. f k (the (fmlookup m k)))"
  by (simp add: fm_sum_def fm_entries_keys comp_def sum_list_distinct_conv_sum_set)

lemma fm_sum_empty [simp]: "fm_sum f fmempty = 0"
  by (simp add: fm_sum_def)

lemma fm_sum_upd_fresh: "fmlookup m k = None \<Longrightarrow> fm_sum f (fmupd k v m) = f k v + fm_sum f m"
proof -
  assume "fmlookup m k = None"
  then have nk: "k \<notin> fmdom' m" by (simp add: fmlookup_dom'_iff)
  have "(\<Sum>j\<in>fmdom' m. f j (the (fmlookup (fmupd k v m) j))) = (\<Sum>j\<in>fmdom' m. f j (the (fmlookup m j)))"
    by (rule sum.cong) (use nk in auto)
  then show ?thesis using nk by (simp add: fm_sum_set)
qed

lemma fm_sum_split:
  "fmlookup m k = Some v \<Longrightarrow> fm_sum f m = f k v + fm_sum f (fmdrop k m)"
proof -
  assume l: "fmlookup m k = Some v"
  have "m = fmupd k v (fmdrop k m)" by (rule fmap_ext) (use l in auto)
  then show ?thesis by (metis fm_sum_upd_fresh fmdrop_lookup)
qed

lemma fm_sum_upd:
  "fm_sum f (fmupd k v m) = f k v + fm_sum f (fmdrop k m)"
  using fm_sum_split [of "fmupd k v m" k v f] by (simp add: fmdrop_fmupd_same)

lemma fm_sum_cong:
  "(\<And>k v. fmlookup m k = Some v \<Longrightarrow> f k v = g k v) \<Longrightarrow> fm_sum f m = fm_sum g m"
  by (auto simp: fm_sum_def intro!: arg_cong [of _ _ sum_list])

lemma fm_sum_filter: "fm_sum f (fmfilter P m) = fm_sum (\<lambda>k v. if P k then f k v else 0) m"
proof -
  have dom: "fmdom' (fmfilter P m) = {k \<in> fmdom' m. P k}" by (auto simp: fmlookup_dom'_iff)
  have "(\<Sum>k\<in>fmdom' m. if P k then f k (the (fmlookup m k)) else 0) = (\<Sum>k\<in>{k \<in> fmdom' m. P k}. f k (the (fmlookup m k)))"
    by (simp add: sum.If_cases Int_def)
  then show ?thesis by (simp add: fm_sum_set dom)
qed

lemma sum_list_fm_values: "sum_list (map f (fm_values m)) = fm_sum (\<lambda>_. f) m"
  by (simp add: fm_values_def fm_sum_def comp_def case_prod_unfold)

subsection \<open>Order-independent replay\<close>

text \<open>
  Updates that commute pairwise on a set of events give the same state in every order of
  the events: the argument behind every convergence statement of the development.
\<close>

locale commuting_updates =
  fixes upd :: "'e \<Rightarrow> 'a \<Rightarrow> 'a"
    and compat :: "'e \<Rightarrow> 'e \<Rightarrow> bool"
  assumes commute: "compat e f \<Longrightarrow> upd e (upd f s) = upd f (upd e s)"
begin

lemma fold_move_front:
  "(\<And>f. f \<in> set xs \<Longrightarrow> compat e f) \<Longrightarrow> fold upd xs (upd e s) = upd e (fold upd xs s)"
proof (induction xs arbitrary: s)
  case (Cons f xs)
  have "upd f (upd e s) = upd e (upd f s)" using commute [of e f s] Cons.prems [of f] by simp
  with Cons.IH [of "upd f s"] Cons.prems show ?case by simp
qed simp

lemma fold_permute:
  assumes "mset xs = mset ys" and "\<And>e f. e \<in> set xs \<Longrightarrow> f \<in> set xs \<Longrightarrow> compat e f"
  shows "fold upd xs s = fold upd ys s"
  using assms
proof (induction xs arbitrary: ys s)
  case (Cons e xs)
  have "e \<in> set ys" using Cons.prems(1) by (metis list.set_intros(1) mset_eq_setD)
  then obtain us vs where ys: "ys = us @ e # vs" by (meson split_list)
  have m: "mset xs = mset (us @ vs)" using Cons.prems(1) ys by simp
  have us: "set us \<subseteq> set (e # xs)" using mset_eq_setD [OF Cons.prems(1)] ys by auto
  have "fold upd (e # xs) s = fold upd (us @ vs) (upd e s)"
    using Cons.IH [OF m] Cons.prems(2) by simp
  also have "\<dots> = fold upd ys s"
    using fold_move_front [of us e s] Cons.prems(2) us ys by (auto simp: subset_iff)
  finally show ?case .
qed simp

end

end
