(* ===== verification/Types.thy ===== *)
theory Types
  imports Prelude
begin

section \<open>Domain types (\<open>libs/types/src/lib.rs\<close>)\<close>

text \<open>
  The event record and its keys, the idempotency winner, the node registry merge, the
  checksum, and the request and response types of the node RPC. Record fields carry the
  source's names for \<open>Event\<close> and a prefix for the other structs, since a field name is
  global in HOL. SHA-256 is third-party code: it is the parameter \<open>sha\<close>, a function on
  byte strings.
\<close>

subsection \<open>Keys and reserved names\<close>

type_synonym origin_key = "string \<times> string \<times> u32 \<times> u64"
type_synonym epoch_key = "string \<times> string \<times> u32"
type_synonym balance_key = "string \<times> string"
type_synonym idem_key = "string \<times> string \<times> string \<times> i64"
type_synonym bytes = string

definition META_BUCKET :: string where
  "META_BUCKET = ''__meta__''"

definition BILLING_BUCKET_PREFIX :: string where
  "BILLING_BUCKET_PREFIX = ''__billing__''"

definition is_reserved_bucket_name :: "string \<Rightarrow> bool" where
  "is_reserved_bucket_name name \<longleftrightarrow> name = META_BUCKET \<or> prefix BILLING_BUCKET_PREFIX name"

lemma META_reserved [simp]: "is_reserved_bucket_name META_BUCKET"
  by (simp add: is_reserved_bucket_name_def)

subsection \<open>Events\<close>

datatype event_type = Standard | ReservationCreate | Void | HoldRelease | BucketDelete

fun show_event_type :: "event_type \<Rightarrow> string" where
  "show_event_type Standard = ''standard''"
| "show_event_type ReservationCreate = ''reservation_create''"
| "show_event_type Void = ''void''"
| "show_event_type HoldRelease = ''hold_release''"
| "show_event_type BucketDelete = ''bucket_delete''"

record event =
  event_id :: string
  origin_node_id :: string
  origin_epoch :: u32
  origin_seq :: u64
  created_at_unix_ms :: u64
  etype :: event_type
  bucket :: string
  account :: string
  amount :: i64
  event_note :: "string option"
  idempotency_nonce :: string
  void_ref :: "string option"
  hold_amount :: u64
  hold_expires_at_unix_ms :: u64
  transfer_to :: "string option"

definition origin_key :: "event \<Rightarrow> origin_key" where
  "origin_key e = (bucket e, origin_node_id e, origin_epoch e, origin_seq e)"

definition epoch_key :: "event \<Rightarrow> epoch_key" where
  "epoch_key e = (bucket e, origin_node_id e, origin_epoch e)"

definition balance_key :: "event \<Rightarrow> balance_key" where
  "balance_key e = (bucket e, account e)"

definition idempotency_key :: "event \<Rightarrow> idem_key" where
  "idempotency_key e = (idempotency_nonce e, bucket e, account e, amount e)"

definition unwrap_or_empty :: "string option \<Rightarrow> string" where
  "unwrap_or_empty x = (case x of Some s \<Rightarrow> s | None \<Rightarrow> [])"

definition canonical :: "event \<Rightarrow> string" where
  "canonical e =
     origin_node_id e @ '':'' @ show_u32 (origin_epoch e) @ '':'' @ show_u64 (origin_seq e) @ '':'' @
     event_id e @ '':'' @ show_event_type (etype e) @ '':'' @ bucket e @ '':'' @ account e @ '':'' @
     show_i64 (amount e) @ '':'' @ unwrap_or_empty (void_ref e) @ '':'' @ idempotency_nonce e @ '':'' @
     show_u64 (hold_amount e) @ '':'' @ show_u64 (hold_expires_at_unix_ms e)"

definition has_hold :: "event \<Rightarrow> bool" where
  "has_hold e = (case etype e of
       ReservationCreate \<Rightarrow> hold_amount e > 0 \<and> hold_expires_at_unix_ms e > 0
     | Standard \<Rightarrow> amount e <s 0 \<and> hold_amount e > 0 \<and> hold_expires_at_unix_ms e > 0
     | Void \<Rightarrow> False
     | HoldRelease \<Rightarrow> False
     | BucketDelete \<Rightarrow> False)"

definition meta_target_bucket :: "event \<Rightarrow> string option" where
  "meta_target_bucket e =
     (if etype e = BucketDelete \<and> bucket e = META_BUCKET then Some (account e) else None)"

definition epoch_of_origin_key :: "origin_key \<Rightarrow> epoch_key" where
  "epoch_of_origin_key k = (case k of (b, n, ep, s) \<Rightarrow> (b, n, ep))"

definition seq_of_origin_key :: "origin_key \<Rightarrow> u64" where
  "seq_of_origin_key k = (case k of (b, n, ep, s) \<Rightarrow> s)"

definition mk_origin_key :: "epoch_key \<Rightarrow> u64 \<Rightarrow> origin_key" where
  "mk_origin_key ek s = (case ek of (b, n, ep) \<Rightarrow> (b, n, ep, s))"

lemma mk_origin_key_simps [simp]:
  "epoch_of_origin_key (mk_origin_key ek s) = ek"
  "seq_of_origin_key (mk_origin_key ek s) = s"
  "mk_origin_key (epoch_of_origin_key k) (seq_of_origin_key k) = k"
  "mk_origin_key ek s = mk_origin_key ek' s' \<longleftrightarrow> ek = ek' \<and> s = s'"
  "fst (mk_origin_key ek s) = fst ek"
  by (auto simp: epoch_of_origin_key_def seq_of_origin_key_def mk_origin_key_def split: prod.splits)

lemma origin_key_parts [simp]:
  "seq_of_origin_key (origin_key e) = origin_seq e"
  "mk_origin_key (epoch_key e) (origin_seq e) = origin_key e"
  "fst (origin_key e) = bucket e" "fst (epoch_key e) = bucket e" "fst (balance_key e) = bucket e"
  by (simp_all add: seq_of_origin_key_def mk_origin_key_def origin_key_def epoch_key_def balance_key_def)

lemma fst_epoch_of_origin_key [simp]: "fst (epoch_of_origin_key k) = fst k"
  by (simp add: epoch_of_origin_key_def split: prod.splits)

lemma epoch_of_origin_key_event [simp]: "epoch_of_origin_key (origin_key e) = epoch_key e"
  by (simp add: epoch_of_origin_key_def origin_key_def epoch_key_def)

lemma meta_target_bucket_Some:
  "meta_target_bucket e = Some t \<longleftrightarrow> etype e = BucketDelete \<and> bucket e = META_BUCKET \<and> account e = t"
  by (auto simp: meta_target_bucket_def)

subsection \<open>Checksum over a sorted event list\<close>

definition hex_digit :: "nat \<Rightarrow> char" where
  "hex_digit n = (if n < 10 then char_of (48 + n) else char_of (87 + n))"

definition hex :: "bytes \<Rightarrow> string" where
  "hex s = concat (map (\<lambda>c. [hex_digit (of_char c div 16), hex_digit (of_char c mod 16)]) s)"

text \<open>The bytes fed to the hasher: the canonical strings separated by newlines.\<close>

fun join_lines :: "string list \<Rightarrow> string" where
  "join_lines [] = []"
| "join_lines [x] = x"
| "join_lines (x # y # zs) = x @ CHR 0x0A # join_lines (y # zs)"

type_synonym checksum_row = "string \<times> string \<times> u32 \<times> u64 \<times> string"

definition checksum_row_key :: "checksum_row \<Rightarrow> origin_key" where
  "checksum_row_key r = (case r of (b, n, ep, s, _) \<Rightarrow> (b, n, ep, s))"

definition checksum_row_canonical :: "checksum_row \<Rightarrow> string" where
  "checksum_row_canonical r = (case r of (_, _, _, _, c) \<Rightarrow> c)"

definition compute_checksum :: "(bytes \<Rightarrow> bytes) \<Rightarrow> checksum_row list \<Rightarrow> string" where
  "compute_checksum sha events =
     hex (sha (join_lines (map checksum_row_canonical (sort_key checksum_row_key events))))"

subsection \<open>Node registry\<close>

record node_meta =
  meta_node_id :: string
  meta_host :: string
  meta_port :: "16 word"

datatype node_status = Active | Suspect | Unreachable | Decommissioned

fun show_node_status :: "node_status \<Rightarrow> string" where
  "show_node_status Active = ''active''"
| "show_node_status Suspect = ''suspect''"
| "show_node_status Unreachable = ''unreachable''"
| "show_node_status Decommissioned = ''decommissioned''"

record node_registry_entry =
  reg_node_id :: string
  reg_addr :: string
  first_seen_at_unix_ms :: u64
  last_seen_at_unix_ms :: u64
  reg_status :: node_status

definition latest_non_empty_addr :: "node_registry_entry \<Rightarrow> node_registry_entry \<Rightarrow> string" where
  "latest_non_empty_addr current incoming =
     (if last_seen_at_unix_ms incoming > last_seen_at_unix_ms current then
        if reg_addr incoming = [] then reg_addr current else reg_addr incoming
      else if last_seen_at_unix_ms current > last_seen_at_unix_ms incoming then
        if reg_addr current = [] then reg_addr incoming else reg_addr current
      else if reg_addr incoming \<noteq> [] then reg_addr incoming
      else reg_addr current)"

text \<open>\<open>NodeRegistryEntry::merge\<close>; the failed \<open>assert_eq!\<close> on the ids is \<open>None\<close>.\<close>

definition registry_merge ::
  "node_registry_entry \<Rightarrow> node_registry_entry \<Rightarrow> node_registry_entry option" where
  "registry_merge self other =
     (if reg_node_id self \<noteq> reg_node_id other then None
      else
        let first_seen = min (first_seen_at_unix_ms self) (first_seen_at_unix_ms other);
            last_seen = max (last_seen_at_unix_ms self) (last_seen_at_unix_ms other);
            latest = (if last_seen_at_unix_ms other > last_seen_at_unix_ms self then other else self);
            status = (if reg_status self = Decommissioned \<or> reg_status other = Decommissioned
                      then Decommissioned else reg_status latest)
        in Some \<lparr>reg_node_id = reg_node_id self, reg_addr = latest_non_empty_addr self other,
             first_seen_at_unix_ms = first_seen, last_seen_at_unix_ms = last_seen,
             reg_status = status\<rparr>)"

subsection \<open>Idempotency winner\<close>

definition idempotency_winner :: "event \<Rightarrow> event \<Rightarrow> event \<times> event" where
  "idempotency_winner a b =
     (if created_at_unix_ms a < created_at_unix_ms b then (a, b)
      else if created_at_unix_ms b < created_at_unix_ms a then (b, a)
      else if event_id a < event_id b then (a, b)
      else (b, a))"

subsection \<open>Event notes\<close>

definition MAX_EVENT_NOTE_CHARS :: nat where
  "MAX_EVENT_NOTE_CHARS = 4096"

definition validate_event_note :: "string option \<Rightarrow> string + unit" where
  "validate_event_note n = (case n of
       None \<Rightarrow> Inr ()
     | Some s \<Rightarrow> if chars_count s > MAX_EVENT_NOTE_CHARS
                then Inl (''note must be at most '' @ show_nat MAX_EVENT_NOTE_CHARS @ '' characters'')
                else Inr ())"

subsection \<open>Requests and responses\<close>

record ack_info =
  ack_received :: u32
  ack_requested :: u32
  ack_timeout :: bool

definition fire_and_forget :: ack_info where
  "fire_and_forget = \<lparr>ack_received = 0, ack_requested = 0, ack_timeout = False\<rparr>"

record create_event_request =
  req_bucket :: string
  req_account :: string
  req_amount :: i64
  req_note :: "string option"
  req_idempotency_nonce :: string
  req_max_overdraft :: "u64 option"
  req_min_acks :: "u32 option"
  req_ack_timeout_ms :: "u64 option"
  req_hold_amount :: "u64 option"
  req_hold_expires_at_unix_ms :: "u64 option"
  req_settle_reservation :: "string option"
  req_release_reservation :: "string option"
  req_skip_hold :: "bool option"
  req_allow_reserved_bucket :: bool
  req_transfer_to :: "string option"

record create_event_response =
  resp_event :: event
  resp_emitted_events :: "event list"
  resp_balance :: i64
  resp_available_balance :: i64
  resp_deduplicated :: bool
  resp_acks :: ack_info

record insufficient_funds_error =
  ife_error :: string
  ife_balance :: i64
  ife_available_balance :: i64
  ife_projected_available_balance :: i64
  ife_limit :: i64
  ife_hold_blocking :: bool
  ife_hint :: "string option"

record health_response =
  hr_observed_at_unix_ms :: u64
  hr_node_id :: string
  hr_addr :: string
  hr_ready :: bool
  hr_peer_count :: usize
  hr_known_nodes :: usize
  hr_sync_gap :: u64
  hr_sync_gap_per_bucket :: "(string, u64) fmap"
  hr_inflight_requests :: u64
  hr_completed_requests :: u64
  hr_failed_requests :: u64
  hr_overloaded :: bool
  hr_event_count :: usize
  hr_total_balance :: i64

record state_response =
  sr_node_id :: string
  sr_addr :: string
  sr_ready :: bool
  sr_event_count :: usize
  sr_total_balance :: i64
  sr_contiguous_heads :: "(string, u64) fmap"
  sr_checksum :: string

record origin_reservation_summary =
  ors_reserved_amount :: u64
  ors_reservation_count :: usize
  ors_next_expiry_unix_ms :: "u64 option"
  ors_latest_expiry_unix_ms :: "u64 option"

definition default_reservation_summary :: origin_reservation_summary where
  "default_reservation_summary = \<lparr>ors_reserved_amount = 0, ors_reservation_count = 0,
     ors_next_expiry_unix_ms = None, ors_latest_expiry_unix_ms = None\<rparr>"

record account_balance =
  ab_bucket :: string
  ab_account :: string
  ab_balance :: i64
  ab_available_balance :: i64
  ab_active_hold_total :: i64
  ab_reserved_by_origin :: "(string, origin_reservation_summary) fmap"
  ab_event_count :: usize

record balances_response =
  br_accounts :: "account_balance list"
  br_total_balance :: i64

record persistence_stats =
  ps_buffered :: usize
  ps_unpersisted :: usize
  ps_oldest_unpersisted_age_ms :: "u64 option"

record digest_info =
  di_head :: u64
  di_digest :: string

record debug_epoch_info =
  de_contiguous_head :: u64
  de_present_seqs :: "u64 list"
  de_min_seq :: "u64 option"
  de_max_seq :: "u64 option"
  de_count :: usize

record debug_origin_response =
  do_origin_node_id :: string
  do_epochs :: "(u32, debug_epoch_info) fmap"

record origin_progress =
  op_head :: u64
  op_max_known :: u64

record collapsed_balance =
  cb_balance :: i64
  cb_available_balance :: i64
  cb_status :: string
  cb_reserved_by_origin :: "(string, origin_reservation_summary) fmap"
  cb_contributing_origins :: "(string, origin_progress) fmap"

record deleted_bucket_entry =
  db_name :: string
  db_deleted_at_unix_ms :: u64

record events_filter_request =
  efr_bucket :: "string option"
  efr_bucket_prefix :: "string option"
  efr_account :: "string option"
  efr_origin :: "string option"
  efr_event_type :: "string option"
  efr_since_unix_ms :: "u64 option"
  efr_until_unix_ms :: "u64 option"
  efr_search :: "string option"
  efr_limit :: u32
  efr_offset :: u32

record events_filter_response =
  efp_events :: "event list"
  efp_total :: u64
  efp_limit :: u32
  efp_offset :: u32
  efp_heads :: "(string, u64) fmap"
  efp_max_known_seqs :: "(string, u64) fmap"

datatype node_rpc_request =
    RqCreateEvent create_event_request
  | RqHealth
  | RqState
  | RqEvents
  | RqHeads
  | RqBalances
  | RqCollapsed
  | RqCollapsedAccount string string
  | RqPersistence
  | RqDigests
  | RqDebugOrigin string
  | RqRegistry
  | RqDeleteBucket string "string option"
  | RqEventsFilter events_filter_request
  | RqDeletedBuckets

datatype node_rpc_response =
    RsCreateEvent create_event_response
  | RsHealth health_response
  | RsState state_response
  | RsEvents "event list"
  | RsHeads "(string, u64) fmap"
  | RsBalances balances_response
  | RsCollapsed "(string, collapsed_balance) fmap"
  | RsCollapsedAccount collapsed_balance
  | RsPersistence persistence_stats
  | RsDigests "(string, digest_info) fmap"
  | RsDebugOrigin debug_origin_response
  | RsRegistry "node_registry_entry list"
  | RsDeleteBucket event
  | RsEventsFilter events_filter_response
  | RsDeletedBuckets "deleted_bucket_entry list"

datatype node_rpc_error_code = ServiceUnavailable | InsufficientFundsCode | InvalidInput | NotFound | Internal

record node_rpc_error =
  err_code :: node_rpc_error_code
  err_message :: string
  err_insufficient_funds :: "insufficient_funds_error option"

definition service_unavailable :: "string \<Rightarrow> node_rpc_error" where
  "service_unavailable m = \<lparr>err_code = ServiceUnavailable, err_message = m, err_insufficient_funds = None\<rparr>"

definition internal_error :: "string \<Rightarrow> node_rpc_error" where
  "internal_error m = \<lparr>err_code = Internal, err_message = m, err_insufficient_funds = None\<rparr>"

definition invalid_input :: "string \<Rightarrow> node_rpc_error" where
  "invalid_input m = \<lparr>err_code = InvalidInput, err_message = m, err_insufficient_funds = None\<rparr>"

definition insufficient_funds :: "insufficient_funds_error \<Rightarrow> node_rpc_error" where
  "insufficient_funds e = \<lparr>err_code = InsufficientFundsCode, err_message = ife_error e,
     err_insufficient_funds = Some e\<rparr>"

section \<open>Properties of the domain types\<close>

subsection \<open>The idempotency winner is a minimum\<close>

definition winner_key :: "event \<Rightarrow> u64 \<times> string" where
  "winner_key e = (created_at_unix_ms e, event_id e)"

lemma idempotency_winner_cases:
  "idempotency_winner a b = (if winner_key a < winner_key b then (a, b) else (b, a))"
  by (auto simp: idempotency_winner_def winner_key_def less_prod_def)

lemma winner_key_winner: "winner_key (fst (idempotency_winner a b)) = min (winner_key a) (winner_key b)"
  by (auto simp: idempotency_winner_cases min_def)

lemma winner_in: "fst (idempotency_winner a b) \<in> {a, b}"
  by (simp add: idempotency_winner_cases)

text \<open>What a cache that keeps the winner holds after a sequence of conflicting events.\<close>

definition fold_winner :: "event \<Rightarrow> event list \<Rightarrow> event" where
  "fold_winner e es = foldl (\<lambda>w x. fst (idempotency_winner w x)) e es"

lemma fold_winner_simps [simp]:
  "fold_winner e [] = e"
  "fold_winner e (x # es) = fold_winner (fst (idempotency_winner e x)) es"
  by (simp_all add: fold_winner_def)

lemma fold_winner_in: "fold_winner e es \<in> insert e (set es)"
proof (induction es arbitrary: e)
  case Nil
  then show ?case by simp
next
  case (Cons x es)
  show ?case
    using Cons.IH [of "fst (idempotency_winner e x)"] winner_in [of e x] by auto
qed

lemma winner_key_fold_winner:
  "winner_key (fold_winner e es) = Min (winner_key ` insert e (set es))"
proof (induction es arbitrary: e)
  case Nil
  then show ?case by simp
next
  case (Cons x es)
  show ?case
    by (cases "es = []") (simp_all add: Cons.IH winner_key_winner min.assoc del: fold_winner_def)
qed

text \<open>A small event for the worked instances of the theorems.\<close>

definition sample_event :: "string \<Rightarrow> string \<Rightarrow> u64 \<Rightarrow> u64 \<Rightarrow> i64 \<Rightarrow> event" where
  "sample_event i n q t amt =
     \<lparr>event_id = i, origin_node_id = n, origin_epoch = 1, origin_seq = q, created_at_unix_ms = t,
      etype = Standard, bucket = ''b'', account = ''a'', amount = amt, event_note = None,
      idempotency_nonce = ''k'', void_ref = None, hold_amount = 0, hold_expires_at_unix_ms = 0, transfer_to = None\<rparr>"

text \<open>Agreement on the winner: two nodes that see the same conflicting events, each in its own
  order and each keeping the winner of every comparison, end with the same event, as long as event
  ids are unique.\<close>

theorem winner_agreement:
  assumes "insert e (set es) = insert e' (set es')" and "inj_on event_id (insert e (set es))"
  shows "fold_winner e es = fold_winner e' es'"
proof -
  have "winner_key (fold_winner e es) = winner_key (fold_winner e' es')"
    by (simp only: winner_key_fold_winner assms(1))
  then have "event_id (fold_winner e es) = event_id (fold_winner e' es')"
    by (simp add: winner_key_def)
  with assms show ?thesis
    using fold_winner_in [of e es] fold_winner_in [of e' es'] by (metis inj_onD)
qed

theorem winner_agreement_witness:
  "fold_winner (sample_event ''x'' ''n'' 1 5 1) [sample_event ''y'' ''m'' 1 4 1] =
   fold_winner (sample_event ''y'' ''m'' 1 4 1) [sample_event ''x'' ''n'' 1 5 1]"
  by (rule winner_agreement) (auto simp: sample_event_def)

subsection \<open>The registry merge\<close>

lemma registry_merge_idem: "registry_merge a a = Some a"
  by (simp add: registry_merge_def latest_non_empty_addr_def Let_def)

lemma registry_merge_Some:
  "registry_merge a b = Some c \<Longrightarrow>
     reg_node_id a = reg_node_id b \<and> reg_node_id c = reg_node_id a \<and>
     reg_addr c = latest_non_empty_addr a b \<and>
     first_seen_at_unix_ms c = min (first_seen_at_unix_ms a) (first_seen_at_unix_ms b) \<and>
     last_seen_at_unix_ms c = max (last_seen_at_unix_ms a) (last_seen_at_unix_ms b) \<and>
     reg_status c = (if reg_status a = Decommissioned \<or> reg_status b = Decommissioned then Decommissioned
        else reg_status (if last_seen_at_unix_ms b > last_seen_at_unix_ms a then b else a))"
  by (auto simp: registry_merge_def Let_def split: if_splits)

lemma registry_merge_commute:
  "last_seen_at_unix_ms a \<noteq> last_seen_at_unix_ms b \<Longrightarrow> registry_merge a b = registry_merge b a"
  by (auto simp: registry_merge_def latest_non_empty_addr_def Let_def min.commute max.commute)

text \<open>With both addresses known, the address is that of the later entry, the incoming one on a tie.\<close>

lemma latest_addr_known:
  "reg_addr a \<noteq> [] \<Longrightarrow> reg_addr b \<noteq> [] \<Longrightarrow>
   latest_non_empty_addr a b =
     (if last_seen_at_unix_ms a \<le> last_seen_at_unix_ms b then reg_addr b else reg_addr a)"
  by (auto simp: latest_non_empty_addr_def)

lemma registry_merge_known:
  "reg_node_id a = n \<Longrightarrow> reg_node_id b = n \<Longrightarrow> reg_addr a \<noteq> [] \<Longrightarrow> reg_addr b \<noteq> [] \<Longrightarrow>
   registry_merge a b = Some \<lparr>reg_node_id = n,
     reg_addr = (if last_seen_at_unix_ms a \<le> last_seen_at_unix_ms b then reg_addr b else reg_addr a),
     first_seen_at_unix_ms = min (first_seen_at_unix_ms a) (first_seen_at_unix_ms b),
     last_seen_at_unix_ms = max (last_seen_at_unix_ms a) (last_seen_at_unix_ms b),
     reg_status = (if reg_status a = Decommissioned \<or> reg_status b = Decommissioned then Decommissioned
        else if last_seen_at_unix_ms a < last_seen_at_unix_ms b then reg_status b else reg_status a)\<rparr>"
  by (simp add: registry_merge_def latest_addr_known Let_def)

lemma registry_merge_assoc:
  assumes "reg_node_id a = n" "reg_node_id b = n" "reg_node_id c = n"
    and "reg_addr a \<noteq> []" "reg_addr b \<noteq> []" "reg_addr c \<noteq> []"
  shows "Option.bind (registry_merge a b) (\<lambda>ab. registry_merge ab c) =
         Option.bind (registry_merge b c) (\<lambda>bc. registry_merge a bc)"
proof -
  let ?t = last_seen_at_unix_ms
  consider "?t a \<le> ?t b" "?t b \<le> ?t c" | "?t a \<le> ?t b" "?t c < ?t b"
    | "?t b < ?t a" "?t b \<le> ?t c" | "?t b < ?t a" "?t c < ?t b"
    by (meson leI)
  then show ?thesis
    by cases (use assms in \<open>auto simp: registry_merge_known min.assoc max_def\<close>)
qed

subsection \<open>The checksum\<close>

lemma compute_checksum_order:
  assumes "set xs = set ys" and "distinct (map checksum_row_key xs)" and "distinct (map checksum_row_key ys)"
  shows "compute_checksum sha xs = compute_checksum sha ys"
  using assms by (simp add: compute_checksum_def distinct_map sort_key_unique [of xs ys])

subsection \<open>Properties of the registry and the checksum\<close>

text \<open>The registry merge is idempotent; it is commutative when the two entries were last seen at
  different times, and associative when the three addresses are known. A decommissioned entry stays
  decommissioned, and the merged interval of sightings covers both.\<close>

theorem registry_merge_laws:
  assumes "reg_node_id a = reg_node_id b" and "reg_node_id b = reg_node_id c"
    and "reg_addr a \<noteq> []" and "reg_addr b \<noteq> []" and "reg_addr c \<noteq> []"
    and "last_seen_at_unix_ms a \<noteq> last_seen_at_unix_ms b"
  shows "registry_merge a a = Some a \<and>
     registry_merge a b = registry_merge b a \<and>
     Option.bind (registry_merge a b) (\<lambda>ab. registry_merge ab c) =
     Option.bind (registry_merge b c) (\<lambda>bc. registry_merge a bc) \<and>
     (\<exists>m. registry_merge a b = Some m \<and>
        (reg_status m = Decommissioned \<longleftrightarrow> reg_status a = Decommissioned \<or> reg_status b = Decommissioned) \<and>
        first_seen_at_unix_ms m = min (first_seen_at_unix_ms a) (first_seen_at_unix_ms b) \<and>
        last_seen_at_unix_ms m = max (last_seen_at_unix_ms a) (last_seen_at_unix_ms b))"
proof (intro conjI)
  show "registry_merge a a = Some a" by (rule registry_merge_idem)
  show "registry_merge a b = registry_merge b a" by (rule registry_merge_commute) fact
  show "Option.bind (registry_merge a b) (\<lambda>ab. registry_merge ab c) =
        Option.bind (registry_merge b c) (\<lambda>bc. registry_merge a bc)"
    by (rule registry_merge_assoc [of _ "reg_node_id c"]) (use assms in simp_all)
  show "\<exists>m. registry_merge a b = Some m \<and>
        (reg_status m = Decommissioned \<longleftrightarrow> reg_status a = Decommissioned \<or> reg_status b = Decommissioned) \<and>
        first_seen_at_unix_ms m = min (first_seen_at_unix_ms a) (first_seen_at_unix_ms b) \<and>
        last_seen_at_unix_ms m = max (last_seen_at_unix_ms a) (last_seen_at_unix_ms b)"
    using assms by (simp add: registry_merge_def Let_def)
qed

definition sample_entry :: "string \<Rightarrow> u64 \<Rightarrow> node_status \<Rightarrow> node_registry_entry" where
  "sample_entry ad t status = \<lparr>reg_node_id = ''n'', reg_addr = ad, first_seen_at_unix_ms = t,
     last_seen_at_unix_ms = t, reg_status = status\<rparr>"

theorem registry_merge_laws_witness:
  "registry_merge (sample_entry ''p'' 1 Active) (sample_entry ''q'' 2 Decommissioned) =
   registry_merge (sample_entry ''q'' 2 Decommissioned) (sample_entry ''p'' 1 Active)"
  using registry_merge_laws [of "sample_entry ''p'' 1 Active" "sample_entry ''q'' 2 Decommissioned" "sample_entry ''r'' 3 Active"]
  by (simp add: sample_entry_def)

text \<open>The merge is not commutative on a tie of the last sighting, and not associative once an entry
  has no address, although its documentation calls it commutative and associative.\<close>

theorem registry_merge_not_crdt:
  "(\<exists>a b. reg_node_id a = reg_node_id b \<and> registry_merge a b \<noteq> registry_merge b a) \<and>
   (\<exists>a b c. reg_node_id a = reg_node_id b \<and> reg_node_id b = reg_node_id c \<and>
      Option.bind (registry_merge a b) (\<lambda>ab. registry_merge ab c) \<noteq>
      Option.bind (registry_merge b c) (\<lambda>bc. registry_merge a bc))"
proof
  have "registry_merge (sample_entry ''p'' 1 Active) (sample_entry ''q'' 1 Active) \<noteq>
        registry_merge (sample_entry ''q'' 1 Active) (sample_entry ''p'' 1 Active)"
    by (simp add: registry_merge_def latest_non_empty_addr_def sample_entry_def)
  then show "\<exists>a b. reg_node_id a = reg_node_id b \<and> registry_merge a b \<noteq> registry_merge b a"
    by (intro exI [of _ "sample_entry ''p'' 1 Active"] exI [of _ "sample_entry ''q'' 1 Active"])
      (simp add: sample_entry_def)
  let ?a = "sample_entry ''p'' 1 Active" and ?b = "sample_entry [] 3 Active" and ?c = "sample_entry ''r'' 2 Active"
  have "Option.bind (registry_merge ?a ?b) (\<lambda>ab. registry_merge ab ?c) \<noteq>
        Option.bind (registry_merge ?b ?c) (\<lambda>bc. registry_merge ?a bc)"
    by (simp add: registry_merge_def latest_non_empty_addr_def sample_entry_def Let_def)
  then show "\<exists>a b c. reg_node_id a = reg_node_id b \<and> reg_node_id b = reg_node_id c \<and>
      Option.bind (registry_merge a b) (\<lambda>ab. registry_merge ab c) \<noteq>
      Option.bind (registry_merge b c) (\<lambda>bc. registry_merge a bc)"
    by (intro exI [of _ ?a] exI [of _ ?b] exI [of _ ?c]) (simp add: sample_entry_def)
qed

end
