(* ===== verification/Storage.thy ===== *)
theory Storage
  imports Types
begin

section \<open>The storage interface (\<open>libs/storage/src/lib.rs\<close>)\<close>

text \<open>
  The trait \<open>StorageBackend\<close> is a record of operations over a storage state \<open>'s\<close>, the way
  the sources pass it as a type parameter. A fallible call returns an option: \<open>None\<close> is
  \<open>Err\<close> (the callers only log the error value). An operation that writes also returns the
  new storage state, on failure too.
\<close>

datatype insert_result = Inserted | Duplicate | Conflict string

record bucket_allocator_row =
  row_bucket :: string
  row_node_id :: string
  row_current_epoch :: u32
  row_next_seq :: u64
  row_needs_bump :: bool

record events_filter =
  ef_bucket :: "string option"
  ef_bucket_prefix :: "string option"
  ef_account :: "string option"
  ef_origin :: "string option"
  ef_event_type :: "string option"
  ef_since_unix_ms :: "u64 option"
  ef_until_unix_ms :: "u64 option"
  ef_search :: "string option"

record 's backend =
  be_insert_event :: "'s \<Rightarrow> event \<Rightarrow> insert_result option \<times> 's"
  be_insert_events_bulk :: "'s \<Rightarrow> event list \<Rightarrow> usize option \<times> 's"
  be_query_events_range :: "'s \<Rightarrow> string \<Rightarrow> string \<Rightarrow> u32 \<Rightarrow> u64 \<Rightarrow> u64 \<Rightarrow> event list option"
  be_query_events_by_bucket :: "'s \<Rightarrow> string \<Rightarrow> event list option"
  be_query_all_events_sorted :: "'s \<Rightarrow> event list option"
  be_event_count :: "'s \<Rightarrow> usize option"
  be_query_events_filtered :: "'s \<Rightarrow> events_filter \<Rightarrow> u32 \<Rightarrow> u32 \<Rightarrow> (event list \<times> u64) option"
  be_delete_bucket_cascade :: "'s \<Rightarrow> string \<Rightarrow> unit option \<times> 's"
  be_aggregate_balances :: "'s \<Rightarrow> (string \<times> string \<times> i64) list option"
  be_sequences_by_origin_epoch :: "'s \<Rightarrow> (epoch_key, u64 list) fmap option"
  be_origin_account_epoch_mapping :: "'s \<Rightarrow> (string \<times> string \<times> u32 \<times> string) list option"
  be_find_by_idempotency_key :: "'s \<Rightarrow> string \<Rightarrow> string \<Rightarrow> string \<Rightarrow> i64 \<Rightarrow> event list option"
  be_active_holds :: "'s \<Rightarrow> u64 \<Rightarrow> event list option"
  be_released_hold_refs :: "'s \<Rightarrow> string list option"
  be_checksum_data :: "'s \<Rightarrow> string option"
  be_load_node_meta :: "'s \<Rightarrow> string \<Rightarrow> node_meta option option"
  be_save_node_meta :: "'s \<Rightarrow> node_meta \<Rightarrow> unit option \<times> 's"
  be_load_bucket_allocators :: "'s \<Rightarrow> string \<Rightarrow> bucket_allocator_row list option"
  be_mark_bucket_allocators_pending :: "'s \<Rightarrow> string \<Rightarrow> usize option \<times> 's"
  be_bump_bucket_epoch :: "'s \<Rightarrow> string \<Rightarrow> string \<Rightarrow> u32 option \<times> 's"
  be_persist_bucket_next_seq :: "'s \<Rightarrow> string \<Rightarrow> string \<Rightarrow> u64 \<Rightarrow> unit option \<times> 's"
  be_derive_next_seq :: "'s \<Rightarrow> string \<Rightarrow> string \<Rightarrow> u32 \<Rightarrow> u64 option"
  be_upsert_registry_entry :: "'s \<Rightarrow> node_registry_entry \<Rightarrow> unit option \<times> 's"
  be_load_registry :: "'s \<Rightarrow> node_registry_entry list option"
  be_decommission_node :: "'s \<Rightarrow> string \<Rightarrow> unit option \<times> 's"
  be_load_digests :: "'s \<Rightarrow> (epoch_key, u64 \<times> bytes) fmap option"
  be_save_digest :: "'s \<Rightarrow> string \<Rightarrow> string \<Rightarrow> u32 \<Rightarrow> u64 \<Rightarrow> bytes \<Rightarrow> unit option \<times> 's"
  be_refresh_balance_summary :: "'s \<Rightarrow> unit option \<times> 's"
  be_read_balance_summary :: "'s \<Rightarrow> (string \<times> string \<times> i64) list option"

subsection \<open>The contract of the allocator rows\<close>

text \<open>
  What the trait documents about the durable allocator rows, over an invariant \<open>inv\<close> of the
  backend and the table \<open>rows\<close> of its rows by bucket and node. The bump creates a missing row
  in epoch one, advances a flagged row to the next epoch and leaves any other row alone.
\<close>

definition bumped_row :: "string \<Rightarrow> string \<Rightarrow> bucket_allocator_row option \<Rightarrow> bucket_allocator_row" where
  "bumped_row b n r = (case r of
       None \<Rightarrow> \<lparr>row_bucket = b, row_node_id = n, row_current_epoch = 1, row_next_seq = 1, row_needs_bump = False\<rparr>
     | Some r \<Rightarrow> if row_needs_bump r
                then r\<lparr>row_current_epoch := row_current_epoch r + 1, row_next_seq := 1, row_needs_bump := False\<rparr>
                else r)"

locale allocator_rows =
  fixes B :: "'s backend"
    and inv :: "'s \<Rightarrow> bool"
    and rows :: "'s \<Rightarrow> string \<times> string \<Rightarrow> bucket_allocator_row option"
  assumes bump_ok: "inv s \<Longrightarrow> \<exists>s'.
      be_bump_bucket_epoch B s b n = (Some (row_current_epoch (bumped_row b n (rows s (b, n)))), s') \<and> inv s' \<and>
      rows s' = (rows s)((b, n) \<mapsto> bumped_row b n (rows s (b, n)))"
    and load_ok: "inv s \<Longrightarrow> \<exists>l. be_load_bucket_allocators B s n = Some l \<and> distinct (map row_bucket l) \<and>
      (\<forall>b r. r \<in> set l \<and> row_bucket r = b \<longleftrightarrow> rows s (b, n) = Some r)"
    and mark_ok: "inv s \<Longrightarrow> \<exists>c s'. be_mark_bucket_allocators_pending B s n = (Some c, s') \<and> inv s' \<and>
      (\<forall>b. rows s' (b, n) = map_option (row_needs_bump_update (\<lambda>_. True)) (rows s (b, n)))"
    and persist_ok: "inv s \<Longrightarrow> \<exists>s'. be_persist_bucket_next_seq B s b n q = (Some (), s') \<and> inv s' \<and>
      (\<forall>b'. rows s' (b', n) = (if b' = b then map_option (\<lambda>r. r\<lparr>row_next_seq := max (row_next_seq r) q\<rparr>) (rows s (b, n))
                           else rows s (b', n)))"
begin

lemma find_loaded_row:
  assumes "inv s" "be_load_bucket_allocators B s n = Some l"
  shows "find (\<lambda>r. row_bucket r = b) l = rows s (b, n)"
proof (cases "find (\<lambda>r. row_bucket r = b) l")
  case None
  then have "\<nexists>r. r \<in> set l \<and> row_bucket r = b" by (auto simp: find_None_iff)
  with assms load_ok [of s n] None show ?thesis by (metis not_None_eq option.sel)
next
  case (Some r)
  then have "r \<in> set l \<and> row_bucket r = b" by (auto simp: find_Some_iff)
  with assms load_ok [of s n] Some show ?thesis by (metis option.sel)
qed

end

text \<open>
  A store that a node runs on without storage errors: the rows contract, the idempotency
  lookup returns matching events, and no other writer touches the allocator rows, except the
  cascade, which drops the rows of its bucket.
\<close>

locale node_store = allocator_rows B inv rows
  for B :: "'s backend" and inv :: "'s \<Rightarrow> bool"
    and rows :: "'s \<Rightarrow> string \<times> string \<Rightarrow> bucket_allocator_row option" +
  assumes find_ok: "inv s \<Longrightarrow> \<exists>ms. be_find_by_idempotency_key B s nonce b a x = Some ms \<and>
      (\<forall>m\<in>set ms. idempotency_key m = (nonce, b, a, x))"
    and digest_ok: "inv s \<Longrightarrow> inv (snd (be_save_digest B s b n ep h d)) \<and> rows (snd (be_save_digest B s b n ep h d)) = rows s"
    and bulk_ok: "inv s \<Longrightarrow> \<exists>c s'. be_insert_events_bulk B s es = (Some c, s') \<and> inv s' \<and> rows s' = rows s"
    and cascade_ok: "inv s \<Longrightarrow> b \<noteq> META_BUCKET \<Longrightarrow> \<exists>s'. be_delete_bucket_cascade B s b = (Some (), s') \<and> inv s' \<and>
      (\<forall>k. rows s' k = (if fst k = b then None else rows s k))"
    and registry_ok: "inv s \<Longrightarrow> inv (snd (be_upsert_registry_entry B s entry)) \<and>
      rows (snd (be_upsert_registry_entry B s entry)) = rows s"
    and refresh_ok: "inv s \<Longrightarrow> inv (snd (be_refresh_balance_summary B s)) \<and> rows (snd (be_refresh_balance_summary B s)) = rows s"

end
