(* ===== verification/Memory_Storage.thy ===== *)
theory Memory_Storage
  imports Storage
begin

section \<open>The in-memory storage backend (\<open>libs/storage/src/memory.rs\<close>)\<close>

text \<open>
  \<open>InMemoryStorage\<close>: the record \<open>mem_storage\<close> is the struct \<open>Inner\<close> behind its mutex, and
  each method of its \<open>StorageBackend\<close> implementation is one definition. The lock is held for
  the whole of each method, so a method is one atomic step.
\<close>

record mem_storage =
  ms_events :: "(origin_key, event) fmap"
  ms_event_ids :: "(string, origin_key) fmap"
  ms_node_meta :: "(string, node_meta) fmap"
  ms_registry :: "(string, node_registry_entry) fmap"
  ms_digests :: "(epoch_key, u64 \<times> bytes) fmap"
  ms_bucket_allocators :: "(string \<times> string, bucket_allocator_row) fmap"

definition mem_new :: mem_storage where
  "mem_new = \<lparr>ms_events = fmempty, ms_event_ids = fmempty, ms_node_meta = fmempty,
     ms_registry = fmempty, ms_digests = fmempty, ms_bucket_allocators = fmempty\<rparr>"

subsection \<open>Events\<close>

definition mem_insert_event :: "mem_storage \<Rightarrow> event \<Rightarrow> insert_result \<times> mem_storage" where
  "mem_insert_event s e =
     (let key = origin_key e in
      if (case fmlookup (ms_event_ids s) (event_id e) of Some k \<Rightarrow> k \<noteq> key | None \<Rightarrow> False)
      then (Conflict (''event_id '' @ event_id e @ '' PK collision''), s)
      else case fmlookup (ms_events s) key of
        Some existing \<Rightarrow>
          (if event_id existing = event_id e then (Duplicate, s)
           else (Conflict (''('' @ bucket e @ '', '' @ origin_node_id e @ '', '' @
                   show_u32 (origin_epoch e) @ '', '' @ show_u64 (origin_seq e) @
                   '') has event_id '' @ event_id existing @ '' but received '' @ event_id e), s))
      | None \<Rightarrow>
          (Inserted, s\<lparr>ms_events := fmupd key e (ms_events s),
             ms_event_ids := fmupd (event_id e) key (ms_event_ids s)\<rparr>))"

fun mem_insert_events_bulk :: "mem_storage \<Rightarrow> event list \<Rightarrow> usize \<times> mem_storage" where
  "mem_insert_events_bulk s [] = (0, s)"
| "mem_insert_events_bulk s (e # es) =
     (case mem_insert_event s e of (r, s') \<Rightarrow>
      case mem_insert_events_bulk s' es of (n, s'') \<Rightarrow>
        (if r = Inserted then n + 1 else n, s''))"

text \<open>\<open>BTreeMap::range\<close> panics when the start is after the end: \<open>None\<close>.\<close>

definition mem_query_events_range ::
  "mem_storage \<Rightarrow> string \<Rightarrow> string \<Rightarrow> u32 \<Rightarrow> u64 \<Rightarrow> u64 \<Rightarrow> event list option" where
  "mem_query_events_range s b origin ep from_seq to_seq =
     (if to_seq < from_seq then None
      else Some (map snd (filter (\<lambda>(k, _). (b, origin, ep, from_seq) \<le> k \<and> k \<le> (b, origin, ep, to_seq))
             (fm_entries (ms_events s)))))"

definition mem_query_events_by_bucket :: "mem_storage \<Rightarrow> string \<Rightarrow> event list" where
  "mem_query_events_by_bucket s b =
     sort_key (\<lambda>e. (origin_node_id e, origin_epoch e, origin_seq e))
       (map snd (filter (\<lambda>(k, _). fst k = b) (fm_entries (ms_events s))))"

definition mem_remove_event :: "origin_key \<Rightarrow> mem_storage \<Rightarrow> mem_storage" where
  "mem_remove_event key s =
     (case fmlookup (ms_events s) key of
        Some e \<Rightarrow> s\<lparr>ms_events := fmdrop key (ms_events s),
                    ms_event_ids := fmdrop (event_id e) (ms_event_ids s)\<rparr>
      | None \<Rightarrow> s)"

definition mem_delete_bucket_cascade :: "mem_storage \<Rightarrow> string \<Rightarrow> unit option \<times> mem_storage" where
  "mem_delete_bucket_cascade s b =
     (if b = META_BUCKET then (None, s)
      else
        let doomed_keys = filter (\<lambda>k. fst k = b) (fm_keys (ms_events s));
            s' = fold mem_remove_event doomed_keys s
        in (Some (), s'\<lparr>ms_digests := fmfilter (\<lambda>k. fst k \<noteq> b) (ms_digests s'),
              ms_bucket_allocators := fmfilter (\<lambda>k. fst k \<noteq> b) (ms_bucket_allocators s')\<rparr>))"

definition mem_query_all_events_sorted :: "mem_storage \<Rightarrow> event list" where
  "mem_query_all_events_sorted s =
     sort_key (\<lambda>e. (created_at_unix_ms e, origin_key e)) (fm_values (ms_events s))"

definition mem_event_count :: "mem_storage \<Rightarrow> usize" where
  "mem_event_count s = fm_len (ms_events s)"

definition opt_ok :: "'a option \<Rightarrow> ('a \<Rightarrow> bool) \<Rightarrow> bool" where
  "opt_ok x P = (case x of None \<Rightarrow> True | Some v \<Rightarrow> P v)"

definition filter_matches :: "events_filter \<Rightarrow> event \<Rightarrow> bool" where
  "filter_matches f e \<longleftrightarrow>
     opt_ok (ef_bucket f) (\<lambda>b. bucket e = b) \<and>
     opt_ok (ef_bucket_prefix f) (\<lambda>p. prefix p (bucket e)) \<and>
     opt_ok (ef_account f) (\<lambda>a. account e = a) \<and>
     opt_ok (ef_origin f) (\<lambda>n. origin_node_id e = n) \<and>
     opt_ok (ef_event_type f) (\<lambda>t. show_event_type (etype e) = t) \<and>
     opt_ok (ef_since_unix_ms f) (\<lambda>t. \<not> created_at_unix_ms e < t) \<and>
     opt_ok (ef_until_unix_ms f) (\<lambda>t. \<not> created_at_unix_ms e > t) \<and>
     opt_ok (ef_search f) (\<lambda>q.
       let needle = to_ascii_lowercase q;
           note_hit = (case event_note e of Some n \<Rightarrow> sublist needle (to_ascii_lowercase n) | None \<Rightarrow> False);
           id_hit = sublist needle (to_ascii_lowercase (event_id e))
       in note_hit \<or> id_hit)"

text \<open>Newest first: the stable sort by the reversed comparison.\<close>

definition newest_first :: "event list \<Rightarrow> event list" where
  "newest_first es = rev (sort_key (\<lambda>e. (created_at_unix_ms e, event_id e)) (rev es))"

definition mem_query_events_filtered ::
  "mem_storage \<Rightarrow> events_filter \<Rightarrow> u32 \<Rightarrow> u32 \<Rightarrow> event list \<times> u64" where
  "mem_query_events_filtered s f limit offset =
     (let matches = newest_first (filter (filter_matches f) (fm_values (ms_events s)))
      in (take (unat limit) (drop (unat offset) matches), word_of_nat (length matches)))"

subsection \<open>Aggregates for the rebuild\<close>

definition add_to :: "'k \<Rightarrow> i64 \<Rightarrow> ('k, i64) fmap \<Rightarrow> ('k, i64) fmap" where
  "add_to k x m = fmupd k (fm_get_or m k 0 + x) m"

definition mem_aggregate_balances :: "mem_storage \<Rightarrow> (string \<times> string \<times> i64) list" where
  "mem_aggregate_balances s =
     map (\<lambda>((b, a), total). (b, a, total))
       (fm_entries (fold (\<lambda>e m. add_to (balance_key e) (amount e) m) (fm_values (ms_events s)) fmempty))"

definition push_to :: "'k \<Rightarrow> 'v \<Rightarrow> ('k, 'v list) fmap \<Rightarrow> ('k, 'v list) fmap" where
  "push_to k x m = fmupd k (fm_get_or m k [] @ [x]) m"

definition mem_sequences_by_origin_epoch :: "mem_storage \<Rightarrow> (epoch_key, u64 list) fmap" where
  "mem_sequences_by_origin_epoch s =
     fold (\<lambda>k m. push_to (epoch_of_origin_key k) (seq_of_origin_key k) m) (fm_keys (ms_events s)) fmempty"

definition mem_origin_account_epoch_mapping ::
  "mem_storage \<Rightarrow> (string \<times> string \<times> u32 \<times> string) list" where
  "mem_origin_account_epoch_mapping s =
     sorted_list_of_fset (fset_of_list
       (map (\<lambda>e. (bucket e, origin_node_id e, origin_epoch e, account e)) (fm_values (ms_events s))))"

definition mem_find_by_idempotency_key ::
  "mem_storage \<Rightarrow> string \<Rightarrow> string \<Rightarrow> string \<Rightarrow> i64 \<Rightarrow> event list" where
  "mem_find_by_idempotency_key s nonce b a amt =
     filter (\<lambda>e. idempotency_nonce e = nonce \<and> bucket e = b \<and> account e = a \<and> amount e = amt)
       (fm_values (ms_events s))"

definition mem_active_holds :: "mem_storage \<Rightarrow> u64 \<Rightarrow> event list" where
  "mem_active_holds s now =
     filter (\<lambda>e. etype e = Standard \<and> amount e <s 0 \<and> hold_amount e > 0 \<and>
               hold_expires_at_unix_ms e > now) (fm_values (ms_events s))"

definition mem_released_hold_refs :: "mem_storage \<Rightarrow> string list" where
  "mem_released_hold_refs s =
     List.map_filter (\<lambda>e. if etype e = HoldRelease then void_ref e else None) (fm_values (ms_events s))"

definition mem_checksum_data :: "(bytes \<Rightarrow> bytes) \<Rightarrow> mem_storage \<Rightarrow> string" where
  "mem_checksum_data sha s = hex (sha (join_lines (map canonical (fm_values (ms_events s)))))"

subsection \<open>Node metadata, allocator rows, registry, digests\<close>

definition mem_load_node_meta :: "mem_storage \<Rightarrow> string \<Rightarrow> node_meta option" where
  "mem_load_node_meta s n = fmlookup (ms_node_meta s) n"

definition mem_save_node_meta :: "mem_storage \<Rightarrow> node_meta \<Rightarrow> mem_storage" where
  "mem_save_node_meta s m = s\<lparr>ms_node_meta := fmupd (meta_node_id m) m (ms_node_meta s)\<rparr>"

definition mem_load_bucket_allocators :: "mem_storage \<Rightarrow> string \<Rightarrow> bucket_allocator_row list" where
  "mem_load_bucket_allocators s n =
     filter (\<lambda>r. row_node_id r = n) (fm_values (ms_bucket_allocators s))"

definition mem_mark_bucket_allocators_pending :: "mem_storage \<Rightarrow> string \<Rightarrow> usize \<times> mem_storage" where
  "mem_mark_bucket_allocators_pending s n =
     (word_of_nat (length (filter (\<lambda>r. row_node_id r = n) (fm_values (ms_bucket_allocators s)))),
      s\<lparr>ms_bucket_allocators :=
          fmmap (\<lambda>r. if row_node_id r = n then r\<lparr>row_needs_bump := True\<rparr> else r) (ms_bucket_allocators s)\<rparr>)"

definition mem_bump_bucket_epoch :: "mem_storage \<Rightarrow> string \<Rightarrow> string \<Rightarrow> u32 \<times> mem_storage" where
  "mem_bump_bucket_epoch s b n =
     (case fmlookup (ms_bucket_allocators s) (b, n) of
        Some r \<Rightarrow>
          if row_needs_bump r then
            (let r' = r\<lparr>row_current_epoch := row_current_epoch r + 1, row_next_seq := 1, row_needs_bump := False\<rparr>
             in (row_current_epoch r', s\<lparr>ms_bucket_allocators := fmupd (b, n) r' (ms_bucket_allocators s)\<rparr>))
          else (row_current_epoch r, s)
      | None \<Rightarrow>
          (1, s\<lparr>ms_bucket_allocators := fmupd (b, n)
                 \<lparr>row_bucket = b, row_node_id = n, row_current_epoch = 1, row_next_seq = 1, row_needs_bump = False\<rparr>
                 (ms_bucket_allocators s)\<rparr>))"

definition mem_persist_bucket_next_seq ::
  "mem_storage \<Rightarrow> string \<Rightarrow> string \<Rightarrow> u64 \<Rightarrow> mem_storage" where
  "mem_persist_bucket_next_seq s b n q =
     (case fmlookup (ms_bucket_allocators s) (b, n) of
        Some r \<Rightarrow> (if q > row_next_seq r
                   then s\<lparr>ms_bucket_allocators := fmupd (b, n) (r\<lparr>row_next_seq := q\<rparr>) (ms_bucket_allocators s)\<rparr>
                   else s)
      | None \<Rightarrow> s)"

definition mem_derive_next_seq :: "mem_storage \<Rightarrow> string \<Rightarrow> string \<Rightarrow> u32 \<Rightarrow> u64" where
  "mem_derive_next_seq s b n ep =
     (case rev (filter (\<lambda>k. (b, n, ep, 0) \<le> k \<and> k \<le> (b, n, ep, - 1)) (fm_keys (ms_events s))) of
        (_, _, _, q) # _ \<Rightarrow> q
      | [] \<Rightarrow> 0) + 1"

definition mem_upsert_registry_entry :: "mem_storage \<Rightarrow> node_registry_entry \<Rightarrow> unit option \<times> mem_storage" where
  "mem_upsert_registry_entry s entry =
     (case (case fmlookup (ms_registry s) (reg_node_id entry) of
              Some e \<Rightarrow> registry_merge e entry
            | None \<Rightarrow> Some entry) of
        Some merged \<Rightarrow> (Some (), s\<lparr>ms_registry := fmupd (reg_node_id entry) merged (ms_registry s)\<rparr>)
      | None \<Rightarrow> (None, s))"

definition mem_load_registry :: "mem_storage \<Rightarrow> node_registry_entry list" where
  "mem_load_registry s = fm_values (ms_registry s)"

definition mem_decommission_node :: "mem_storage \<Rightarrow> string \<Rightarrow> mem_storage" where
  "mem_decommission_node s n =
     (case fmlookup (ms_registry s) n of
        Some e \<Rightarrow> s\<lparr>ms_registry := fmupd n (e\<lparr>reg_status := Decommissioned\<rparr>) (ms_registry s)\<rparr>
      | None \<Rightarrow> s)"

definition mem_load_digests :: "mem_storage \<Rightarrow> (epoch_key, u64 \<times> bytes) fmap" where
  "mem_load_digests s = ms_digests s"

definition mem_save_digest ::
  "mem_storage \<Rightarrow> string \<Rightarrow> string \<Rightarrow> u32 \<Rightarrow> u64 \<Rightarrow> bytes \<Rightarrow> mem_storage" where
  "mem_save_digest s b n ep head digest = s\<lparr>ms_digests := fmupd (b, n, ep) (head, digest) (ms_digests s)\<rparr>"

text \<open>The dictionary of the implementation.\<close>

definition mem_backend :: "(bytes \<Rightarrow> bytes) \<Rightarrow> mem_storage backend" where
  "mem_backend sha = \<lparr>
     be_insert_event = (\<lambda>s e. case mem_insert_event s e of (r, s') \<Rightarrow> (Some r, s')),
     be_insert_events_bulk = (\<lambda>s es. case mem_insert_events_bulk s es of (n, s') \<Rightarrow> (Some n, s')),
     be_query_events_range = mem_query_events_range,
     be_query_events_by_bucket = (\<lambda>s b. Some (mem_query_events_by_bucket s b)),
     be_query_all_events_sorted = (\<lambda>s. Some (mem_query_all_events_sorted s)),
     be_event_count = (\<lambda>s. Some (mem_event_count s)),
     be_query_events_filtered = (\<lambda>s f l off. Some (mem_query_events_filtered s f l off)),
     be_delete_bucket_cascade = mem_delete_bucket_cascade,
     be_aggregate_balances = (\<lambda>s. Some (mem_aggregate_balances s)),
     be_sequences_by_origin_epoch = (\<lambda>s. Some (mem_sequences_by_origin_epoch s)),
     be_origin_account_epoch_mapping = (\<lambda>s. Some (mem_origin_account_epoch_mapping s)),
     be_find_by_idempotency_key = (\<lambda>s n b a amt. Some (mem_find_by_idempotency_key s n b a amt)),
     be_active_holds = (\<lambda>s now. Some (mem_active_holds s now)),
     be_released_hold_refs = (\<lambda>s. Some (mem_released_hold_refs s)),
     be_checksum_data = (\<lambda>s. Some (mem_checksum_data sha s)),
     be_load_node_meta = (\<lambda>s n. Some (mem_load_node_meta s n)),
     be_save_node_meta = (\<lambda>s m. (Some (), mem_save_node_meta s m)),
     be_load_bucket_allocators = (\<lambda>s n. Some (mem_load_bucket_allocators s n)),
     be_mark_bucket_allocators_pending =
       (\<lambda>s n. case mem_mark_bucket_allocators_pending s n of (c, s') \<Rightarrow> (Some c, s')),
     be_bump_bucket_epoch = (\<lambda>s b n. case mem_bump_bucket_epoch s b n of (ep, s') \<Rightarrow> (Some ep, s')),
     be_persist_bucket_next_seq = (\<lambda>s b n q. (Some (), mem_persist_bucket_next_seq s b n q)),
     be_derive_next_seq = (\<lambda>s b n ep. Some (mem_derive_next_seq s b n ep)),
     be_upsert_registry_entry = mem_upsert_registry_entry,
     be_load_registry = (\<lambda>s. Some (mem_load_registry s)),
     be_decommission_node = (\<lambda>s n. (Some (), mem_decommission_node s n)),
     be_load_digests = (\<lambda>s. Some (mem_load_digests s)),
     be_save_digest = (\<lambda>s b n ep h d. (Some (), mem_save_digest s b n ep h d)),
     be_refresh_balance_summary = (\<lambda>s. (Some (), s)),
     be_read_balance_summary = (\<lambda>s. Some (mem_aggregate_balances s))\<rparr>"

section \<open>Properties of the in-memory storage\<close>

subsection \<open>The representation invariant\<close>

text \<open>
  The two event indexes agree, an allocator row sits under its own key, and so does a
  registry entry.
\<close>

definition mem_index_ok :: "mem_storage \<Rightarrow> bool" where
  "mem_index_ok s \<longleftrightarrow>
     (\<forall>k e. fmlookup (ms_events s) k = Some e \<longrightarrow>
        origin_key e = k \<and> fmlookup (ms_event_ids s) (event_id e) = Some k) \<and>
     (\<forall>i k. fmlookup (ms_event_ids s) i = Some k \<longrightarrow>
        (\<exists>e. fmlookup (ms_events s) k = Some e \<and> event_id e = i))"

definition mem_rows_ok :: "mem_storage \<Rightarrow> bool" where
  "mem_rows_ok s \<longleftrightarrow>
     (\<forall>b n r. fmlookup (ms_bucket_allocators s) (b, n) = Some r \<longrightarrow> row_bucket r = b \<and> row_node_id r = n)"

definition mem_registry_ok :: "mem_storage \<Rightarrow> bool" where
  "mem_registry_ok s \<longleftrightarrow> (\<forall>n e. fmlookup (ms_registry s) n = Some e \<longrightarrow> reg_node_id e = n)"

definition mem_inv :: "mem_storage \<Rightarrow> bool" where
  "mem_inv s \<longleftrightarrow> mem_index_ok s \<and> mem_rows_ok s \<and> mem_registry_ok s"

lemma mem_inv_new: "mem_inv mem_new"
  by (simp add: mem_inv_def mem_index_ok_def mem_rows_ok_def mem_registry_ok_def mem_new_def)

lemma mem_index_okI:
  assumes "\<And>k e. fmlookup (ms_events s) k = Some e \<Longrightarrow> origin_key e = k"
    and "\<And>k e. fmlookup (ms_events s) k = Some e \<Longrightarrow> fmlookup (ms_event_ids s) (event_id e) = Some k"
    and "\<And>i k. fmlookup (ms_event_ids s) i = Some k \<Longrightarrow> \<exists>e. fmlookup (ms_events s) k = Some e \<and> event_id e = i"
  shows "mem_index_ok s"
  unfolding mem_index_ok_def using assms by blast

lemma mem_index_okD:
  assumes "mem_index_ok s"
  shows mem_index_key: "fmlookup (ms_events s) k = Some e \<Longrightarrow> origin_key e = k"
    and mem_index_id: "fmlookup (ms_events s) k = Some e \<Longrightarrow> fmlookup (ms_event_ids s) (event_id e) = Some k"
    and mem_index_event: "fmlookup (ms_event_ids s) i = Some k \<Longrightarrow> \<exists>e. fmlookup (ms_events s) k = Some e \<and> event_id e = i"
  using assms unfolding mem_index_ok_def by blast+

lemma mem_insert_event_cases:
  assumes "mem_insert_event s e = (r, s')"
  obtains (inserted) "r = Inserted" "fmlookup (ms_events s) (origin_key e) = None"
      "fmlookup (ms_event_ids s) (event_id e) \<in> {None, Some (origin_key e)}"
      "s' = s\<lparr>ms_events := fmupd (origin_key e) e (ms_events s),
              ms_event_ids := fmupd (event_id e) (origin_key e) (ms_event_ids s)\<rparr>"
    | (duplicate) x where "r = Duplicate" "s' = s" "fmlookup (ms_events s) (origin_key e) = Some x"
      "event_id x = event_id e"
    | (conflict) m where "r = Conflict m" "s' = s"
proof (cases "case fmlookup (ms_event_ids s) (event_id e) of Some k \<Rightarrow> k \<noteq> origin_key e | None \<Rightarrow> False")
  case True
  with assms conflict show thesis by (auto simp: mem_insert_event_def)
next
  case False
  then have ids: "fmlookup (ms_event_ids s) (event_id e) \<in> {None, Some (origin_key e)}"
    by (auto split: option.splits)
  show thesis
  proof (cases "fmlookup (ms_events s) (origin_key e)")
    case None
    with False assms ids show thesis by (intro inserted) (simp_all add: mem_insert_event_def Let_def)
  next
    case (Some x)
    show thesis
    proof (cases "event_id x = event_id e")
      case True
      with False assms Some show thesis by (intro duplicate [of x]) (simp_all add: mem_insert_event_def)
    next
      case ne: False
      with False assms Some conflict show thesis by (auto simp: mem_insert_event_def Let_def)
    qed
  qed
qed

lemma mem_insert_event_index_ok:
  assumes ok: "mem_index_ok s" and ins: "mem_insert_event s e = (r, s')"
  shows "mem_index_ok s'"
  using ins
proof (cases rule: mem_insert_event_cases)
  case inserted
  have fresh: "fmlookup (ms_event_ids s) (event_id e) = None"
    using inserted mem_index_event [OF ok, of "event_id e" "origin_key e"] by auto
  show ?thesis
  proof (rule mem_index_okI)
    fix k x assume "fmlookup (ms_events s') k = Some x"
    then show "origin_key x = k" and "fmlookup (ms_event_ids s') (event_id x) = Some k"
      using inserted fresh mem_index_key [OF ok, of k x] mem_index_id [OF ok, of k x]
      by (auto split: if_splits)
  next
    fix i k assume "fmlookup (ms_event_ids s') i = Some k"
    then show "\<exists>x. fmlookup (ms_events s') k = Some x \<and> event_id x = i"
      using inserted fresh mem_index_event [OF ok, of i k]
      by (auto split: if_splits)
  qed
qed (use ok in auto)

lemma mem_insert_event_frame:
  "mem_insert_event s e = (r, s') \<Longrightarrow>
     ms_node_meta s' = ms_node_meta s \<and> ms_registry s' = ms_registry s \<and> ms_digests s' = ms_digests s \<and>
     ms_bucket_allocators s' = ms_bucket_allocators s"
  by (erule mem_insert_event_cases) simp_all

lemma mem_insert_event_inv: "mem_inv s \<Longrightarrow> mem_insert_event s e = (r, s') \<Longrightarrow> mem_inv s'"
  using mem_insert_event_index_ok [of s e r s'] mem_insert_event_frame [of s e r s']
  by (simp add: mem_inv_def mem_rows_ok_def mem_registry_ok_def)

text \<open>The log only grows: an insert never replaces a stored event.\<close>

lemma mem_insert_event_append_only:
  "mem_insert_event s e = (r, s') \<Longrightarrow> fmlookup (ms_events s) k = Some x \<Longrightarrow> fmlookup (ms_events s') k = Some x"
  by (erule mem_insert_event_cases) auto

lemma mem_insert_events_bulk_inv:
  "mem_inv s \<Longrightarrow> mem_insert_events_bulk s es = (n, s') \<Longrightarrow> mem_inv s'"
proof (induction es arbitrary: s n)
  case Nil
  then show ?case by simp
next
  case (Cons e es)
  then show ?case
    by (auto split: prod.splits dest: mem_insert_event_inv)
qed

lemma mem_insert_events_bulk_append_only:
  "mem_insert_events_bulk s es = (n, s') \<Longrightarrow> fmlookup (ms_events s) k = Some x \<Longrightarrow>
     fmlookup (ms_events s') k = Some x"
proof (induction es arbitrary: s n)
  case Nil
  then show ?case by simp
next
  case (Cons e es)
  then show ?case
    by (auto split: prod.splits dest: mem_insert_event_append_only)
qed

text \<open>The cascade removes exactly the rows of one bucket.\<close>

lemma mem_index_ok_drop:
  assumes ok: "mem_index_ok s" and e: "fmlookup (ms_events s) k = Some e"
  shows "mem_index_ok (s\<lparr>ms_events := fmdrop k (ms_events s), ms_event_ids := fmdrop (event_id e) (ms_event_ids s)\<rparr>)"
    (is "mem_index_ok ?s")
proof (rule mem_index_okI)
  fix j x assume x: "fmlookup (ms_events ?s) j = Some x"
  then have jk: "j \<noteq> k" and x': "fmlookup (ms_events s) j = Some x" by (auto split: if_splits)
  show "origin_key x = j" using mem_index_key [OF ok x'] .
  have "event_id x \<noteq> event_id e"
    using mem_index_id [OF ok x'] mem_index_id [OF ok e] jk by auto
  then show "fmlookup (ms_event_ids ?s) (event_id x) = Some j"
    using mem_index_id [OF ok x'] by simp
next
  fix i j assume i: "fmlookup (ms_event_ids ?s) i = Some j"
  then have ie: "i \<noteq> event_id e" and i': "fmlookup (ms_event_ids s) i = Some j" by (auto split: if_splits)
  from mem_index_event [OF ok i'] obtain x where x: "fmlookup (ms_events s) j = Some x" "event_id x = i"
    by blast
  with e ie have "j \<noteq> k" by auto
  with x show "\<exists>x. fmlookup (ms_events ?s) j = Some x \<and> event_id x = i" by auto
qed

lemma mem_remove_event_frame:
  "ms_bucket_allocators (fold mem_remove_event ks s) = ms_bucket_allocators s \<and>
   ms_digests (fold mem_remove_event ks s) = ms_digests s \<and>
   ms_registry (fold mem_remove_event ks s) = ms_registry s \<and>
   ms_node_meta (fold mem_remove_event ks s) = ms_node_meta s"
  by (induction ks arbitrary: s) (auto simp: mem_remove_event_def split: option.splits)

lemma mem_cascade_fold:
  assumes "mem_index_ok s" and "set ks \<subseteq> fmdom' (ms_events s)" and "distinct ks"
  shows "ms_events (fold mem_remove_event ks s) = fmdrop_set (set ks) (ms_events s) \<and>
         mem_index_ok (fold mem_remove_event ks s)"
  using assms
proof (induction ks arbitrary: s)
  case Nil
  then show ?case by simp
next
  case (Cons k ks)
  obtain e where e: "fmlookup (ms_events s) k = Some e"
    using Cons.prems(2) by (auto simp: fmlookup_dom'_iff)
  let ?s = "s\<lparr>ms_events := fmdrop k (ms_events s), ms_event_ids := fmdrop (event_id e) (ms_event_ids s)\<rparr>"
  have fk: "mem_remove_event k s = ?s" by (simp add: mem_remove_event_def e)
  have ok: "mem_index_ok ?s" by (rule mem_index_ok_drop [OF Cons.prems(1) e])
  have sub: "set ks \<subseteq> fmdom' (ms_events ?s)" using Cons.prems(2,3) by auto
  have dis: "distinct ks" using Cons.prems(3) by simp
  have "fmdrop_set (set ks) (fmdrop k (ms_events s)) = fmdrop_set (insert k (set ks)) (ms_events s)"
    by (rule fmap_ext) auto
  with Cons.IH [OF ok sub dis] show ?case by (simp add: fk)
qed

lemma mem_delete_bucket_cascade_spec:
  assumes inv: "mem_inv s" and nm: "b \<noteq> META_BUCKET"
    and del: "mem_delete_bucket_cascade s b = (r, s')"
  shows "r = Some ()"
    and "ms_events s' = fmfilter (\<lambda>k. fst k \<noteq> b) (ms_events s)"
    and "ms_digests s' = fmfilter (\<lambda>k. fst k \<noteq> b) (ms_digests s)"
    and "ms_bucket_allocators s' = fmfilter (\<lambda>k. fst k \<noteq> b) (ms_bucket_allocators s)"
    and "ms_registry s' = ms_registry s" and "ms_node_meta s' = ms_node_meta s"
    and "mem_inv s'"
proof -
  let ?ks = "filter (\<lambda>k. fst k = b) (fm_keys (ms_events s))"
  define t where "t = fold mem_remove_event ?ks s"
  have pre: "mem_index_ok s" "set ?ks \<subseteq> fmdom' (ms_events s)" "distinct ?ks"
    using inv by (auto simp: mem_inv_def)
  note t = conjunct1 [OF mem_cascade_fold [OF pre, folded t_def]] conjunct2 [OF mem_cascade_fold [OF pre, folded t_def]]
    mem_remove_event_frame [of ?ks s, folded t_def]
  have drop: "fmdrop_set (set ?ks) (ms_events s) = fmfilter (\<lambda>k. fst k \<noteq> b) (ms_events s)"
    by (rule fmap_ext) (auto simp: fmlookup_dom'_iff)
  have res: "r = Some ()" "s' = t\<lparr>ms_digests := fmfilter (\<lambda>k. fst k \<noteq> b) (ms_digests t),
      ms_bucket_allocators := fmfilter (\<lambda>k. fst k \<noteq> b) (ms_bucket_allocators t)\<rparr>"
    using del nm unfolding mem_delete_bucket_cascade_def Let_def t_def by auto
  show "r = Some ()" by fact
  show "ms_events s' = fmfilter (\<lambda>k. fst k \<noteq> b) (ms_events s)"
    using t(1) by (simp only: res drop) simp
  show "ms_digests s' = fmfilter (\<lambda>k. fst k \<noteq> b) (ms_digests s)"
    and "ms_bucket_allocators s' = fmfilter (\<lambda>k. fst k \<noteq> b) (ms_bucket_allocators s)"
    and "ms_registry s' = ms_registry s" and "ms_node_meta s' = ms_node_meta s"
    unfolding res(2) conjunct1 [OF conjunct2 [OF t(3)], symmetric] conjunct1 [OF t(3), symmetric]
    using t(3) by simp_all
  show "mem_inv s'"
    using t inv by (simp add: res mem_inv_def mem_index_ok_def mem_rows_ok_def mem_registry_ok_def)
qed

lemma mem_delete_bucket_cascade_inv: "mem_inv s \<Longrightarrow> mem_delete_bucket_cascade s b = (r, s') \<Longrightarrow> mem_inv s'"
  by (cases "b = META_BUCKET")
    (auto simp: mem_delete_bucket_cascade_spec(7) mem_delete_bucket_cascade_def)

text \<open>The other writers.\<close>

lemma mem_writers_inv:
  assumes "mem_inv s"
  shows "mem_inv (mem_save_node_meta s m)"
    and "mem_inv (snd (mem_mark_bucket_allocators_pending s n))"
    and "mem_inv (snd (mem_bump_bucket_epoch s b n))"
    and "mem_inv (mem_persist_bucket_next_seq s b n q)"
    and "mem_inv (snd (mem_upsert_registry_entry s entry))"
    and "mem_inv (mem_decommission_node s n)"
    and "mem_inv (mem_save_digest s b n ep h d)"
proof -
  show "mem_inv (mem_save_node_meta s m)" "mem_inv (mem_save_digest s b n ep h d)"
    using assms by (simp_all add: mem_inv_def mem_index_ok_def mem_rows_ok_def mem_registry_ok_def
        mem_save_node_meta_def mem_save_digest_def)
  show "mem_inv (snd (mem_mark_bucket_allocators_pending s n))"
    using assms by (auto simp: mem_inv_def mem_index_ok_def mem_rows_ok_def mem_registry_ok_def
        mem_mark_bucket_allocators_pending_def)
  show "mem_inv (snd (mem_bump_bucket_epoch s b n))"
    using assms by (auto simp: mem_inv_def mem_index_ok_def mem_rows_ok_def mem_registry_ok_def
        mem_bump_bucket_epoch_def Let_def split: option.splits)
  show "mem_inv (mem_persist_bucket_next_seq s b n q)"
    using assms by (auto simp: mem_inv_def mem_index_ok_def mem_rows_ok_def mem_registry_ok_def
        mem_persist_bucket_next_seq_def split: option.splits)
  show "mem_inv (mem_decommission_node s n)"
    using assms by (auto simp: mem_inv_def mem_index_ok_def mem_rows_ok_def mem_registry_ok_def
        mem_decommission_node_def split: option.splits)
  show "mem_inv (snd (mem_upsert_registry_entry s entry))"
    using assms by (auto simp: mem_inv_def mem_index_ok_def mem_rows_ok_def mem_registry_ok_def
        mem_upsert_registry_entry_def dest: registry_merge_Some split: option.splits)
qed

text \<open>The registry upsert never hits the failed assertion of the merge.\<close>

lemma mem_upsert_registry_ok: "mem_inv s \<Longrightarrow> fst (mem_upsert_registry_entry s entry) = Some ()"
  by (auto simp: mem_inv_def mem_registry_ok_def mem_upsert_registry_entry_def registry_merge_def Let_def
      split: option.splits)

subsection \<open>Aggregates\<close>

lemma lookup_fold_add_to:
  "fm_get_or (fold (\<lambda>e m. add_to (f e) (g e) m) es m) k 0 =
     fm_get_or m k 0 + sum_list (map g (filter (\<lambda>e. f e = k) es))"
  by (induction es arbitrary: m) (auto simp: add_to_def algebra_simps)

lemma dom_fold_add_to:
  "fmdom' (fold (\<lambda>e m. add_to (f e) (g e) m) es m) = fmdom' m \<union> f ` set es"
  by (induction es arbitrary: m) (auto simp: add_to_def)

text \<open>\<open>aggregate_balances\<close> lists every account of the log once, with the sum of its amounts.\<close>

lemma mem_aggregate_balances_spec:
  "(b, a, tot) \<in> set (mem_aggregate_balances s) \<longleftrightarrow>
     (\<exists>e. (\<exists>k. fmlookup (ms_events s) k = Some e) \<and> balance_key e = (b, a)) \<and>
     tot = sum_list (map amount (filter (\<lambda>e. balance_key e = (b, a)) (fm_values (ms_events s))))"
proof -
  let ?m = "fold (\<lambda>e m. add_to (balance_key e) (amount e) m) (fm_values (ms_events s)) fmempty"
  have "(b, a, tot) \<in> set (mem_aggregate_balances s) \<longleftrightarrow> fmlookup ?m (b, a) = Some tot"
    by (force simp: mem_aggregate_balances_def simp flip: in_fm_entries)
  also have "\<dots> \<longleftrightarrow> (b, a) \<in> fmdom' ?m \<and> tot = fm_get_or ?m (b, a) 0"
    by (auto simp: fmlookup_dom'_iff fm_get_or_def)
  also have "fm_get_or ?m (b, a) 0 =
      sum_list (map amount (filter (\<lambda>e. balance_key e = (b, a)) (fm_values (ms_events s))))"
    by (simp add: lookup_fold_add_to)
  also have "(b, a) \<in> fmdom' ?m \<longleftrightarrow> (\<exists>e\<in>set (fm_values (ms_events s)). balance_key e = (b, a))"
    by (force simp: dom_fold_add_to simp del: in_fm_values)
  finally show ?thesis by (simp only: Bex_def in_fm_values)
qed

lemma lookup_fold_push_to:
  "fm_get_or (fold (\<lambda>k m. push_to (f k) (g k) m) ks m) c [] =
     fm_get_or m c [] @ map g (filter (\<lambda>k. f k = c) ks)"
  by (induction ks arbitrary: m) (auto simp: push_to_def)

lemma dom_fold_push_to:
  "fmdom' (fold (\<lambda>k m. push_to (f k) (g k) m) ks m) = fmdom' m \<union> f ` set ks"
  by (induction ks arbitrary: m) (auto simp: push_to_def)

text \<open>\<open>sequences_by_origin_epoch\<close> lists the sequence numbers of each chain in ascending order.\<close>

lemma origin_key_order:
  "epoch_of_origin_key j = epoch_of_origin_key k \<Longrightarrow> j \<le> k \<longleftrightarrow> seq_of_origin_key j \<le> seq_of_origin_key k"
  by (cases j; cases k) (auto simp: epoch_of_origin_key_def seq_of_origin_key_def less_eq_prod_def)

lemma sorted_epoch_seqs:
  "sorted ks \<Longrightarrow> sorted (map seq_of_origin_key (filter (\<lambda>k. epoch_of_origin_key k = ek) ks))"
  by (induction ks) (auto simp: origin_key_order [symmetric])

lemma mem_sequences_spec:
  assumes l: "fmlookup (mem_sequences_by_origin_epoch s) ek = Some qs"
  shows "sorted qs" and "set qs = {q. mk_origin_key ek q \<in> fmdom' (ms_events s)}" and "qs \<noteq> []"
proof -
  have "qs = fm_get_or (mem_sequences_by_origin_epoch s) ek []" using l by (simp add: fm_get_or_def)
  then have qs: "qs = map seq_of_origin_key (filter (\<lambda>k. epoch_of_origin_key k = ek) (fm_keys (ms_events s)))"
    by (simp add: mem_sequences_by_origin_epoch_def lookup_fold_push_to)
  show "sorted qs" unfolding qs by (rule sorted_epoch_seqs) simp
  show set: "set qs = {q. mk_origin_key ek q \<in> fmdom' (ms_events s)}"
  proof (rule set_eqI)
    fix q
    have "q \<in> set qs \<longleftrightarrow> (\<exists>k\<in>fmdom' (ms_events s). epoch_of_origin_key k = ek \<and> seq_of_origin_key k = q)"
      by (auto simp: qs)
    also have "\<dots> \<longleftrightarrow> mk_origin_key ek q \<in> fmdom' (ms_events s)"
      by (metis mk_origin_key_simps(1-3))
    finally show "q \<in> set qs \<longleftrightarrow> q \<in> {q. mk_origin_key ek q \<in> fmdom' (ms_events s)}" by simp
  qed
  have "ek \<in> fmdom' (mem_sequences_by_origin_epoch s)" using l by (simp add: fmlookup_dom'_iff)
  then obtain k where "k \<in> fmdom' (ms_events s)" "ek = epoch_of_origin_key k"
    by (auto simp: mem_sequences_by_origin_epoch_def dom_fold_push_to)
  then have "seq_of_origin_key k \<in> set qs" by (simp add: set)
  then show "qs \<noteq> []" by auto
qed

text \<open>The stored checksum is the checksum function of the domain types on the stored events.\<close>

definition checksum_row_of :: "event \<Rightarrow> checksum_row" where
  "checksum_row_of e = (bucket e, origin_node_id e, origin_epoch e, origin_seq e, canonical e)"

lemma mem_checksum_is_compute_checksum:
  assumes "mem_inv s"
  shows "mem_checksum_data sha s = compute_checksum sha (map checksum_row_of (fm_values (ms_events s)))"
proof -
  have key: "checksum_row_key (checksum_row_of e) = origin_key e" for e
    by (simp add: checksum_row_of_def checksum_row_key_def origin_key_def)
  have "map (\<lambda>e. checksum_row_key (checksum_row_of e)) (fm_values (ms_events s)) = fm_keys (ms_events s)"
    unfolding fm_values_keys map_map
  proof (rule map_idI)
    fix k assume "k \<in> set (fm_keys (ms_events s))"
    then obtain e where "fmlookup (ms_events s) k = Some e" by (auto simp: fmlookup_dom'_iff)
    with assms show "((\<lambda>e. checksum_row_key (checksum_row_of e)) \<circ> (\<lambda>k. the (fmlookup (ms_events s) k))) k = k"
      using mem_index_key [of s k e] by (simp add: key mem_inv_def)
  qed
  then have "sorted (map checksum_row_key (map checksum_row_of (fm_values (ms_events s))))"
    by (simp add: comp_def)
  then have "sort_key checksum_row_key (map checksum_row_of (fm_values (ms_events s))) =
      map checksum_row_of (fm_values (ms_events s))"
    by (rule sort_key_id_if_sorted)
  then show ?thesis
    by (simp add: mem_checksum_data_def compute_checksum_def comp_def checksum_row_of_def checksum_row_canonical_def)
qed

subsection \<open>The allocator rows\<close>

definition mem_rows :: "mem_storage \<Rightarrow> string \<times> string \<Rightarrow> bucket_allocator_row option" where
  "mem_rows s = fmlookup (ms_bucket_allocators s)"

lemma mem_rows_keys: "mem_inv s \<Longrightarrow> mem_rows s (b, n) = Some r \<Longrightarrow> row_bucket r = b \<and> row_node_id r = n"
  by (auto simp: mem_inv_def mem_rows_ok_def mem_rows_def)

lemma mem_load_rows:
  assumes inv: "mem_inv s"
  shows "distinct (map row_bucket (mem_load_bucket_allocators s n))"
    and "r \<in> set (mem_load_bucket_allocators s n) \<and> row_bucket r = b \<longleftrightarrow> mem_rows s (b, n) = Some r"
proof -
  let ?m = "ms_bucket_allocators s"
  let ?g = "\<lambda>k. the (fmlookup ?m k)"
  have key: "row_node_id (?g k) = snd k \<and> row_bucket (?g k) = fst k" if "k \<in> fmdom' ?m" for k
    using that inv by (cases k) (auto simp: mem_inv_def mem_rows_ok_def fmlookup_dom'_iff)
  have filt: "mem_load_bucket_allocators s n = map ?g (filter (\<lambda>k. snd k = n) (fm_keys ?m))"
    unfolding mem_load_bucket_allocators_def fm_values_keys filter_map
    by (intro arg_cong [of _ _ "map ?g"] filter_cong) (use key in auto)
  have "inj_on (\<lambda>k. row_bucket (?g k)) {k \<in> fmdom' ?m. snd k = n}"
    by (rule inj_onI) (auto simp: key prod_eq_iff)
  then show "distinct (map row_bucket (mem_load_bucket_allocators s n))"
    by (simp add: filt distinct_map inj_on_def)
  show "r \<in> set (mem_load_bucket_allocators s n) \<and> row_bucket r = b \<longleftrightarrow> mem_rows s (b, n) = Some r"
    using mem_rows_keys [OF inv] by (force simp: mem_load_bucket_allocators_def mem_rows_def)
qed

interpretation mem_rows: allocator_rows "mem_backend sha" mem_inv mem_rows
proof
  fix s :: mem_storage and b n :: string and q :: u64
  assume inv: "mem_inv s"
  show "\<exists>s'. be_bump_bucket_epoch (mem_backend sha) s b n =
          (Some (row_current_epoch (bumped_row b n (mem_rows s (b, n)))), s') \<and> mem_inv s' \<and>
          mem_rows s' = (mem_rows s)((b, n) \<mapsto> bumped_row b n (mem_rows s (b, n)))"
    using mem_writers_inv(3) [OF inv, of b n]
    by (auto simp: mem_backend_def mem_bump_bucket_epoch_def mem_rows_def bumped_row_def Let_def fun_eq_iff
        split: option.splits)
  show "\<exists>l. be_load_bucket_allocators (mem_backend sha) s n = Some l \<and> distinct (map row_bucket l) \<and>
          (\<forall>b r. r \<in> set l \<and> row_bucket r = b \<longleftrightarrow> mem_rows s (b, n) = Some r)"
    using mem_load_rows [OF inv, where n = n] by (auto simp: mem_backend_def)
  show "\<exists>c s'. be_mark_bucket_allocators_pending (mem_backend sha) s n = (Some c, s') \<and> mem_inv s' \<and>
          (\<forall>b. mem_rows s' (b, n) = map_option (row_needs_bump_update (\<lambda>_. True)) (mem_rows s (b, n)))"
    using mem_writers_inv(2) [OF inv, of n] mem_rows_keys [OF inv, of _ n]
    by (auto simp: mem_backend_def mem_mark_bucket_allocators_pending_def mem_rows_def intro!: option.map_cong0
        dest!: sym [of "Some _"] simp: option.set_map)
  show "\<exists>s'. be_persist_bucket_next_seq (mem_backend sha) s b n q = (Some (), s') \<and> mem_inv s' \<and>
          (\<forall>b'. mem_rows s' (b', n) =
             (if b' = b then map_option (\<lambda>r. r\<lparr>row_next_seq := max (row_next_seq r) q\<rparr>) (mem_rows s (b, n))
              else mem_rows s (b', n)))"
    using mem_writers_inv(4) [OF inv, of b n q]
    by (auto simp: mem_backend_def mem_persist_bucket_next_seq_def mem_rows_def max_def
        split: option.splits)
qed

lemma mem_insert_events_bulk_rows:
  "mem_insert_events_bulk s es = (n, s') \<Longrightarrow> mem_rows s' = mem_rows s"
proof (induction es arbitrary: s n)
  case Nil
  then show ?case by simp
next
  case (Cons e es)
  then show ?case
    by (auto split: prod.splits dest!: mem_insert_event_frame simp: mem_rows_def)
qed

interpretation mem_store: node_store "mem_backend sha" mem_inv mem_rows
proof
  fix s :: mem_storage and nonce a b n :: string and x :: i64 and ep :: u32 and h :: u64 and d :: bytes
    and es :: "event list" and entry :: node_registry_entry
  assume inv: "mem_inv s"
  show "\<exists>ms. be_find_by_idempotency_key (mem_backend sha) s nonce b a x = Some ms \<and>
      (\<forall>m\<in>set ms. idempotency_key m = (nonce, b, a, x))"
    by (auto simp: mem_backend_def mem_find_by_idempotency_key_def idempotency_key_def)
  show "mem_inv (snd (be_save_digest (mem_backend sha) s b n ep h d)) \<and>
      mem_rows (snd (be_save_digest (mem_backend sha) s b n ep h d)) = mem_rows s"
    using mem_writers_inv(7) [OF inv] by (simp add: mem_backend_def) (simp add: mem_rows_def mem_save_digest_def)
  show "\<exists>c s'. be_insert_events_bulk (mem_backend sha) s es = (Some c, s') \<and> mem_inv s' \<and> mem_rows s' = mem_rows s"
    using mem_insert_events_bulk_inv [OF inv] mem_insert_events_bulk_rows [of s es]
    by (cases "mem_insert_events_bulk s es") (simp add: mem_backend_def)
  show "mem_inv (snd (be_upsert_registry_entry (mem_backend sha) s entry)) \<and>
      mem_rows (snd (be_upsert_registry_entry (mem_backend sha) s entry)) = mem_rows s"
    using mem_writers_inv(5) [OF inv]
    by (auto simp: mem_backend_def mem_rows_def mem_upsert_registry_entry_def split: option.splits)
  show "mem_inv (snd (be_refresh_balance_summary (mem_backend sha) s)) \<and>
      mem_rows (snd (be_refresh_balance_summary (mem_backend sha) s)) = mem_rows s"
    using inv by (simp add: mem_backend_def)
  show "\<exists>s'. be_delete_bucket_cascade (mem_backend sha) s b = (Some (), s') \<and> mem_inv s' \<and>
      (\<forall>k. mem_rows s' k = (if fst k = b then None else mem_rows s k))" if nm: "b \<noteq> META_BUCKET"
  proof -
    obtain r s' where d: "mem_delete_bucket_cascade s b = (r, s')" by force
    note spec = mem_delete_bucket_cascade_spec [OF inv nm d]
    show ?thesis using d spec(1,4,7) by (auto simp: mem_backend_def mem_rows_def)
  qed
qed

section \<open>Properties of the in-memory store\<close>

text \<open>The three outcomes of an insert into a sound store: it is inserted exactly when both its position and its id are free,
  a duplicate exactly when the stored event at its position has its id, and a conflict otherwise; only the first changes the store, it
  adds the one event, and the store stays sound.\<close>

theorem mem_insert_outcomes:
  assumes "mem_inv s"
  shows "(case mem_insert_event s e of (r, s') \<Rightarrow>
      mem_inv s' \<and>
      (r = Inserted \<longleftrightarrow> \<not> fm_contains (ms_events s) (origin_key e) \<and> \<not> fm_contains (ms_event_ids s) (event_id e)) \<and>
      (r = Duplicate \<longleftrightarrow> (\<exists>x. fmlookup (ms_events s) (origin_key e) = Some x \<and> event_id x = event_id e)) \<and>
      ms_events s' = (if r = Inserted then fmupd (origin_key e) e (ms_events s) else ms_events s) \<and>
      (r \<noteq> Inserted \<longrightarrow> s' = s))"
proof -
  obtain r s' where ins: "mem_insert_event s e = (r, s')" by force
  have ok: "mem_index_ok s" using assms by (simp add: mem_inv_def)
  have inv': "mem_inv s'" by (rule mem_insert_event_inv [OF assms ins])
  have ix: "fmlookup (ms_event_ids s) (event_id e) = Some (origin_key e)"
    if "fmlookup (ms_events s) (origin_key e) = Some x" "event_id x = event_id e" for x
    using mem_index_id [OF ok that(1)] that(2) by simp
  have free: "fmlookup (ms_event_ids s) (event_id e) \<noteq> Some (origin_key e)" if "fmlookup (ms_events s) (origin_key e) = None"
    using mem_index_event [OF ok, of "event_id e" "origin_key e"] that by auto
  from ins show ?thesis
  proof (cases rule: mem_insert_event_cases)
    case inserted
    with free have "fmlookup (ms_event_ids s) (event_id e) = None" by auto
    with inserted inv' ins show ?thesis by simp
  next
    case (duplicate x)
    with inv' ins show ?thesis by auto
  next
    case (conflict m)
    with ins inv' ix show ?thesis by (auto simp: mem_insert_event_def Let_def split: if_splits option.splits)
  qed
qed

theorem mem_insert_outcomes_witness:
  "fst (mem_insert_event mem_new (sample_event ''x'' ''n'' 1 5 10)) = Inserted"
proof -
  have "fmlookup (ms_events mem_new) k = None" "fmlookup (ms_event_ids mem_new) i = None" for k i by (simp_all add: mem_new_def)
  with mem_insert_outcomes [OF mem_inv_new, of "sample_event ''x'' ''n'' 1 5 10"] show ?thesis by (simp add: split_beta)
qed

subsection \<open>Well-formed stores\<close>

text \<open>The stores that any sequence of operations can produce.\<close>

inductive mem_reach :: "mem_storage \<Rightarrow> bool" where
  start: "mem_reach mem_new"
| insert_one: "mem_reach s \<Longrightarrow> mem_insert_event s e = (r, s') \<Longrightarrow> mem_reach s'"
| insert_bulk: "mem_reach s \<Longrightarrow> mem_insert_events_bulk s es = (n, s') \<Longrightarrow> mem_reach s'"
| cascade: "mem_reach s \<Longrightarrow> mem_delete_bucket_cascade s b = (res, s') \<Longrightarrow> mem_reach s'"
| save_meta: "mem_reach s \<Longrightarrow> mem_reach (mem_save_node_meta s m)"
| mark_pending: "mem_reach s \<Longrightarrow> mem_reach (snd (mem_mark_bucket_allocators_pending s node))"
| bump: "mem_reach s \<Longrightarrow> mem_reach (snd (mem_bump_bucket_epoch s b node))"
| persist: "mem_reach s \<Longrightarrow> mem_reach (mem_persist_bucket_next_seq s b node q)"
| upsert: "mem_reach s \<Longrightarrow> mem_reach (snd (mem_upsert_registry_entry s entry))"
| decommission: "mem_reach s \<Longrightarrow> mem_reach (mem_decommission_node s node)"
| digest: "mem_reach s \<Longrightarrow> mem_reach (mem_save_digest s b node ep h d)"

lemma mem_reach_inv: "mem_reach s \<Longrightarrow> mem_inv s"
  by (induction rule: mem_reach.induct)
    (blast intro: mem_inv_new mem_insert_event_inv mem_insert_events_bulk_inv mem_delete_bucket_cascade_inv mem_writers_inv)+

text \<open>C26. Well-formedness of every store the operations can produce: an event is filed under its own position, no two stored events share an
  id, the id index points at exactly the stored events, and allocator rows and registry entries sit under their own keys.\<close>

theorem mem_store_well_formed:
  assumes "mem_reach s"
  shows "(\<forall>k e. fmlookup (ms_events s) k = Some e \<longrightarrow> k = origin_key e) \<and>
     (\<forall>k k' e e'. fmlookup (ms_events s) k = Some e \<and> fmlookup (ms_events s) k' = Some e' \<and> event_id e = event_id e' \<longrightarrow> e = e') \<and>
     fset (fmdom (ms_event_ids s)) = event_id ` {e. \<exists>k. fmlookup (ms_events s) k = Some e} \<and>
     (\<forall>b n r. fmlookup (ms_bucket_allocators s) (b, n) = Some r \<longrightarrow> (row_bucket r, row_node_id r) = (b, n)) \<and>
     (\<forall>n e. fmlookup (ms_registry s) n = Some e \<longrightarrow> reg_node_id e = n)"
proof -
  have inv: "mem_index_ok s" "mem_rows_ok s" "mem_registry_ok s"
    using mem_reach_inv [OF assms] by (simp_all add: mem_inv_def)
  have keys: "k = origin_key e" if "fmlookup (ms_events s) k = Some e" for k e
    using mem_index_key [OF inv(1) that] by simp
  have ids: "e = e'" if "fmlookup (ms_events s) k = Some e" "fmlookup (ms_events s) k' = Some e'" "event_id e = event_id e'" for k k' e e'
    using mem_index_id [OF inv(1) that(1)] mem_index_id [OF inv(1) that(2)] that by auto
  have "i |\<in>| fmdom (ms_event_ids s) \<longleftrightarrow> (\<exists>e k. fmlookup (ms_events s) k = Some e \<and> i = event_id e)" for i
    using inv(1) unfolding mem_index_ok_def fmlookup_dom_iff by metis
  then have "fset (fmdom (ms_event_ids s)) = event_id ` {e. \<exists>k. fmlookup (ms_events s) k = Some e}"
    by (auto simp del: split_paired_Ex simp: image_iff)
  with keys ids inv(2,3) show ?thesis by (auto simp: mem_rows_ok_def mem_registry_ok_def)
qed

theorem mem_store_well_formed_witness:
  "\<exists>s. mem_reach s \<and> fmlookup (ms_events s) (''b'', ''n'', 1, 1) = Some (sample_event ''x'' ''n'' 1 5 10) \<and>
     fset (fmdom (ms_event_ids s)) = event_id ` {e. \<exists>k. fmlookup (ms_events s) k = Some e}"
proof -
  obtain r s' where i: "mem_insert_event mem_new (sample_event ''x'' ''n'' 1 5 10) = (r, s')" by fastforce
  then have r: "mem_reach s'" by (rule mem_reach.insert_one [OF mem_reach.start])
  have "fmlookup (ms_events s') (''b'', ''n'', 1, 1) = Some (sample_event ''x'' ''n'' 1 5 10)"
    using i by (auto simp: mem_insert_event_def mem_new_def Let_def sample_event_def origin_key_def)
  with r mem_store_well_formed [OF r] show ?thesis by blast
qed

text \<open>The cascade of a bucket delete removes exactly the events, digests and allocator rows of that bucket from a sound store,
  leaves the registry and the node metadata alone and keeps the store sound; for the meta bucket it fails and changes nothing.\<close>

theorem mem_cascade_exact:
  assumes "mem_inv s"
  shows "case mem_delete_bucket_cascade s b of (r, s') \<Rightarrow>
     if b = META_BUCKET then r = None \<and> s' = s
     else r = Some () \<and> mem_inv s' \<and> ms_events s' = fmfilter (\<lambda>k. fst k \<noteq> b) (ms_events s) \<and>
       ms_digests s' = fmfilter (\<lambda>k. fst k \<noteq> b) (ms_digests s) \<and>
       ms_bucket_allocators s' = fmfilter (\<lambda>k. fst k \<noteq> b) (ms_bucket_allocators s) \<and>
       ms_registry s' = ms_registry s \<and> ms_node_meta s' = ms_node_meta s"
proof (cases "b = META_BUCKET")
  case True
  then show ?thesis by (simp add: mem_delete_bucket_cascade_def)
next
  case False
  obtain r s' where "mem_delete_bucket_cascade s b = (r, s')" by force
  with mem_delete_bucket_cascade_spec [OF assms False this] False show ?thesis by simp
qed

theorem mem_cascade_exact_witness:
  "ms_events (snd (mem_delete_bucket_cascade (snd (mem_insert_event mem_new (sample_event ''x'' ''n'' 1 5 10))) ''b'')) = fmempty"
proof -
  let ?e = "sample_event ''x'' ''n'' 1 5 10"
  let ?s = "mem_new\<lparr>ms_events := fmupd (origin_key ?e) ?e fmempty, ms_event_ids := fmupd (event_id ?e) (origin_key ?e) fmempty\<rparr>"
  have ins: "mem_insert_event mem_new ?e = (Inserted, ?s)" by (simp add: mem_insert_event_def mem_new_def Let_def)
  have "fmfilter (\<lambda>k. fst k \<noteq> ''b'') (fmupd (origin_key ?e) ?e fmempty) = fmempty"
    by (rule fmap_ext) (auto simp: sample_event_def origin_key_def)
  with mem_cascade_exact [OF mem_insert_event_inv [OF mem_inv_new ins], of "''b''"] show ?thesis
    by (auto simp: ins split_beta META_BUCKET_def)
qed

text \<open>The checksum of a sound store is the checksum function of the protocol on its events, and it does not depend on the order
  in which they are listed: equal sets of events give equal checksums.\<close>

theorem mem_checksum_determined:
  assumes "mem_inv s" and "distinct es" and "set es = {e. \<exists>k. fmlookup (ms_events s) k = Some e}"
  shows "mem_checksum_data sha s = compute_checksum sha (map checksum_row_of es)"
proof -
  let ?vs = "fm_values (ms_events s)"
  have key: "checksum_row_key (checksum_row_of e) = origin_key e" for e
    by (simp add: checksum_row_of_def checksum_row_key_def origin_key_def)
  have ok: "mem_index_ok s" using assms(1) by (simp add: mem_inv_def)
  have sv: "set es = set ?vs" unfolding assms(3) by (rule set_eqI) (simp only: mem_Collect_eq in_fm_values)
  have inj: "inj_on origin_key (set es)"
    using assms(3) mem_index_key [OF ok] by (auto simp: inj_on_def)
  have map: "map origin_key ?vs = fm_keys (ms_events s)"
    unfolding fm_values_keys map_map
  proof (rule map_idI)
    fix k assume "k \<in> set (fm_keys (ms_events s))"
    then obtain e where "fmlookup (ms_events s) k = Some e" by (auto simp: fmlookup_dom'_iff)
    then show "(origin_key \<circ> (\<lambda>k. the (fmlookup (ms_events s) k))) k = k" using mem_index_key [OF ok, of k e] by simp
  qed
  have "distinct (map origin_key ?vs)" unfolding map by simp
  then have "compute_checksum sha (map checksum_row_of ?vs) = compute_checksum sha (map checksum_row_of es)"
    using inj assms(2) by (intro compute_checksum_order) (simp_all add: sv comp_def key distinct_map)
  then show ?thesis by (simp add: mem_checksum_is_compute_checksum [OF assms(1)])
qed

lemma sample_store:
  fixes e :: event
  defines "s \<equiv> mem_new\<lparr>ms_events := fmupd (origin_key e) e fmempty, ms_event_ids := fmupd (event_id e) (origin_key e) fmempty\<rparr>"
  shows "mem_insert_event mem_new e = (Inserted, s)" and "mem_inv s" and "ms_events s = fmupd (origin_key e) e fmempty"
proof -
  show ins: "mem_insert_event mem_new e = (Inserted, s)" by (simp add: mem_insert_event_def mem_new_def Let_def s_def)
  show "mem_inv s" by (rule mem_insert_event_inv [OF mem_inv_new ins])
  show "ms_events s = fmupd (origin_key e) e fmempty" by (simp add: s_def)
qed

theorem mem_checksum_determined_witness:
  "mem_checksum_data (\<lambda>x. x) (snd (mem_insert_event mem_new (sample_event ''x'' ''n'' 1 5 10))) =
   compute_checksum (\<lambda>x. x) (map checksum_row_of [sample_event ''x'' ''n'' 1 5 10])"
  unfolding sample_store(1) snd_conv
  by (rule mem_checksum_determined) (use sample_store(2) in \<open>auto split: if_splits simp del: split_paired_Ex\<close>)

text \<open>A range query over a sound store returns, in sequence order, exactly the stored events of the chain with a number in the
  range; an inverted range is an error.\<close>

theorem mem_range_exact:
  assumes "mem_inv s"
  shows "case mem_query_events_range s b origin ep from_seq to_seq of
      None \<Rightarrow> to_seq < from_seq
    | Some es \<Rightarrow> from_seq \<le> to_seq \<and> sorted (map origin_seq es) \<and> distinct es \<and>
        set es = {e. (\<exists>k. fmlookup (ms_events s) k = Some e) \<and> epoch_key e = (b, origin, ep) \<and>
                    from_seq \<le> origin_seq e \<and> origin_seq e \<le> to_seq}"
proof (cases "to_seq < from_seq")
  case True
  then show ?thesis by (simp add: mem_query_events_range_def)
next
  case False
  let ?P = "\<lambda>(k, _). (b, origin, ep, from_seq) \<le> k \<and> k \<le> (b, origin, ep, to_seq)"
  let ?l = "filter ?P (fm_entries (ms_events s))"
  have ok: "mem_index_ok s" using assms by (simp add: mem_inv_def)
  have key: "k = origin_key e" if "(k, e) \<in> set (fm_entries (ms_events s))" for k e
    using that mem_index_key [OF ok, of k e] by simp
  have P: "?P (k, e) \<longleftrightarrow> epoch_of_origin_key k = (b, origin, ep) \<and> from_seq \<le> seq_of_origin_key k \<and> seq_of_origin_key k \<le> to_seq" for k and e :: event
    using False by (cases k) (auto simp: epoch_of_origin_key_def seq_of_origin_key_def less_eq_prod_def)
  have sl: "set ?l = {(k, e). fmlookup (ms_events s) k = Some e \<and> epoch_of_origin_key k = (b, origin, ep) \<and>
      from_seq \<le> seq_of_origin_key k \<and> seq_of_origin_key k \<le> to_seq}"
    using P by auto
  have set: "set (map snd ?l) = {e. (\<exists>k. fmlookup (ms_events s) k = Some e) \<and> epoch_key e = (b, origin, ep) \<and>
      from_seq \<le> origin_seq e \<and> origin_seq e \<le> to_seq}"
  proof (rule set_eqI)
    fix e
    have "e \<in> set (map snd ?l) \<longleftrightarrow> (\<exists>k. (k, e) \<in> set ?l)" by force
    also have "\<dots> \<longleftrightarrow> (\<exists>k. fmlookup (ms_events s) k = Some e \<and> epoch_key e = (b, origin, ep) \<and>
        from_seq \<le> origin_seq e \<and> origin_seq e \<le> to_seq)"
    proof -
      have "epoch_of_origin_key k = epoch_key e" "seq_of_origin_key k = origin_seq e" if "fmlookup (ms_events s) k = Some e" for k
        using mem_index_key [OF ok that] by auto
      then show ?thesis unfolding sl by (auto simp del: split_paired_Ex)
    qed
    finally show "e \<in> set (map snd ?l) \<longleftrightarrow> e \<in> {e. (\<exists>k. fmlookup (ms_events s) k = Some e) \<and> epoch_key e = (b, origin, ep) \<and>
        from_seq \<le> origin_seq e \<and> origin_seq e \<le> to_seq}"
      by (simp del: split_paired_Ex)
  qed
  have seqs: "map origin_seq (map snd ?l) = map seq_of_origin_key (filter (\<lambda>k. epoch_of_origin_key k = (b, origin, ep)) (map fst ?l))"
  proof -
    have "filter (\<lambda>k. epoch_of_origin_key k = (b, origin, ep)) (map fst ?l) = map fst ?l" using sl by (auto simp: filter_id_conv)
    moreover have "origin_seq (snd p) = seq_of_origin_key (fst p)" if "p \<in> set (fm_entries (ms_events s))" for p
      unfolding key [of "fst p" "snd p", unfolded prod.collapse, OF that] by simp
    then have "map (origin_seq \<circ> snd) ?l = map (seq_of_origin_key \<circ> fst) ?l" by simp
    ultimately show ?thesis by simp
  qed
  have srt: "sorted (map fst ?l)" by (rule sorted_filter) simp
  have "sorted (map origin_seq (map snd ?l))" unfolding seqs by (rule sorted_epoch_seqs [OF srt])
  moreover have "distinct (map snd ?l)"
  proof -
    have "distinct ?l" by simp
    moreover have "inj_on snd (set ?l)"
    proof (rule inj_onI)
      fix p p' assume "p \<in> set ?l" "p' \<in> set ?l" "snd p = snd p'"
      then have "p \<in> set (fm_entries (ms_events s))" "p' \<in> set (fm_entries (ms_events s))" by auto
      from key [of "fst p" "snd p", unfolded prod.collapse, OF this(1)] key [of "fst p'" "snd p'", unfolded prod.collapse, OF this(2)]
      have "fst p = origin_key (snd p)" "fst p' = origin_key (snd p')" .
      with \<open>snd p = snd p'\<close> show "p = p'" by (simp add: prod_eq_iff)
    qed
    ultimately show ?thesis by (simp add: distinct_map)
  qed
  ultimately show ?thesis using False set by (simp add: mem_query_events_range_def)
qed

theorem mem_range_exact_witness:
  "\<exists>es. mem_query_events_range (snd (mem_insert_event mem_new (sample_event ''x'' ''n'' 7 5 10))) ''b'' ''n'' 1 3 9 = Some es \<and>
     sample_event ''x'' ''n'' 7 5 10 \<in> set es"
proof -
  let ?e = "sample_event ''x'' ''n'' 7 5 10"
  have f: "epoch_key ?e = (''b'', ''n'', 1)" "origin_seq ?e = 7" by (simp_all add: sample_event_def epoch_key_def)
  show ?thesis
    unfolding sample_store(1) snd_conv
    using mem_range_exact [OF sample_store(2) [of ?e], where b = "''b''" and origin = "''n''" and ep = 1 and from_seq = 3 and to_seq = 9]
    by (auto simp: f mem_query_events_range_def split: option.splits simp del: split_paired_Ex)
qed

end
