(* ===== verification/Allocator.thy ===== *)
theory Allocator
  imports Memory_Storage
begin

section \<open>The sequence allocator (\<open>apps/node/src/bucket_allocator.rs\<close>)\<close>

text \<open>
  One counter per bucket. The registry is the map of the in-memory counters; the durable
  rows are in the storage state, reached through the backend dictionary \<open>B\<close>. The bump lock
  makes an allocation one step, so an allocation is a function from the registry and the
  storage state to a result and both states.
\<close>

record bucket_allocator =
  current_epoch :: u64
  next_seq :: u64
  needs_bump :: bool

type_synonym allocators = "(string, bucket_allocator) fmap"

definition bucket_allocator_new :: "u32 \<Rightarrow> u64 \<Rightarrow> bool \<Rightarrow> bucket_allocator" where
  "bucket_allocator_new ep q nb = \<lparr>current_epoch = ucast ep, next_seq = q, needs_bump = nb\<rparr>"

definition allocator_epoch :: "bucket_allocator \<Rightarrow> u32" where
  "allocator_epoch a = ucast (current_epoch a)"

definition peek_next_seq :: "bucket_allocator \<Rightarrow> u64" where
  "peek_next_seq a = next_seq a"

definition load_from_storage ::
  "'s backend \<Rightarrow> string \<Rightarrow> allocators \<Rightarrow> 's \<Rightarrow> unit option \<times> allocators \<times> 's" where
  "load_from_storage B n m s =
     (case be_mark_bucket_allocators_pending B s n of
        (None, s') \<Rightarrow> (None, m, s')
      | (Some _, s') \<Rightarrow>
          (case be_load_bucket_allocators B s' n of
             None \<Rightarrow> (None, m, s')
           | Some rows \<Rightarrow>
               (Some (),
                fold (\<lambda>r. fmupd (row_bucket r)
                        (bucket_allocator_new (row_current_epoch r) (row_next_seq r) (row_needs_bump r))) rows m,
                s')))"

text \<open>The counter of a bucket seen for the first time in this process.\<close>

definition open_allocator ::
  "'s backend \<Rightarrow> string \<Rightarrow> allocators \<Rightarrow> 's \<Rightarrow> string \<Rightarrow> bucket_allocator option \<times> allocators \<times> 's" where
  "open_allocator B n m s b =
     (case fmlookup m b of
        Some a \<Rightarrow> (Some a, m, s)
      | None \<Rightarrow>
          (case be_bump_bucket_epoch B s b n of
             (None, s') \<Rightarrow> (None, m, s')
           | (Some ep, s') \<Rightarrow>
               (case be_load_bucket_allocators B s' n of
                  None \<Rightarrow> (None, m, s')
                | Some rows \<Rightarrow>
                    let (q, nb) = (case find (\<lambda>r. row_bucket r = b) rows of
                                     Some r \<Rightarrow> (row_next_seq r, row_needs_bump r)
                                   | None \<Rightarrow> (1, False));
                        a = bucket_allocator_new ep q nb
                    in (Some a, fmupd b a m, s'))))"

text \<open>The lazy bump of a counter that a restart flagged.\<close>

definition lazy_bump ::
  "'s backend \<Rightarrow> string \<Rightarrow> allocators \<Rightarrow> 's \<Rightarrow> string \<Rightarrow> bucket_allocator \<Rightarrow>
     bucket_allocator option \<times> allocators \<times> 's" where
  "lazy_bump B n m s b a =
     (if needs_bump a then
        (case be_bump_bucket_epoch B s b n of
           (None, s') \<Rightarrow> (None, m, s')
         | (Some ep, s') \<Rightarrow>
             (let a' = \<lparr>current_epoch = ucast ep, next_seq = 1, needs_bump = False\<rparr>
              in (Some a', fmupd b a' m, s')))
      else (Some a, m, s))"

definition allocate ::
  "'s backend \<Rightarrow> string \<Rightarrow> allocators \<Rightarrow> 's \<Rightarrow> string \<Rightarrow> (u32 \<times> u64) option \<times> allocators \<times> 's" where
  "allocate B n m s b =
     (case open_allocator B n m s b of
        (None, m1, s1) \<Rightarrow> (None, m1, s1)
      | (Some a, m1, s1) \<Rightarrow>
          (case lazy_bump B n m1 s1 b a of
             (None, m2, s2) \<Rightarrow> (None, m2, s2)
           | (Some a', m2, s2) \<Rightarrow>
               (Some (allocator_epoch a', next_seq a'),
                fmupd b (a'\<lparr>next_seq := next_seq a' + 1\<rparr>) m2, s2)))"

definition checkpoint_all :: "'s backend \<Rightarrow> string \<Rightarrow> allocators \<Rightarrow> 's \<Rightarrow> 's" where
  "checkpoint_all B n m s =
     fold (\<lambda>(b, a) s. snd (be_persist_bucket_next_seq B s b n (peek_next_seq a))) (fm_entries m) s"

definition peek_epoch :: "allocators \<Rightarrow> string \<Rightarrow> u32 option" where
  "peek_epoch m b = map_option allocator_epoch (fmlookup m b)"

definition forget :: "string \<Rightarrow> allocators \<Rightarrow> allocators" where
  "forget b m = fmdrop b m"

lemma epoch_cast [simp]: "(ucast (ucast (ep :: u32) :: u64) :: u32) = ep"
  by (simp add: ucast_up_ucast_id is_up)

section \<open>Uniqueness of the issued sequence numbers\<close>

text \<open>A schedule of the allocator: allocations, checkpoints, and process restarts.\<close>

datatype alloc_op = Alloc string | Restart | Checkpoint

fun alloc_step ::
  "'s backend \<Rightarrow> string \<Rightarrow> alloc_op \<Rightarrow> allocators \<Rightarrow> 's \<Rightarrow> (string \<times> u32 \<times> u64) list \<times> allocators \<times> 's" where
  "alloc_step B n (Alloc b) m s =
     (case allocate B n m s b of (None, m', s') \<Rightarrow> ([], m', s') | (Some (ep, q), m', s') \<Rightarrow> ([(b, ep, q)], m', s'))"
| "alloc_step B n Restart m s = (case load_from_storage B n fmempty s of (_, m', s') \<Rightarrow> ([], m', s'))"
| "alloc_step B n Checkpoint m s = ([], m, checkpoint_all B n m s)"

fun alloc_run ::
  "'s backend \<Rightarrow> string \<Rightarrow> alloc_op list \<Rightarrow> allocators \<Rightarrow> 's \<Rightarrow> (string \<times> u32 \<times> u64) list \<times> allocators \<times> 's" where
  "alloc_run B n [] m s = ([], m, s)"
| "alloc_run B n (op # ops) m s =
     (case alloc_step B n op m s of
        (out, m1, s1) \<Rightarrow> (case alloc_run B n ops m1 s1 of (out', m2, s2) \<Rightarrow> (out @ out', m2, s2)))"

text \<open>The in-memory counters agree with the durable rows of this node.\<close>

definition alloc_linked ::
  "(string \<times> string \<Rightarrow> bucket_allocator_row option) \<Rightarrow> string \<Rightarrow> allocators \<Rightarrow> bool" where
  "alloc_linked rw n m \<longleftrightarrow>
     (\<forall>b. case fmlookup m b of
            None \<Rightarrow> rw (b, n) = None
          | Some a \<Rightarrow> (\<exists>r. rw (b, n) = Some r \<and> current_epoch a = ucast (row_current_epoch r) \<and>
                       needs_bump a = row_needs_bump r))"

text \<open>
  Every issued number lies below its counter: in an older epoch, in the flagged epoch that
  the next allocation leaves, or in the open epoch and below the next sequence number.
\<close>

definition issued_below ::
  "(string \<times> string \<Rightarrow> bucket_allocator_row option) \<Rightarrow> string \<Rightarrow> allocators \<Rightarrow> string \<times> u32 \<times> u64 \<Rightarrow> bool" where
  "issued_below rw n m t = (case t of (b, ep, q) \<Rightarrow>
     (\<exists>r a. rw (b, n) = Some r \<and> fmlookup m b = Some a \<and>
        (ep < row_current_epoch r \<or> (ep = row_current_epoch r \<and> (row_needs_bump r \<or> q < next_seq a)))))"

text \<open>After \<open>k\<close> steps no counter exceeds \<open>k\<close>.\<close>

definition alloc_bounded ::
  "(string \<times> string \<Rightarrow> bucket_allocator_row option) \<Rightarrow> string \<Rightarrow> allocators \<Rightarrow> nat \<Rightarrow> bool" where
  "alloc_bounded rw n m k \<longleftrightarrow>
     (\<forall>b r. rw (b, n) = Some r \<longrightarrow> unat (row_current_epoch r) \<le> k) \<and>
     (\<forall>b a. fmlookup m b = Some a \<longrightarrow> \<not> needs_bump a \<longrightarrow> unat (next_seq a) \<le> Suc k)"

definition alloc_inv ::
  "(string \<times> string \<Rightarrow> bucket_allocator_row option) \<Rightarrow> string \<Rightarrow> allocators \<Rightarrow> (string \<times> u32 \<times> u64) list \<Rightarrow> nat \<Rightarrow> bool" where
  "alloc_inv rw n m out k \<longleftrightarrow>
     alloc_linked rw n m \<and> alloc_bounded rw n m k \<and> (\<forall>t\<in>set out. issued_below rw n m t) \<and> distinct out"

lemma alloc_linkedD:
  assumes "alloc_linked rw n m"
  shows "fmlookup m b = None \<Longrightarrow> rw (b, n) = None"
    and "fmlookup m b = Some a \<Longrightarrow> \<exists>r. rw (b, n) = Some r \<and> current_epoch a = ucast (row_current_epoch r) \<and>
                       needs_bump a = row_needs_bump r"
  using assms [unfolded alloc_linked_def, rule_format, of b] by (auto split: option.splits)

lemma alloc_linked_upd:
  assumes "alloc_linked rw n m" and "current_epoch a = ucast (row_current_epoch r)"
    and "needs_bump a = row_needs_bump r"
  shows "alloc_linked (rw((b, n) \<mapsto> r)) n (fmupd b a m)"
  unfolding alloc_linked_def
proof
  fix c
  show "case fmlookup (fmupd b a m) c of None \<Rightarrow> (rw((b, n) \<mapsto> r)) (c, n) = None
        | Some a \<Rightarrow> \<exists>x. (rw((b, n) \<mapsto> r)) (c, n) = Some x \<and> current_epoch a = ucast (row_current_epoch x) \<and>
                   needs_bump a = row_needs_bump x"
    using assms(1) [unfolded alloc_linked_def, rule_format, of c] assms(2,3)
    by (cases "c = b"; cases "fmlookup m c") auto
qed

lemma alloc_bounded_upd:
  assumes "alloc_bounded rw n m k" and "unat (row_current_epoch r) \<le> Suc k" and "unat (next_seq a) \<le> Suc (Suc k)"
  shows "alloc_bounded (rw((b, n) \<mapsto> r)) n (fmupd b a m) (Suc k)"
proof -
  have "unat (row_current_epoch x) \<le> Suc k" if "(rw((b, n) \<mapsto> r)) (c, n) = Some x" for c x
    using assms(1,2) that by (cases "c = b") (auto simp: alloc_bounded_def le_SucI)
  moreover have "unat (next_seq x) \<le> Suc (Suc k)" if "fmlookup (fmupd b a m) c = Some x" "\<not> needs_bump x" for c x
    using assms(1,3) that by (cases "c = b") (auto simp: alloc_bounded_def le_SucI)
  ultimately show ?thesis by (auto simp: alloc_bounded_def)
qed

lemma suc_u32: "unat (e :: u32) < 4294967295 \<Longrightarrow> unat (e + 1) = Suc (unat e) \<and> e < e + 1"
  by (simp add: unat_word_ariths word_less_nat_alt)

lemma suc_u64: "unat (q :: u64) < 18446744073709551615 \<Longrightarrow> unat (q + 1) = Suc (unat q) \<and> q < q + 1"
  by (simp add: unat_word_ariths word_less_nat_alt)

context allocator_rows
begin

text \<open>The three ways an allocation proceeds.\<close>

lemma allocate_cases:
  assumes inv: "inv s" and link: "alloc_linked (rows s) n m"
    and res: "allocate B n m s b = (r, m', s')"
  obtains (open_counter) a rw where "fmlookup m b = Some a" "\<not> needs_bump a"
      "rows s (b, n) = Some rw" "\<not> row_needs_bump rw" "r = Some (row_current_epoch rw, next_seq a)"
      "m' = fmupd b (a\<lparr>next_seq := next_seq a + 1\<rparr>) m" "s' = s"
    | (bumped) a rw where "fmlookup m b = Some a" "needs_bump a"
      "rows s (b, n) = Some rw" "row_needs_bump rw" "r = Some (row_current_epoch rw + 1, 1)"
      "m' = fmupd b \<lparr>current_epoch = ucast (row_current_epoch rw + 1), next_seq = 2, needs_bump = False\<rparr> m"
      "inv s'" "rows s' = (rows s)((b, n) \<mapsto> bumped_row b n (Some rw))"
    | (created) "fmlookup m b = None" "rows s (b, n) = None" "r = Some (1, 1)"
      "m' = fmupd b \<lparr>current_epoch = 1, next_seq = 2, needs_bump = False\<rparr> m"
      "inv s'" "rows s' = (rows s)((b, n) \<mapsto> bumped_row b n None)"
proof (cases "fmlookup m b")
  case None
  then have none: "rows s (b, n) = None" using alloc_linkedD(1) [OF link] by blast
  obtain s1 where s1: "be_bump_bucket_epoch B s b n = (Some 1, s1)" "inv s1"
    "rows s1 = (rows s)((b, n) \<mapsto> bumped_row b n None)"
    using bump_ok [OF inv, of b n] none by (auto simp: bumped_row_def)
  obtain l where l: "be_load_bucket_allocators B s1 n = Some l" using load_ok [OF s1(2)] by blast
  have f: "find (\<lambda>r. row_bucket r = b) l = Some (bumped_row b n None)"
    using find_loaded_row [OF s1(2) l] s1(3) by simp
  show thesis
    by (rule created) (use res None none s1 l f in
        \<open>auto simp: allocate_def open_allocator_def lazy_bump_def bucket_allocator_new_def allocator_epoch_def
          bumped_row_def fun_eq_iff Let_def\<close>)
next
  case (Some a)
  with link obtain rw where rw: "rows s (b, n) = Some rw" "current_epoch a = ucast (row_current_epoch rw)"
    "needs_bump a = row_needs_bump rw" by (blast dest: alloc_linkedD(2))
  show thesis
  proof (cases "needs_bump a")
    case False
    show thesis
      by (rule open_counter) (use res Some False rw in
          \<open>auto simp: allocate_def open_allocator_def lazy_bump_def allocator_epoch_def Let_def\<close>)
  next
    case True
    obtain s1 where s1: "be_bump_bucket_epoch B s b n = (Some (row_current_epoch rw + 1), s1)" "inv s1"
      "rows s1 = (rows s)((b, n) \<mapsto> bumped_row b n (Some rw))"
      using bump_ok [OF inv, of b n] rw True by (auto simp: bumped_row_def)
    show thesis
      by (rule bumped) (use res Some True rw s1 in
          \<open>auto simp: allocate_def open_allocator_def lazy_bump_def allocator_epoch_def Let_def\<close>)
  qed
qed

lemma allocate_inv:
  assumes inv: "inv s" and ai: "alloc_inv (rows s) n m out k" and k: "k < 4294967295"
    and res: "allocate B n m s b = (r, m', s')"
  shows "\<exists>ep q. r = Some (ep, q) \<and> inv s' \<and> alloc_inv (rows s') n m' (out @ [(b, ep, q)]) (Suc k)"
proof -
  have link: "alloc_linked (rows s) n m" and bnd: "alloc_bounded (rows s) n m k"
    and iss: "\<And>t. t \<in> set out \<Longrightarrow> issued_below (rows s) n m t" and dis: "distinct out"
    using ai by (auto simp: alloc_inv_def)
  show ?thesis
    using inv link res
  proof (cases rule: allocate_cases)
    case (open_counter a rw)
    have ea: "current_epoch a = ucast (row_current_epoch rw)"
      using alloc_linkedD(2) [OF link open_counter(1)] open_counter(3) by auto
    have ql: "unat (next_seq a) \<le> Suc k" using bnd open_counter by (auto simp: alloc_bounded_def)
    then have q: "unat (next_seq a + 1) = Suc (unat (next_seq a))" "next_seq a < next_seq a + 1"
      using suc_u64 [of "next_seq a"] k by auto
    have fresh: "(b, row_current_epoch rw, next_seq a) \<notin> set out"
      using iss [of "(b, row_current_epoch rw, next_seq a)"] open_counter by (auto simp: issued_below_def)
    have "issued_below (rows s') n m' t" if "t \<in> set out" for t
      using iss [OF that] open_counter q by (auto simp: issued_below_def split: prod.splits)
    moreover have "issued_below (rows s') n m' (b, row_current_epoch rw, next_seq a)"
      using open_counter q by (simp add: issued_below_def)
    moreover have same: "rows s' = (rows s)((b, n) \<mapsto> rw)" using open_counter by (simp add: fun_upd_idem)
    moreover have "alloc_linked (rows s') n m'"
      unfolding same open_counter(6) by (rule alloc_linked_upd [OF link]) (use open_counter ea in simp_all)
    moreover have "alloc_bounded (rows s') n m' (Suc k)"
      unfolding same open_counter(6)
      by (rule alloc_bounded_upd [OF bnd]) (use bnd open_counter q ql in \<open>auto simp: alloc_bounded_def le_SucI\<close>)
    ultimately show ?thesis
      using open_counter inv fresh dis by (auto simp: alloc_inv_def)
  next
    case (bumped a rw)
    have el: "unat (row_current_epoch rw) \<le> k" using bnd bumped(3) by (auto simp: alloc_bounded_def)
    then have e: "unat (row_current_epoch rw + 1) = Suc (unat (row_current_epoch rw))"
      "row_current_epoch rw < row_current_epoch rw + 1"
      using suc_u32 [of "row_current_epoch rw"] k by auto
    have fresh: "(b, row_current_epoch rw + 1, 1) \<notin> set out"
      using iss [of "(b, row_current_epoch rw + 1, 1)"] bumped e(2) by (auto simp: issued_below_def)
    have "issued_below (rows s') n m' t" if "t \<in> set out" for t
      using iss [OF that] bumped e(2) by (auto simp: issued_below_def bumped_row_def split: prod.splits)
    moreover have "issued_below (rows s') n m' (b, row_current_epoch rw + 1, 1)"
      using bumped by (simp add: issued_below_def bumped_row_def)
    moreover have "alloc_linked (rows s') n m'"
      unfolding bumped(6,8) by (rule alloc_linked_upd [OF link]) (use bumped(4) in \<open>simp_all add: bumped_row_def\<close>)
    moreover have "alloc_bounded (rows s') n m' (Suc k)"
      unfolding bumped(6,8) by (rule alloc_bounded_upd [OF bnd]) (use bumped(4) e el in \<open>simp_all add: bumped_row_def\<close>)
    ultimately show ?thesis
      using bumped fresh dis by (auto simp: alloc_inv_def)
  next
    case created
    have fresh: "(b, 1, 1) \<notin> set out"
      using iss [of "(b, 1, 1)"] created by (auto simp: issued_below_def)
    have "issued_below (rows s') n m' t" if "t \<in> set out" for t
      using iss [OF that] created by (auto simp: issued_below_def split: prod.splits)
    moreover have "issued_below (rows s') n m' (b, 1, 1)"
      using created by (simp add: issued_below_def bumped_row_def)
    moreover have "alloc_linked (rows s') n m'"
      unfolding created(4,6) by (rule alloc_linked_upd [OF link]) (simp_all add: bumped_row_def)
    moreover have "alloc_bounded (rows s') n m' (Suc k)"
      unfolding created(4,6) by (rule alloc_bounded_upd [OF bnd]) (simp_all add: bumped_row_def)
    ultimately show ?thesis
      using created fresh dis by (auto simp: alloc_inv_def)
  qed
qed

text \<open>On a store that answers, an allocation always succeeds.\<close>

lemma allocate_total:
  assumes inv: "inv s"
  obtains ep q m' s' where "allocate B n m s b = (Some (ep, q), m', s')" "inv s'"
proof -
  obtain a m1 s1 where o: "open_allocator B n m s b = (Some a, m1, s1)" "inv s1"
  proof (cases "fmlookup m b")
    case (Some a)
    with inv that show thesis by (simp add: open_allocator_def)
  next
    case None
    obtain ep s1 where s1: "be_bump_bucket_epoch B s b n = (Some ep, s1)" "inv s1"
      using bump_ok [OF inv, of b n] by blast
    obtain l where l: "be_load_bucket_allocators B s1 n = Some l" using load_ok [OF s1(2)] by blast
    obtain q nb where qnb: "(case find (\<lambda>r. row_bucket r = b) l of Some r \<Rightarrow> (row_next_seq r, row_needs_bump r)
        | None \<Rightarrow> (1, False)) = (q, nb)" by force
    show thesis by (rule that [OF _ s1(2)]) (simp add: open_allocator_def None s1 l qnb Let_def)
  qed
  obtain a' m2 s2 where z: "lazy_bump B n m1 s1 b a = (Some a', m2, s2)" "inv s2"
  proof (cases "needs_bump a")
    case False
    with o that show thesis by (simp add: lazy_bump_def)
  next
    case True
    obtain ep s2 where s2: "be_bump_bucket_epoch B s1 b n = (Some ep, s2)" "inv s2"
      using bump_ok [OF o(2), of b n] by blast
    show thesis by (rule that [OF _ s2(2)]) (simp add: lazy_bump_def True s2 Let_def)
  qed
  show thesis by (rule that [OF _ z(2)]) (simp add: allocate_def o z)
qed

text \<open>A restart flags every row and reloads the counters.\<close>

lemma restart_inv:
  assumes inv: "inv s" and ai: "alloc_inv (rows s) n m out k"
    and res: "load_from_storage B n fmempty s = (r, m', s')"
  shows "r = Some ()" and "inv s'" and "alloc_inv (rows s') n m' out (Suc k)"
proof -
  obtain c s1 where mark: "be_mark_bucket_allocators_pending B s n = (Some c, s1)" "inv s1"
    "\<And>b. rows s1 (b, n) = map_option (row_needs_bump_update (\<lambda>_. True)) (rows s (b, n))"
    using mark_ok [OF inv, of n] by blast
  obtain l where l: "be_load_bucket_allocators B s1 n = Some l" "distinct (map row_bucket l)"
    "\<And>b r. r \<in> set l \<and> row_bucket r = b \<longleftrightarrow> rows s1 (b, n) = Some r"
    using load_ok [OF mark(2), of n] by blast
  let ?g = "\<lambda>r. bucket_allocator_new (row_current_epoch r) (row_next_seq r) (row_needs_bump r)"
  have rs: "r = Some ()" "s' = s1" and m': "\<And>b. fmlookup m' b = map_option ?g (rows s1 (b, n))"
    using res mark l lookup_fold_fmupd [OF l(2), of ?g fmempty] find_loaded_row [OF mark(2) l(1)]
    by (auto simp: load_from_storage_def map_option_case split: option.splits)
  show "r = Some ()" "inv s'" using rs mark by simp_all
  have "alloc_linked (rows s') n m'"
    by (auto simp: alloc_linked_def rs m' bucket_allocator_new_def split: option.splits)
  moreover have "alloc_bounded (rows s') n m' (Suc k)"
    using ai by (fastforce simp: alloc_inv_def alloc_bounded_def rs m' mark(3) bucket_allocator_new_def)
  moreover have "issued_below (rows s') n m' t" if "t \<in> set out" for t
    using ai that by (fastforce simp: alloc_inv_def issued_below_def rs m' mark(3) split: prod.splits)
  ultimately show "alloc_inv (rows s') n m' out (Suc k)" using ai by (simp add: alloc_inv_def)
qed

text \<open>A checkpoint touches no epoch and no flag.\<close>

lemma checkpoint_rows:
  "inv s \<Longrightarrow> inv (checkpoint_all B n m s) \<and>
     (\<forall>b. map_option (\<lambda>r. (row_current_epoch r, row_needs_bump r)) (rows (checkpoint_all B n m s) (b, n)) =
          map_option (\<lambda>r. (row_current_epoch r, row_needs_bump r)) (rows s (b, n)))"
proof -
  have "inv s \<Longrightarrow> let s' = fold (\<lambda>(b, a) s. snd (be_persist_bucket_next_seq B s b n (peek_next_seq a))) xs s in
     inv s' \<and> (\<forall>b. map_option (\<lambda>r. (row_current_epoch r, row_needs_bump r)) (rows s' (b, n)) =
          map_option (\<lambda>r. (row_current_epoch r, row_needs_bump r)) (rows s (b, n)))" for xs
  proof (induction xs arbitrary: s)
    case (Cons x xs)
    obtain b a where x: "x = (b, a)" by force
    obtain s1 where s1: "be_persist_bucket_next_seq B s b n (peek_next_seq a) = (Some (), s1)" "inv s1"
      "\<And>b'. rows s1 (b', n) = (if b' = b then map_option (\<lambda>r. r\<lparr>row_next_seq := max (row_next_seq r) (peek_next_seq a)\<rparr>)
          (rows s (b, n)) else rows s (b', n))"
      using persist_ok [OF Cons.prems, of b n "peek_next_seq a"] by blast
    have same: "map_option (\<lambda>r. (row_current_epoch r, row_needs_bump r)) (rows s1 (b', n)) =
        map_option (\<lambda>r. (row_current_epoch r, row_needs_bump r)) (rows s (b', n))" for b'
      by (simp add: s1(3) option.map_comp comp_def)
    show ?case using Cons.IH [OF s1(2)] by (simp add: x s1(1) Let_def same)
  qed simp
  then show "inv s \<Longrightarrow> ?thesis" by (simp add: checkpoint_all_def Let_def)
qed

lemma alloc_inv_rows_cong:
  assumes "\<And>b. map_option (\<lambda>r. (row_current_epoch r, row_needs_bump r)) (rw' (b, n)) =
               map_option (\<lambda>r. (row_current_epoch r, row_needs_bump r)) (rw (b, n))"
    and ai: "alloc_inv rw n m out k"
  shows "alloc_inv rw' n m out (Suc k)"
proof -
  have none: "rw' (b, n) = None \<longleftrightarrow> rw (b, n) = None" for b
    using assms(1) [of b] by (cases "rw' (b, n)"; cases "rw (b, n)") auto
  have some: "\<exists>r. rw (b, n) = Some r \<and> row_current_epoch r' = row_current_epoch r \<and>
      row_needs_bump r' = row_needs_bump r" if "rw' (b, n) = Some r'" for b r'
    using assms(1) [of b] that by (cases "rw (b, n)") auto
  have some': "\<exists>r'. rw' (b, n) = Some r' \<and> row_current_epoch r' = row_current_epoch r \<and>
      row_needs_bump r' = row_needs_bump r" if "rw (b, n) = Some r" for b r
    using assms(1) [of b] that by (cases "rw' (b, n)") auto
  have "alloc_linked rw' n m"
    unfolding alloc_linked_def
  proof
    fix b
    show "case fmlookup m b of None \<Rightarrow> rw' (b, n) = None
          | Some a \<Rightarrow> \<exists>r. rw' (b, n) = Some r \<and> current_epoch a = ucast (row_current_epoch r) \<and> needs_bump a = row_needs_bump r"
      using conjunct1 [OF ai [unfolded alloc_inv_def], unfolded alloc_linked_def, rule_format, of b] none [of b] some' [of b]
      by (cases "fmlookup m b") auto
  qed
  moreover have "alloc_bounded rw' n m (Suc k)"
    using ai some by (fastforce simp: alloc_inv_def alloc_bounded_def)
  moreover have "issued_below rw' n m t" if t: "t \<in> set out" for t
    using ai t some' by (fastforce simp: alloc_inv_def issued_below_def split: prod.splits)
  ultimately show ?thesis using ai by (simp add: alloc_inv_def)
qed

lemma alloc_step_inv:
  assumes "inv s" and "alloc_inv (rows s) n m out k" and "k < 4294967295"
    and "alloc_step B n op m s = (new, m', s')"
  shows "inv s' \<and> alloc_inv (rows s') n m' (out @ new) (Suc k)"
proof (cases op)
  case (Alloc b)
  obtain r m1 s1 where a: "allocate B n m s b = (r, m1, s1)" by (metis prod_cases3)
  from allocate_inv [OF assms(1-3) a] assms(4) Alloc a show ?thesis by auto
next
  case Restart
  obtain r m1 s1 where a: "load_from_storage B n fmempty s = (r, m1, s1)" by (metis prod_cases3)
  from restart_inv [OF assms(1,2) a] assms(4) Restart a show ?thesis by auto
next
  case Checkpoint
  with checkpoint_rows [OF assms(1)] alloc_inv_rows_cong [OF _ assms(2)] assms(4) show ?thesis by auto
qed

lemma alloc_run_inv:
  assumes "inv s" and "alloc_inv (rows s) n m out k" and "k + length ops < 4294967296"
    and "alloc_run B n ops m s = (new, m', s')"
  shows "inv s' \<and> alloc_inv (rows s') n m' (out @ new) (k + length ops)"
  using assms
proof (induction ops arbitrary: s m out k new)
  case Nil
  then show ?case by simp
next
  case (Cons op ops)
  obtain o1 m1 s1 where st: "alloc_step B n op m s = (o1, m1, s1)" by (metis prod_cases3)
  obtain o2 m2 s2 where rn: "alloc_run B n ops m1 s1 = (o2, m2, s2)" by (metis prod_cases3)
  from alloc_step_inv [OF Cons.prems(1,2) _ st] Cons.prems(3)
  have "inv s1 \<and> alloc_inv (rows s1) n m1 (out @ o1) (Suc k)" by simp
  with Cons.IH [of s1 m1 "out @ o1" "Suc k" o2] Cons.prems(3,4) st rn show ?case by auto
qed

lemma alloc_run_distinct:
  assumes "inv s" and "\<And>b. rows s (b, n) = None" and "length ops < 4294967296"
    and "alloc_run B n ops fmempty s = (out, m', s')"
  shows "distinct out"
proof -
  have "alloc_inv (rows s) n fmempty [] 0"
    by (simp add: alloc_inv_def alloc_linked_def alloc_bounded_def assms(2))
  from alloc_run_inv [OF assms(1) this _ assms(4)] assms(3) show ?thesis
    by (auto simp: alloc_inv_def)
qed

end

section \<open>Properties of the allocator\<close>



text \<open>An allocation on a sound in-memory store always returns a position and keeps the store sound, whatever the registry of
  counters holds.\<close>

theorem allocation_succeeds:
  assumes "mem_inv s"
  shows "\<exists>ep q m' s'. allocate (mem_backend sha) n m s b = (Some (ep, q), m', s') \<and> mem_inv s'"
  using mem_rows.allocate_total [OF assms] by metis

theorem allocation_succeeds_witness:
  "\<exists>ep q m' s'. allocate (mem_backend (\<lambda>x. x)) ''n'' fmempty mem_new ''b'' = (Some (ep, q), m', s') \<and> mem_inv s'"
  by (rule allocation_succeeds [OF mem_inv_new])

end
