(* ===== verification/Account.thy ===== *)
theory Account
  imports Types
begin

section \<open>Account state and request modes (\<open>apps/node/src/state.rs\<close>)\<close>

text \<open>
  The per-account state under the account lock, its reservations, and the classification of
  a create request into the four modes charge, reserve, settle and release.
\<close>

subsection \<open>Account state\<close>

record reservation_state =
  rs_origin_node_id :: string
  rs_amount :: u64
  rs_expires_at_unix_ms :: u64

record account_state =
  acct_balance :: i64
  acct_event_count :: usize
  reservations :: "(string, reservation_state) fmap"
  released :: "string fset"

definition account_new :: account_state where
  "account_new = \<lparr>acct_balance = 0, acct_event_count = 0, reservations = fmempty, released = {||}\<rparr>"

definition active_reservations :: "account_state \<Rightarrow> u64 \<Rightarrow> (string \<times> reservation_state) list" where
  "active_reservations a now_ms =
     filter (\<lambda>(i, r). rs_expires_at_unix_ms r > now_ms \<and> i |\<notin>| released a) (fm_entries (reservations a))"

definition active_hold_total :: "account_state \<Rightarrow> u64 \<Rightarrow> u64" where
  "active_hold_total a now_ms = sum_list (map (\<lambda>(_, r). rs_amount r) (active_reservations a now_ms))"

definition active_hold_total_for_origin :: "account_state \<Rightarrow> string \<Rightarrow> u64 \<Rightarrow> u64 \<Rightarrow> u64" where
  "active_hold_total_for_origin a origin now_ms min_remaining_ms =
     sum_list (map (\<lambda>(_, r). rs_amount r)
       (filter (\<lambda>(_, r). rs_origin_node_id r = origin \<and>
                  saturating_sub (rs_expires_at_unix_ms r) now_ms \<ge> min_remaining_ms)
          (active_reservations a now_ms)))"

text \<open>The total of the holds is cast to \<open>i64\<close>, which keeps the bits.\<close>

definition available_balance :: "account_state \<Rightarrow> u64 \<Rightarrow> i64" where
  "available_balance a now_ms = acct_balance a - active_hold_total a now_ms"

definition track_reservation :: "event \<Rightarrow> account_state \<Rightarrow> account_state" where
  "track_reservation e a =
     (if has_hold e then
        a\<lparr>reservations := fmupd (event_id e)
            \<lparr>rs_origin_node_id = origin_node_id e, rs_amount = hold_amount e,
             rs_expires_at_unix_ms = hold_expires_at_unix_ms e\<rparr> (reservations a)\<rparr>
      else a)"

definition apply_release :: "string \<Rightarrow> account_state \<Rightarrow> account_state" where
  "apply_release i a = a\<lparr>released := finsert i (released a)\<rparr>"

definition add_to_summary :: "reservation_state \<Rightarrow> origin_reservation_summary \<Rightarrow> origin_reservation_summary" where
  "add_to_summary r s =
     s\<lparr>ors_reserved_amount := ors_reserved_amount s + rs_amount r,
       ors_reservation_count := ors_reservation_count s + 1,
       ors_next_expiry_unix_ms := Some (case ors_next_expiry_unix_ms s of
           None \<Rightarrow> rs_expires_at_unix_ms r | Some c \<Rightarrow> min c (rs_expires_at_unix_ms r)),
       ors_latest_expiry_unix_ms := Some (case ors_latest_expiry_unix_ms s of
           None \<Rightarrow> rs_expires_at_unix_ms r | Some c \<Rightarrow> max c (rs_expires_at_unix_ms r))\<rparr>"

definition reservations_by_origin ::
  "account_state \<Rightarrow> u64 \<Rightarrow> (string, origin_reservation_summary) fmap" where
  "reservations_by_origin a now_ms =
     fold (\<lambda>(_, r) m. fmupd (rs_origin_node_id r)
             (add_to_summary r (fm_get_or m (rs_origin_node_id r) default_reservation_summary)) m)
       (active_reservations a now_ms) fmempty"

text \<open>The body of the sweep of expired holds on one account.\<close>

definition sweep_account :: "u64 \<Rightarrow> account_state \<Rightarrow> account_state" where
  "sweep_account now_ms a =
     (let expired = map fst (filter (\<lambda>(_, r). rs_expires_at_unix_ms r \<le> now_ms) (fm_entries (reservations a)))
      in fold (\<lambda>i a. a\<lparr>released := released a |-| {|i|}\<rparr>) expired
           (fold (\<lambda>i a. a\<lparr>reservations := fmdrop i (reservations a)\<rparr>) expired a))"

subsection \<open>Requests\<close>

record local_create_input =
  in_bucket :: string
  in_account :: string
  in_amount :: i64
  in_note :: "string option"
  in_max_overdraft :: u64
  in_idempotency_nonce :: string
  in_allow_reserved_bucket :: bool
  in_hold_amount :: "u64 option"
  in_hold_expires_at_unix_ms :: "u64 option"
  in_settle_reservation :: "string option"
  in_release_reservation :: "string option"
  in_skip_hold :: bool
  in_transfer_to :: "string option"

definition legacy ::
  "string \<Rightarrow> string \<Rightarrow> i64 \<Rightarrow> string option \<Rightarrow> u64 \<Rightarrow> string \<Rightarrow> bool \<Rightarrow> local_create_input" where
  "legacy b a amt note max_overdraft nonce allow =
     \<lparr>in_bucket = b, in_account = a, in_amount = amt, in_note = note, in_max_overdraft = max_overdraft,
      in_idempotency_nonce = nonce, in_allow_reserved_bucket = allow, in_hold_amount = None,
      in_hold_expires_at_unix_ms = None, in_settle_reservation = None, in_release_reservation = None,
      in_skip_hold = False, in_transfer_to = None\<rparr>"

record local_create_result =
  primary_event :: event
  emitted_events :: "event list"

datatype local_create_mode =
    Charge "(u64 \<times> u64) option"
  | Reserve
  | Settle string
  | Release string

datatype create_local_event_error =
    InsufficientFunds i64 i64 i64 bool
  | BucketReserved string
  | BucketDeleted string
  | InvalidRequest string
  | ReservationNotFound string
  | ReservationExpired string
  | ReservationAlreadyReleased string
  | ReservationOverspend u64 u64

definition in_idem_key :: "local_create_input \<Rightarrow> idem_key" where
  "in_idem_key inp = (in_idempotency_nonce inp, in_bucket inp, in_account inp, in_amount inp)"

text \<open>\<open>LocalCreateMode::from_input\<close>, with the clock read of the expiry check as an argument.\<close>

definition explicit_hold :: "local_create_input \<Rightarrow> create_local_event_error + (u64 \<times> u64) option" where
  "explicit_hold inp = (case (in_hold_amount inp, in_hold_expires_at_unix_ms inp) of
       (Some amt, Some ex) \<Rightarrow> Inr (Some (amt, ex))
     | (None, None) \<Rightarrow> Inr None
     | _ \<Rightarrow> Inl (InvalidRequest ''hold_amount and hold_expires_at_unix_ms must be set together''))"

definition from_input :: "u64 \<Rightarrow> local_create_input \<Rightarrow> create_local_event_error + local_create_mode" where
  "from_input now inp =
     (let has_settle = in_settle_reservation inp \<noteq> None;
          has_release = in_release_reservation inp \<noteq> None
      in if has_settle \<and> has_release
         then Inl (InvalidRequest ''settle_reservation and release_reservation are mutually exclusive'')
         else case explicit_hold inp of
           Inl err \<Rightarrow> Inl err
         | Inr hold \<Rightarrow>
           if in_skip_hold inp \<and> (has_settle \<or> has_release)
           then Inl (InvalidRequest ''skip_hold cannot be combined with settle/release'')
           else if in_skip_hold inp \<and> hold \<noteq> None
           then Inl (InvalidRequest ''skip_hold cannot be combined with explicit hold fields'')
           else case in_settle_reservation inp of
             Some rid \<Rightarrow>
               if \<not> in_amount inp <s 0
               then Inl (InvalidRequest ''settle_reservation requires a debit (amount < 0)'')
               else if hold \<noteq> None
               then Inl (InvalidRequest ''settle_reservation cannot be combined with explicit hold fields'')
               else Inr (Settle rid)
           | None \<Rightarrow>
             (case in_release_reservation inp of
                Some rid \<Rightarrow>
                  if in_amount inp \<noteq> 0
                  then Inl (InvalidRequest ''release_reservation requires amount == 0'')
                  else if hold \<noteq> None
                  then Inl (InvalidRequest ''release_reservation cannot be combined with explicit hold fields'')
                  else Inr (Release rid)
              | None \<Rightarrow>
                (case hold of
                   Some (amt, ex) \<Rightarrow>
                     if amt = 0 then Inl (InvalidRequest ''hold_amount must be > 0 when supplied'')
                     else if ex \<le> now then Inl (InvalidRequest ''hold_expires_at_unix_ms must be in the future'')
                     else if in_amount inp = 0 then Inr Reserve
                     else if 0 <s in_amount inp then Inl (InvalidRequest ''credits cannot carry a hold'')
                     else Inr (Charge (Some (amt, ex)))
                 | None \<Rightarrow>
                     if in_skip_hold inp then Inr (Charge (Some (0, 0))) else Inr (Charge None))))"

subsection \<open>Application of a replicated event to its account\<close>

text \<open>
  The account section of \<open>insert_event\<close>: the balance and the counter move, a hold is tracked
  and a release marks its reservation.
\<close>

definition release_of :: "event \<Rightarrow> account_state \<Rightarrow> account_state" where
  "release_of e a =
     (case void_ref e of
        Some i \<Rightarrow> if etype e = HoldRelease then apply_release i a else a
      | None \<Rightarrow> a)"

definition count_event :: "i64 \<Rightarrow> account_state \<Rightarrow> account_state" where
  "count_event amt a = a\<lparr>acct_balance := acct_balance a + amt, acct_event_count := acct_event_count a + 1\<rparr>"

definition apply_event :: "event \<Rightarrow> account_state \<Rightarrow> account_state" where
  "apply_event e a = release_of e (track_reservation e (count_event (amount e) a))"

section \<open>Properties of account state\<close>

lemma apply_event_simps [simp]:
  "acct_balance (apply_event e a) = acct_balance a + amount e"
  "acct_event_count (apply_event e a) = acct_event_count a + 1"
  by (auto simp: apply_event_def release_of_def track_reservation_def count_event_def apply_release_def
      split: option.splits)

lemma apply_event_released:
  "released (apply_event e a) =
     (if etype e = HoldRelease then (case void_ref e of Some i \<Rightarrow> finsert i (released a) | None \<Rightarrow> released a) else released a)"
  by (auto simp: apply_event_def release_of_def track_reservation_def count_event_def apply_release_def
      split: option.splits)

definition reservation_of :: "event \<Rightarrow> reservation_state" where
  "reservation_of e = \<lparr>rs_origin_node_id = origin_node_id e, rs_amount = hold_amount e,
     rs_expires_at_unix_ms = hold_expires_at_unix_ms e\<rparr>"

lemma apply_event_reservations:
  "reservations (apply_event e a) =
     (if has_hold e then fmupd (event_id e) (reservation_of e) (reservations a) else reservations a)"
  by (auto simp: apply_event_def release_of_def track_reservation_def count_event_def apply_release_def
      reservation_of_def split: option.splits)

lemma account_state_eqI:
  "acct_balance a = acct_balance b \<Longrightarrow> acct_event_count a = acct_event_count b \<Longrightarrow>
   reservations a = reservations b \<Longrightarrow> released a = released b \<Longrightarrow> (a :: account_state) = b"
  by simp

text \<open>Two events are compatible when their ids differ or they are the same event.\<close>

definition compatible :: "event \<Rightarrow> event \<Rightarrow> bool" where
  "compatible e f \<longleftrightarrow> (event_id e = event_id f \<longrightarrow> e = f)"

lemma apply_event_commute:
  assumes "compatible e f"
  shows "apply_event e (apply_event f a) = apply_event f (apply_event e a)"
proof (rule account_state_eqI)
  show "reservations (apply_event e (apply_event f a)) = reservations (apply_event f (apply_event e a))"
    using assms fmupd_reorder_neq [of "event_id e" "event_id f" "reservation_of e" "reservation_of f"]
    by (auto simp: apply_event_reservations compatible_def)
  show "released (apply_event e (apply_event f a)) = released (apply_event f (apply_event e a))"
    by (auto simp: apply_event_released split: option.splits)
qed (simp_all add: algebra_simps)

interpretation account_replay: commuting_updates apply_event compatible
  by unfold_locales (rule apply_event_commute)

subsection \<open>Request modes\<close>

lemma negative_i64: "a \<noteq> 0 \<Longrightarrow> \<not> 0 <s a \<Longrightarrow> (a :: i64) <s 0"
  by (metis signed_less_sint sint_0 linorder_neqE_linordered_idom signed_word_eqI)

text \<open>What the chosen mode guarantees about the request.\<close>

definition mode_sound :: "u64 \<Rightarrow> local_create_input \<Rightarrow> local_create_mode \<Rightarrow> bool" where
  "mode_sound now inp m = (case m of
       Charge None \<Rightarrow> in_hold_amount inp = None \<and> in_settle_reservation inp = None \<and> in_release_reservation inp = None \<and>
         \<not> in_skip_hold inp
     | Charge (Some (h, x)) \<Rightarrow> in_settle_reservation inp = None \<and> in_release_reservation inp = None \<and>
         (if in_skip_hold inp then h = 0 \<and> x = 0
          else in_hold_amount inp = Some h \<and> in_hold_expires_at_unix_ms inp = Some x \<and> h > 0 \<and> x > now \<and> in_amount inp <s 0)
     | Reserve \<Rightarrow> in_amount inp = 0 \<and> (\<exists>h x. in_hold_amount inp = Some h \<and> in_hold_expires_at_unix_ms inp = Some x \<and>
         h > 0 \<and> x > now)
     | Settle rid \<Rightarrow> in_settle_reservation inp = Some rid \<and> in_amount inp <s 0 \<and> in_hold_amount inp = None
     | Release rid \<Rightarrow> in_release_reservation inp = Some rid \<and> in_amount inp = 0 \<and> in_hold_amount inp = None)"

lemma explicit_hold_cases:
  assumes "explicit_hold inp = Inr hold"
  shows "(case hold of None \<Rightarrow> in_hold_amount inp = None
          | Some (h, x) \<Rightarrow> in_hold_amount inp = Some h \<and> in_hold_expires_at_unix_ms inp = Some x)"
  using assms by (auto simp: explicit_hold_def split: option.splits)

lemma from_input_sound: "from_input now inp = Inr m \<Longrightarrow> mode_sound now inp m"
  unfolding from_input_def Let_def mode_sound_def
  by (auto split: if_splits option.splits sum.splits prod.splits dest!: explicit_hold_cases intro: negative_i64 simp: word_gt_0 not_le)

subsection \<open>Holds\<close>

definition hold_weight :: "string fset \<Rightarrow> u64 \<Rightarrow> string \<Rightarrow> reservation_state \<Rightarrow> u64" where
  "hold_weight rel now i r = (if rs_expires_at_unix_ms r > now \<and> i |\<notin>| rel then rs_amount r else 0)"

lemma sum_list_filter_zero:
  "sum_list (map f (filter P xs)) = sum_list (map (\<lambda>x. if P x then f x else 0) xs)"
  by (induction xs) auto

lemma active_hold_total_sum:
  "active_hold_total a now = fm_sum (hold_weight (released a) now) (reservations a)"
  unfolding active_hold_total_def active_reservations_def fm_sum_def sum_list_filter_zero
  by (rule arg_cong [of _ _ sum_list]) (auto simp: hold_weight_def split: if_splits)

lemma active_hold_total_new [simp]: "active_hold_total account_new now = 0"
  by (simp add: active_hold_total_sum account_new_def)

lemma available_balance_new [simp]: "available_balance account_new now = 0"
  by (simp add: available_balance_def) (simp add: account_new_def)

text \<open>A fresh reservation withholds its amount; releasing it gives exactly that back.\<close>

lemma active_hold_total_track:
  assumes "has_hold e" and "fmlookup (reservations a) (event_id e) = None" and "event_id e |\<notin>| released a"
    and "hold_expires_at_unix_ms e > now"
  shows "active_hold_total (track_reservation e a) now = active_hold_total a now + hold_amount e"
  using assms by (simp add: active_hold_total_sum track_reservation_def fm_sum_upd_fresh hold_weight_def)

lemma active_hold_total_release:
  assumes l: "fmlookup (reservations a) i = Some r" and "i |\<notin>| released a" and "rs_expires_at_unix_ms r > now"
  shows "active_hold_total (apply_release i a) now = active_hold_total a now - rs_amount r"
proof -
  let ?m = "reservations a"
  have "fm_sum (hold_weight (finsert i (released a)) now) (fmdrop i ?m) = fm_sum (hold_weight (released a) now) (fmdrop i ?m)"
    by (rule fm_sum_cong) (auto simp: hold_weight_def)
  then show ?thesis
    using assms by (simp add: active_hold_total_sum apply_release_def fm_sum_split [OF l] hold_weight_def)
qed

lemma active_hold_total_count [simp]:
  "active_hold_total (count_event amt a) now = active_hold_total a now"
  by (simp add: active_hold_total_sum count_event_def)

text \<open>The sweep forgets only what has expired.\<close>

lemma fold_drop_reservations:
  "fold (\<lambda>i a. a\<lparr>reservations := fmdrop i (reservations a)\<rparr>) ids a = a\<lparr>reservations := fmdrop_set (set ids) (reservations a)\<rparr>"
proof (induction ids arbitrary: a)
  case (Cons i ids)
  have "fmdrop_set (set ids) (fmdrop i (reservations a)) = fmdrop_set (insert i (set ids)) (reservations a)"
    by (rule fmap_ext) auto
  with Cons show ?case by simp
qed simp

lemma fold_drop_released:
  "fold (\<lambda>i a. a\<lparr>released := released a |-| {|i|}\<rparr>) ids a = a\<lparr>released := released a |-| fset_of_list ids\<rparr>"
proof (induction ids arbitrary: a)
  case (Cons i ids)
  have "released a |-| {|i|} |-| fset_of_list ids = released a |-| finsert i (fset_of_list ids)" by auto
  with Cons show ?case by simp
qed simp

definition expired_ids :: "account_state \<Rightarrow> u64 \<Rightarrow> string set" where
  "expired_ids a now = {i. \<exists>r. fmlookup (reservations a) i = Some r \<and> rs_expires_at_unix_ms r \<le> now}"

lemma set_expired:
  "set (map fst (filter (\<lambda>(_, r). rs_expires_at_unix_ms r \<le> now) (fm_entries (reservations a)))) = expired_ids a now"
  by (force simp: expired_ids_def)

lemma sweep_account_fields:
  "acct_balance (sweep_account now a) = acct_balance a"
  "acct_event_count (sweep_account now a) = acct_event_count a"
  "reservations (sweep_account now a) = fmfilter (\<lambda>i. i \<notin> expired_ids a now) (reservations a)"
  "i |\<in>| released (sweep_account now a) \<longleftrightarrow> i |\<in>| released a \<and> i \<notin> expired_ids a now"
proof -
  have d: "fmdrop_set (expired_ids a now) m = fmfilter (\<lambda>i. i \<notin> expired_ids a now) m" for m :: "(string, reservation_state) fmap"
    by (rule fmap_ext) auto
  show "acct_balance (sweep_account now a) = acct_balance a"
    "acct_event_count (sweep_account now a) = acct_event_count a"
    "reservations (sweep_account now a) = fmfilter (\<lambda>i. i \<notin> expired_ids a now) (reservations a)"
    by (simp_all add: sweep_account_def Let_def fold_drop_reservations fold_drop_released set_expired d del: set_map set_filter)
  show "i |\<in>| released (sweep_account now a) \<longleftrightarrow> i |\<in>| released a \<and> i \<notin> expired_ids a now"
  proof -
    define ex where "ex = map fst (filter (\<lambda>(_, r). rs_expires_at_unix_ms r \<le> now) (fm_entries (reservations a)))"
    have "released (sweep_account now a) = released a |-| fset_of_list ex"
      by (simp only: sweep_account_def Let_def fold_drop_reservations fold_drop_released ex_def) simp
    moreover have "set ex = expired_ids a now" unfolding ex_def by (rule set_expired)
    ultimately show ?thesis by (simp add: fset_of_list_elem)
  qed
qed

lemma sweep_active_reservations:
  assumes "now \<le> later"
  shows "(i, r) \<in> set (active_reservations (sweep_account now a) later) \<longleftrightarrow>
         (i, r) \<in> set (active_reservations a later)"
  using assms by (auto simp: active_reservations_def sweep_account_fields expired_ids_def)

lemma sweep_active_hold_total:
  assumes "now \<le> later"
  shows "active_hold_total (sweep_account now a) later = active_hold_total a later"
  unfolding active_hold_total_sum sweep_account_fields(3) fm_sum_filter
  by (rule fm_sum_cong) (use assms in \<open>auto simp: hold_weight_def sweep_account_fields(4) expired_ids_def\<close>)

end
