(* ===== verification/Node_State.thy ===== *)
theory Node_State
  imports Allocator Account
begin

section \<open>The state of a node (\<open>apps/node/src/state.rs\<close>)\<close>

text \<open>
  \<open>SharedState\<close> as a record over the storage state \<open>'s\<close>. An operation is a function on the
  record; it takes the backend dictionary \<open>B\<close>, the hash \<open>sha\<close>, and an environment that
  supplies the clock readings and the generated event ids of the call, numbered in program
  order. A channel is the list of what was sent on it; its receiver keeps a cursor. The
  per-account mutex and the per-chain head lock make an operation one step here, so the locks
  themselves carry no state.
\<close>

record 's shared_state =
  node_id :: string
  addr :: string
  storage :: 's
  bucket_allocators :: allocators
  accounts :: "(balance_key, account_state) fmap"
  heads :: "(epoch_key, u64) fmap"
  pending_seqs :: "(epoch_key, u64 fset) fmap"
  account_origin_epochs :: "(balance_key, epoch_key fset) fmap"
  max_known_seqs :: "(epoch_key, u64) fmap"
  event_buffer :: "(origin_key, event) fmap"
  unpersisted :: "(origin_key, u64) fmap"
  idempotency_cache :: "(idem_key, event) fmap"
  batch_tx :: "event list"
  total_event_count :: usize
  hold_multiplier :: u64
  hold_duration_ms :: u64
  phase :: u8
  correction_tx :: "event list"
  digests :: "(epoch_key, u64 \<times> bytes) fmap"
  deleted_buckets :: "(string, u64) fmap"

record env =
  env_now :: "nat \<Rightarrow> u64"
  env_id :: "nat \<Rightarrow> string"

subsection \<open>Contiguous heads and digests\<close>

function drain :: "u64 fset \<Rightarrow> u64 \<Rightarrow> u64 fset \<times> u64" where
  "drain p h = (if h + 1 |\<in>| p then drain (p |-| {|h + 1|}) (h + 1) else (p, h))"
  by pat_completeness auto
termination
  by (relation "measure (\<lambda>(p, h). fcard p)") (auto dest: fcard_fminus1_less)

declare drain.simps [simp del]

definition drain_pending :: "epoch_key \<Rightarrow> u64 \<Rightarrow> 's shared_state \<Rightarrow> u64 \<times> 's shared_state" where
  "drain_pending ek current_head st =
     (case fmlookup (pending_seqs st) ek of
        None \<Rightarrow> (current_head, st)
      | Some p \<Rightarrow> (case drain p current_head of
          (p', h) \<Rightarrow> (h, st\<lparr>pending_seqs := fmupd ek p' (pending_seqs st)\<rparr>)))"

definition zero_digest :: bytes where
  "zero_digest = replicate 32 (CHR 0x00)"

definition digest_step :: "(bytes \<Rightarrow> bytes) \<Rightarrow> event \<Rightarrow> bytes \<Rightarrow> bytes" where
  "digest_step sha e d = sha (d @ sha (canonical e))"

definition update_digest ::
  "(bytes \<Rightarrow> bytes) \<Rightarrow> epoch_key \<Rightarrow> u64 \<Rightarrow> u64 \<Rightarrow> 's shared_state \<Rightarrow> bytes \<times> 's shared_state" where
  "update_digest sha ek old_head new_head st =
     (let start = (case fmlookup (digests st) ek of Some (_, d) \<Rightarrow> d | None \<Rightarrow> zero_digest);
          d = fold (\<lambda>q d. case fmlookup (event_buffer st) (mk_origin_key ek q) of
                            Some e \<Rightarrow> digest_step sha e d | None \<Rightarrow> d)
                (word_range (old_head + 1) new_head) start
      in (d, st\<lparr>digests := fmupd ek (new_head, d) (digests st)\<rparr>))"

definition prune_persisted_buffer_range :: "epoch_key \<Rightarrow> u64 \<Rightarrow> u64 \<Rightarrow> 's shared_state \<Rightarrow> 's shared_state" where
  "prune_persisted_buffer_range ek from_seq to_seq st =
     (if from_seq > to_seq then st
      else fold (\<lambda>q st. if \<not> fm_contains (unpersisted st) (mk_origin_key ek q)
                        then st\<lparr>event_buffer := fmdrop (mk_origin_key ek q) (event_buffer st)\<rparr> else st)
             (word_range from_seq to_seq) st)"

definition advance_head ::
  "'s backend \<Rightarrow> (bytes \<Rightarrow> bytes) \<Rightarrow> epoch_key \<Rightarrow> u64 \<Rightarrow> 's shared_state \<Rightarrow> 's shared_state" where
  "advance_head B sha ek seq st =
     (let current = fm_get_or (heads st) ek 0
      in if seq = current + 1 then
           (case drain_pending ek seq st of
              (new_head, st1) \<Rightarrow> (case update_digest sha ek current new_head st1 of
                (digest, st2) \<Rightarrow>
                  let st3 = st2\<lparr>heads := fmupd ek new_head (heads st2)\<rparr>;
                      st4 = prune_persisted_buffer_range ek (current + 1) new_head st3
                  in case ek of (b, origin, ep) \<Rightarrow>
                       st4\<lparr>storage := snd (be_save_digest B (storage st4) b origin ep new_head digest)\<rparr>))
         else if seq > current + 1 then
           st\<lparr>pending_seqs := fmupd ek (finsert seq (fm_get_or (pending_seqs st) ek {||})) (pending_seqs st),
              heads := fm_or_insert ek current (heads st)\<rparr>
         else st)"

definition update_origin_tracking :: "event \<Rightarrow> 's shared_state \<Rightarrow> 's shared_state" where
  "update_origin_tracking e st =
     st\<lparr>account_origin_epochs := fmupd (balance_key e)
          (finsert (epoch_key e) (fm_get_or (account_origin_epochs st) (balance_key e) {||})) (account_origin_epochs st),
        max_known_seqs := fmupd (epoch_key e)
          (case fmlookup (max_known_seqs st) (epoch_key e) of
             Some m \<Rightarrow> if origin_seq e > m then origin_seq e else m | None \<Rightarrow> origin_seq e) (max_known_seqs st)\<rparr>"

definition store_event_buffer :: "event \<Rightarrow> 's shared_state \<Rightarrow> 's shared_state" where
  "store_event_buffer e st =
     st\<lparr>event_buffer := fmupd (origin_key e) e (event_buffer st),
        unpersisted := fmupd (origin_key e) (created_at_unix_ms e) (unpersisted st)\<rparr>"

definition count_and_send :: "event \<Rightarrow> 's shared_state \<Rightarrow> 's shared_state" where
  "count_and_send e st =
     st\<lparr>total_event_count := total_event_count st + 1, batch_tx := batch_tx st @ [e]\<rparr>"

definition record_new_local_event ::
  "'s backend \<Rightarrow> (bytes \<Rightarrow> bytes) \<Rightarrow> event \<Rightarrow> 's shared_state \<Rightarrow> 's shared_state" where
  "record_new_local_event B sha e st =
     count_and_send e (update_origin_tracking e
       (advance_head B sha (epoch_key e) (origin_seq e) (store_event_buffer e st)))"

fun contiguous_from :: "u64 \<Rightarrow> u64 list \<Rightarrow> u64" where
  "contiguous_from head [] = head"
| "contiguous_from head (q # qs) =
     (if q = head + 1 then contiguous_from q qs
      else if q > head + 1 then head
      else contiguous_from head qs)"

definition compute_contiguous_head :: "u64 list \<Rightarrow> u64" where
  "compute_contiguous_head seqs = contiguous_from 0 seqs"

subsection \<open>Account access\<close>

definition account_at :: "'s shared_state \<Rightarrow> balance_key \<Rightarrow> account_state" where
  "account_at st k = fm_get_or (accounts st) k account_new"

definition with_account :: "balance_key \<Rightarrow> (account_state \<Rightarrow> account_state) \<Rightarrow> 's shared_state \<Rightarrow> 's shared_state" where
  "with_account k f st = st\<lparr>accounts := fmupd k (f (account_at st k)) (accounts st)\<rparr>"

definition cache_event :: "idem_key \<Rightarrow> event \<Rightarrow> 's shared_state \<Rightarrow> 's shared_state" where
  "cache_event k e st = st\<lparr>idempotency_cache := fmupd k e (idempotency_cache st)\<rparr>"

definition allocate_in ::
  "'s backend \<Rightarrow> string \<Rightarrow> 's shared_state \<Rightarrow> (u32 \<times> u64) option \<times> 's shared_state" where
  "allocate_in B b st =
     (case allocate B (node_id st) (bucket_allocators st) (storage st) b of
        (r, m, s) \<Rightarrow> (r, st\<lparr>bucket_allocators := m, storage := s\<rparr>))"

subsection \<open>Replication\<close>

definition event_is_present :: "event \<Rightarrow> 's shared_state \<Rightarrow> bool" where
  "event_is_present e st =
     (case fmlookup (event_buffer st) (origin_key e) of
        Some x \<Rightarrow> event_id x = event_id e
      | None \<Rightarrow>
          origin_seq e |\<in>| fm_get_or (pending_seqs st) (epoch_key e) {||} \<or>
          origin_seq e \<le> fm_get_or (heads st) (epoch_key e) 0)"

definition apply_bucket_delete_cascade :: "'s backend \<Rightarrow> string \<Rightarrow> 's shared_state \<Rightarrow> 's shared_state" where
  "apply_bucket_delete_cascade B b st =
     (if b = META_BUCKET then st
      else st\<lparr>storage := snd (be_delete_bucket_cascade B (storage st) b),
              heads := fmfilter (\<lambda>k. fst k \<noteq> b) (heads st),
              pending_seqs := fmfilter (\<lambda>k. fst k \<noteq> b) (pending_seqs st),
              max_known_seqs := fmfilter (\<lambda>k. fst k \<noteq> b) (max_known_seqs st),
              digests := fmfilter (\<lambda>k. fst k \<noteq> b) (digests st),
              event_buffer := fmfilter (\<lambda>k. fst k \<noteq> b) (event_buffer st),
              unpersisted := fmfilter (\<lambda>k. fst k \<noteq> b) (unpersisted st),
              accounts := fmfilter (\<lambda>k. fst k \<noteq> b) (accounts st),
              account_origin_epochs := fmfilter (\<lambda>k. fst k \<noteq> b) (account_origin_epochs st),
              idempotency_cache := fmfilter (\<lambda>k. fst (snd k) \<noteq> b) (idempotency_cache st),
              bucket_allocators := forget b (bucket_allocators st)\<rparr>)"

definition apply_correction_event ::
  "'s backend \<Rightarrow> (bytes \<Rightarrow> bytes) \<Rightarrow> event \<Rightarrow> 's shared_state \<Rightarrow> 's shared_state" where
  "apply_correction_event B sha e st =
     (let st1 = with_account (balance_key e) (\<lambda>a. release_of e (count_event (amount e) a)) (store_event_buffer e st);
          st2 = update_origin_tracking e (advance_head B sha (epoch_key e) (origin_seq e) st1);
          st3 = cache_event (idempotency_key e) e (st2\<lparr>total_event_count := total_event_count st2 + 1\<rparr>)
      in st3\<lparr>batch_tx := batch_tx st3 @ [e], correction_tx := correction_tx st3 @ [e]\<rparr>)"

definition void_event :: "env \<Rightarrow> string \<Rightarrow> u32 \<times> u64 \<Rightarrow> event \<Rightarrow> event \<Rightarrow> event" where
  "void_event en me pos winner loser =
     \<lparr>event_id = env_id en 0, origin_node_id = me, origin_epoch = fst pos, origin_seq = snd pos,
      created_at_unix_ms = env_now en 0, etype = Void, bucket = bucket loser, account = account loser,
      amount = - amount loser, event_note = Some (''void: duplicate of event '' @ event_id winner),
      idempotency_nonce = ''void:'' @ event_id loser, void_ref = Some (event_id loser),
      hold_amount = 0, hold_expires_at_unix_ms = 0, transfer_to = None\<rparr>"

definition conflict_release_event :: "env \<Rightarrow> string \<Rightarrow> u32 \<times> u64 \<Rightarrow> event \<Rightarrow> event \<Rightarrow> event" where
  "conflict_release_event en me pos winner loser =
     \<lparr>event_id = env_id en 1, origin_node_id = me, origin_epoch = fst pos, origin_seq = snd pos,
      created_at_unix_ms = env_now en 1, etype = HoldRelease, bucket = bucket loser, account = account loser,
      amount = 0, event_note = Some (''release hold: duplicate of event '' @ event_id winner),
      idempotency_nonce = ''release:'' @ event_id loser, void_ref = Some (event_id loser),
      hold_amount = 0, hold_expires_at_unix_ms = 0, transfer_to = None\<rparr>"

text \<open>The second half of the correction: release the hold of the losing event.\<close>

definition release_loser_hold ::
  "'s backend \<Rightarrow> (bytes \<Rightarrow> bytes) \<Rightarrow> env \<Rightarrow> event \<Rightarrow> event \<Rightarrow> 's shared_state \<Rightarrow> 's shared_state" where
  "release_loser_hold B sha en winner loser st =
     (if has_hold loser \<and>
         \<not> fm_contains (idempotency_cache st) (''release:'' @ event_id loser, bucket loser, account loser, 0)
      then (case allocate_in B (bucket loser) st of
              (None, st1) \<Rightarrow> st1
            | (Some pos, st1) \<Rightarrow>
                apply_correction_event B sha (conflict_release_event en (node_id st1) pos winner loser) st1)
      else st)"

text \<open>The correction of one losing event: the void, then the release.\<close>

definition void_loser ::
  "'s backend \<Rightarrow> (bytes \<Rightarrow> bytes) \<Rightarrow> env \<Rightarrow> event \<Rightarrow> event \<Rightarrow> 's shared_state \<Rightarrow> 's shared_state" where
  "void_loser B sha en winner loser st =
     (let void_nonce = ''void:'' @ event_id loser
      in if fm_contains (idempotency_cache st) (void_nonce, bucket loser, account loser, - amount loser) then st
         else if (case be_find_by_idempotency_key B (storage st) void_nonce (bucket loser) (account loser) (- amount loser) of
                    Some ms \<Rightarrow> ms \<noteq> [] | None \<Rightarrow> False) then st
         else case allocate_in B (bucket loser) st of
           (None, st1) \<Rightarrow> st1
         | (Some pos, st1) \<Rightarrow>
             release_loser_hold B sha en winner loser
               (apply_correction_event B sha (void_event en (node_id st1) pos winner loser) st1))"

definition check_idempotency_conflict ::
  "'s backend \<Rightarrow> (bytes \<Rightarrow> bytes) \<Rightarrow> env \<Rightarrow> event \<Rightarrow> 's shared_state \<Rightarrow> 's shared_state" where
  "check_idempotency_conflict B sha en e st =
     (case fmlookup (idempotency_cache st) (idempotency_key e) of
        Some x \<Rightarrow>
          if event_id x \<noteq> event_id e then
            (case idempotency_winner x e of
               (winner, loser) \<Rightarrow>
                 void_loser B sha en winner loser (cache_event (idempotency_key e) winner st))
          else cache_event (idempotency_key e) e st
      | None \<Rightarrow> cache_event (idempotency_key e) e st)"

text \<open>The tombstone of a replicated \<open>BucketDelete\<close>.\<close>

definition apply_meta ::
  "'s backend \<Rightarrow> event \<Rightarrow> 's shared_state \<Rightarrow> 's shared_state" where
  "apply_meta B e st =
     (case meta_target_bucket e of
        Some target \<Rightarrow>
          if target \<noteq> META_BUCKET then
            apply_bucket_delete_cascade B target
              (st\<lparr>deleted_buckets := fmupd target (created_at_unix_ms e) (deleted_buckets st)\<rparr>)
          else st
      | None \<Rightarrow> st)"

definition insert_event ::
  "'s backend \<Rightarrow> (bytes \<Rightarrow> bytes) \<Rightarrow> env \<Rightarrow> event \<Rightarrow> 's shared_state \<Rightarrow> bool \<times> 's shared_state" where
  "insert_event B sha en e st =
     (if fm_contains (deleted_buckets st) (bucket e) then (False, st)
      else if event_is_present e st then (False, st)
      else if fm_contains (event_buffer st) (origin_key e) then (False, st)
      else
        let st1 = apply_meta B e (st\<lparr>event_buffer := fmupd (origin_key e) e (event_buffer st)\<rparr>);
            st2 = with_account (balance_key e) (apply_event e) st1;
            st3 = st2\<lparr>unpersisted := fmupd (origin_key e) (created_at_unix_ms e) (unpersisted st2)\<rparr>;
            st4 = update_origin_tracking e (advance_head B sha (epoch_key e) (origin_seq e) st3)
        in (True, check_idempotency_conflict B sha en e (count_and_send e st4)))"

fun insert_events_batch ::
  "'s backend \<Rightarrow> (bytes \<Rightarrow> bytes) \<Rightarrow> (event \<times> env) list \<Rightarrow> 's shared_state \<Rightarrow> usize \<times> 's shared_state" where
  "insert_events_batch B sha [] st = (0, st)"
| "insert_events_batch B sha ((e, en) # es) st =
     (case insert_event B sha en e st of
        (new, st1) \<Rightarrow> (case insert_events_batch B sha es st1 of
          (n, st2) \<Rightarrow> (if new then n + 1 else n, st2)))"

subsection \<open>Reads\<close>

definition total_balance :: "'s shared_state \<Rightarrow> i64" where
  "total_balance st = sum_list (map acct_balance (fm_values (accounts st)))"

definition state_account_balance :: "'s shared_state \<Rightarrow> string \<Rightarrow> string \<Rightarrow> i64" where
  "state_account_balance st b a =
     (case fmlookup (accounts st) (b, a) of Some x \<Rightarrow> acct_balance x | None \<Rightarrow> 0)"

definition account_available_balance :: "u64 \<Rightarrow> 's shared_state \<Rightarrow> string \<Rightarrow> string \<Rightarrow> i64" where
  "account_available_balance now st b a =
     (case fmlookup (accounts st) (b, a) of Some x \<Rightarrow> available_balance x now | None \<Rightarrow> 0)"

definition get_all_balances :: "u64 \<Rightarrow> 's shared_state \<Rightarrow> account_balance list" where
  "get_all_balances now st =
     sort_key (\<lambda>r. (ab_bucket r, ab_account r))
       (map (\<lambda>((b, a), s). \<lparr>ab_bucket = b, ab_account = a, ab_balance = acct_balance s,
               ab_available_balance = available_balance s now, ab_active_hold_total = active_hold_total s now,
               ab_reserved_by_origin = reservations_by_origin s now, ab_event_count = acct_event_count s\<rparr>)
         (fm_entries (accounts st)))"

definition show_epoch_key :: "epoch_key \<Rightarrow> string" where
  "show_epoch_key ek = (case ek of (b, origin, ep) \<Rightarrow> b @ [CHR 0x09] @ origin @ '':'' @ show_u32 ep)"

definition collect_by_key :: "(epoch_key, 'v) fmap \<Rightarrow> (string, 'v) fmap" where
  "collect_by_key m = fold (\<lambda>(ek, v). fmupd (show_epoch_key ek) v) (fm_entries m) fmempty"

definition get_heads :: "'s shared_state \<Rightarrow> (string, u64) fmap" where
  "get_heads st = collect_by_key (heads st)"

definition get_max_known_seqs :: "'s shared_state \<Rightarrow> (string, u64) fmap" where
  "get_max_known_seqs st = collect_by_key (max_known_seqs st)"

definition state_event_count :: "'s shared_state \<Rightarrow> usize" where
  "state_event_count st = total_event_count st"

definition gap_of :: "'s shared_state \<Rightarrow> epoch_key \<Rightarrow> u64 \<Rightarrow> u64" where
  "gap_of st ek max_known = saturating_sub max_known (fm_get_or (heads st) ek 0)"

definition sync_gap :: "'s shared_state \<Rightarrow> u64" where
  "sync_gap st = fold max (map (\<lambda>(ek, m). gap_of st ek m) (fm_entries (max_known_seqs st))) 0"

definition sync_gap_per_bucket :: "'s shared_state \<Rightarrow> (string, u64) fmap" where
  "sync_gap_per_bucket st =
     fold (\<lambda>(ek, m) acc. let gap = gap_of st ek m; slot = fm_get_or acc (fst ek) 0
             in fmupd (fst ek) (if gap > slot then gap else slot) acc)
       (fm_entries (max_known_seqs st)) fmempty"

definition get_digests :: "'s shared_state \<Rightarrow> (string, u64 \<times> string) fmap" where
  "get_digests st = collect_by_key (fmmap (\<lambda>(h, d). (h, hex d)) (digests st))"

definition sweep_expired_holds :: "u64 \<Rightarrow> 's shared_state \<Rightarrow> 's shared_state" where
  "sweep_expired_holds now st = st\<lparr>accounts := fmmap (sweep_account now) (accounts st)\<rparr>"

definition get_events_from_buffer ::
  "'s shared_state \<Rightarrow> string \<Rightarrow> string \<Rightarrow> u32 \<Rightarrow> u64 \<Rightarrow> u64 \<Rightarrow> event list" where
  "get_events_from_buffer st b origin ep from_seq to_seq =
     List.map_filter (\<lambda>q. fmlookup (event_buffer st) (b, origin, ep, q)) (word_range from_seq to_seq)"

subsection \<open>Persistence tracking\<close>

definition mark_persisted_one :: "origin_key \<Rightarrow> 's shared_state \<Rightarrow> 's shared_state" where
  "mark_persisted_one k st =
     (let st1 = st\<lparr>unpersisted := fmdrop k (unpersisted st)\<rparr>;
          ek = epoch_of_origin_key k;
          q = seq_of_origin_key k;
          head = fm_get_or (heads st1) ek 0;
          still_pending = q |\<in>| fm_get_or (pending_seqs st1) ek {||}
      in if q \<le> head \<and> \<not> still_pending
         then st1\<lparr>event_buffer := fmdrop k (event_buffer st1)\<rparr> else st1)"

definition mark_persisted :: "origin_key list \<Rightarrow> 's shared_state \<Rightarrow> 's shared_state" where
  "mark_persisted ks st = fold mark_persisted_one ks st"

definition get_unpersisted_events :: "u64 \<Rightarrow> 's shared_state \<Rightarrow> event list" where
  "get_unpersisted_events cutoff_ms st =
     List.map_filter (\<lambda>(k, _). fmlookup (event_buffer st) k)
       (filter (\<lambda>(_, t). t \<le> cutoff_ms) (fm_entries (unpersisted st)))"

definition min_list_opt :: "u64 list \<Rightarrow> u64 option" where
  "min_list_opt xs = (case xs of [] \<Rightarrow> None | x # r \<Rightarrow> Some (fold min r x))"

definition get_persistence_stats :: "u64 \<Rightarrow> 's shared_state \<Rightarrow> persistence_stats" where
  "get_persistence_stats now st =
     \<lparr>ps_buffered = fm_len (event_buffer st), ps_unpersisted = fm_len (unpersisted st),
      ps_oldest_unpersisted_age_ms = map_option (\<lambda>t. saturating_sub now t) (min_list_opt (fm_values (unpersisted st)))\<rparr>"

subsection \<open>Collapsed and debug views\<close>

definition contributing_origins :: "'s shared_state \<Rightarrow> balance_key \<Rightarrow> (string, origin_progress) fmap" where
  "contributing_origins st k =
     (case fmlookup (account_origin_epochs st) k of
        None \<Rightarrow> fmempty
      | Some eks \<Rightarrow>
          fold (\<lambda>(_, origin, ep). fmupd (origin @ '':'' @ show_u32 ep)
                  \<lparr>op_head = fm_get_or (heads st) (fst k, origin, ep) 0,
                   op_max_known = fm_get_or (max_known_seqs st) (fst k, origin, ep) 0\<rparr>)
            (sorted_list_of_fset eks) fmempty)"

definition collapsed_entry :: "u64 \<Rightarrow> 's shared_state \<Rightarrow> balance_key \<Rightarrow> account_state \<Rightarrow> collapsed_balance" where
  "collapsed_entry now st k a =
     (let origins = contributing_origins st k
      in \<lparr>cb_balance = acct_balance a, cb_available_balance = available_balance a now,
          cb_status = (if fm_values origins = [] \<or> list_all (\<lambda>p. op_head p \<ge> op_max_known p) (fm_values origins)
                       then ''locally_confirmed'' else ''provisional''),
          cb_reserved_by_origin = reservations_by_origin a now, cb_contributing_origins = origins\<rparr>)"

definition collapsed_state :: "u64 \<Rightarrow> 's shared_state \<Rightarrow> (string, collapsed_balance) fmap" where
  "collapsed_state now st =
     fold (\<lambda>(k, a). fmupd (fst k @ '':'' @ snd k) (collapsed_entry now st k a)) (fm_entries (accounts st)) fmempty"

definition merge_debug_entries :: "(u64 \<times> u64 list \<times> u64) list \<Rightarrow> debug_epoch_info" where
  "merge_debug_entries entries =
     (let contiguous_head = (case min_list_opt (map fst entries) of Some h \<Rightarrow> h | None \<Rightarrow> 0);
          max_known = fold max (map (\<lambda>(_, _, m). m) entries) 0;
          pending = remdups_adj (sort (concat (map (\<lambda>(_, p, _). p) entries)));
          count = contiguous_head + word_of_nat (length pending)
      in \<lparr>de_contiguous_head = contiguous_head, de_present_seqs = pending,
          de_min_seq = (if count > 0 then Some 1 else None),
          de_max_seq = (if max_known > 0 then Some max_known else None), de_count = count\<rparr>)"

definition debug_origin :: "string \<Rightarrow> 's shared_state \<Rightarrow> debug_origin_response" where
  "debug_origin origin_id st =
     (let per_epoch = fold (\<lambda>(ek, head) m. case ek of (b, origin, ep) \<Rightarrow>
              if origin \<noteq> origin_id then m
              else push_to ep (head, sorted_list_of_fset (fm_get_or (pending_seqs st) ek {||}),
                     fm_get_or (max_known_seqs st) ek head) m)
            (fm_entries (heads st)) fmempty
      in \<lparr>do_origin_node_id = origin_id, do_epochs = fmmap merge_debug_entries per_epoch\<rparr>)"

end
