(* ===== verification/Local_Create.thy ===== *)
theory Local_Create
  imports Node_State
begin

section \<open>Local event creation (\<open>apps/node/src/state.rs\<close>)\<close>

text \<open>
  \<open>create_local_events\<close> and its four branches, and \<open>create_meta_bucket_delete\<close>. The account
  lock is held over the whole call, so the call is one step. The result is a value, an error,
  or \<open>Hangs\<close>: a task that waits for a lock it holds itself never returns. The state is
  returned in every case, since the code updates it before some of its early returns.
\<close>

datatype ('e, 'a) outcome = Done 'a | Failed 'e | Hangs

type_synonym create_outcome = "(create_local_event_error, local_create_result) outcome"

definition allocate_or_fail ::
  "'s backend \<Rightarrow> string \<Rightarrow> i64 \<Rightarrow> i64 \<Rightarrow> 's shared_state \<Rightarrow>
     (create_local_event_error + u32 \<times> u64) \<times> 's shared_state" where
  "allocate_or_fail B b balance available st =
     (case allocate_in B b st of
        (Some pos, st') \<Rightarrow> (Inr pos, st')
      | (None, st') \<Rightarrow> (Inl (InsufficientFunds balance available balance False), st'))"

definition flush_local_events ::
  "'s backend \<Rightarrow> (bytes \<Rightarrow> bytes) \<Rightarrow> event list \<Rightarrow> 's shared_state \<Rightarrow> 's shared_state" where
  "flush_local_events B sha es st = fold (record_new_local_event B sha) es st"

text \<open>The common fields of an event that this node mints.\<close>

definition minted ::
  "'s shared_state \<Rightarrow> string \<Rightarrow> u32 \<times> u64 \<Rightarrow> u64 \<Rightarrow> event_type \<Rightarrow> string \<Rightarrow> string \<Rightarrow> i64 \<Rightarrow> string \<Rightarrow> event" where
  "minted st i pos now ty b a amt nonce =
     \<lparr>event_id = i, origin_node_id = node_id st, origin_epoch = fst pos, origin_seq = snd pos,
      created_at_unix_ms = now, etype = ty, bucket = b, account = a, amount = amt, event_note = None,
      idempotency_nonce = nonce, void_ref = None, hold_amount = 0, hold_expires_at_unix_ms = 0,
      transfer_to = None\<rparr>"

definition in_balance_key :: "local_create_input \<Rightarrow> balance_key" where
  "in_balance_key inp = (in_bucket inp, in_account inp)"

definition in_floor :: "local_create_input \<Rightarrow> i64" where
  "in_floor inp = - in_max_overdraft inp"

subsection \<open>Charge\<close>

definition charge_hold ::
  "'s shared_state \<Rightarrow> account_state \<Rightarrow> local_create_input \<Rightarrow> (u64 \<times> u64) option \<Rightarrow> u64 \<Rightarrow> u64 \<times> u64" where
  "charge_hold st a inp hold_override now_ms =
     (case hold_override of
        Some (amt, ex) \<Rightarrow> (amt, ex)
      | None \<Rightarrow>
          let raw_hold = (if in_amount inp <s 0 \<and> hold_multiplier st > 0
                          then saturating_mul (unsigned_abs (in_amount inp)) (hold_multiplier st) else 0);
              renewal_window_ms = (if hold_duration_ms st = 0 then 0 else div_ceil (hold_duration_ms st) 10);
              current_hold = active_hold_total_for_origin a (node_id st) now_ms renewal_window_ms;
              max_useful_hold =
                (if in_amount inp <s 0
                 then signed_max (available_balance a now_ms + in_amount inp - in_floor inp) 0
                 else raw_hold);
              requested_hold = min raw_hold max_useful_hold;
              hold = saturating_sub requested_hold current_hold
          in (hold, if hold > 0 then now_ms + hold_duration_ms st else 0))"

text \<open>The overdraft guard: the error of a debit that would pass the floor.\<close>

definition charge_guard ::
  "account_state \<Rightarrow> local_create_input \<Rightarrow> u64 \<Rightarrow> u64 \<Rightarrow> create_local_event_error option" where
  "charge_guard a inp hold now_ms =
     (if in_amount inp <s 0 then
        let avail = available_balance a now_ms;
            projected = avail + in_amount inp - hold;
            floor = in_floor inp
        in if projected <s floor
           then Some (InsufficientFunds (acct_balance a) avail projected (floor \<le>s avail + in_amount inp))
           else None
      else None)"

definition charge_reservation_event ::
  "env \<Rightarrow> 's shared_state \<Rightarrow> u32 \<times> u64 \<Rightarrow> local_create_input \<Rightarrow> u64 \<Rightarrow> u64 \<Rightarrow> u64 \<Rightarrow> event" where
  "charge_reservation_event en st pos inp hold ex now_ms =
     (minted st (env_id en 0) pos now_ms ReservationCreate (in_bucket inp) (in_account inp) 0
        (''reserve:'' @ in_idempotency_nonce inp))\<lparr>hold_amount := hold, hold_expires_at_unix_ms := ex\<rparr>"

definition charge_reservation ::
  "'s backend \<Rightarrow> env \<Rightarrow> local_create_input \<Rightarrow> u64 \<Rightarrow> u64 \<Rightarrow> u64 \<Rightarrow> 's shared_state \<Rightarrow>
     (create_local_event_error + event list) \<times> 's shared_state" where
  "charge_reservation B en inp hold ex now_ms st =
     (if hold > 0 then
        let a = account_at st (in_balance_key inp)
        in case allocate_or_fail B (in_bucket inp) (acct_balance a) (available_balance a now_ms) st of
             (Inl err, st1) \<Rightarrow> (Inl err, st1)
           | (Inr pos, st1) \<Rightarrow>
               let e = charge_reservation_event en st1 pos inp hold ex now_ms;
                   st2 = with_account (in_balance_key inp)
                           (\<lambda>a. track_reservation e (a\<lparr>acct_event_count := acct_event_count a + 1\<rparr>)) st1;
                   st3 = cache_event (idempotency_nonce e, in_bucket inp, in_account inp, 0) e st2
               in (Inr [e], st3)
      else (Inr [], st))"

definition charge_standard_event ::
  "env \<Rightarrow> 's shared_state \<Rightarrow> u32 \<times> u64 \<Rightarrow> local_create_input \<Rightarrow> u64 \<Rightarrow> event" where
  "charge_standard_event en st pos inp now_ms =
     (minted st (env_id en 1) pos now_ms Standard (in_bucket inp) (in_account inp) (in_amount inp)
        (in_idempotency_nonce inp))\<lparr>event_note := in_note inp, transfer_to := in_transfer_to inp\<rparr>"

definition charge_standard ::
  "'s backend \<Rightarrow> env \<Rightarrow> local_create_input \<Rightarrow> u64 \<Rightarrow> 's shared_state \<Rightarrow>
     (create_local_event_error + event) \<times> 's shared_state" where
  "charge_standard B en inp now_ms st =
     (let a = account_at st (in_balance_key inp)
      in case allocate_or_fail B (in_bucket inp) (acct_balance a) (available_balance a now_ms) st of
           (Inl err, st1) \<Rightarrow> (Inl err, st1)
         | (Inr pos, st1) \<Rightarrow>
             let e = charge_standard_event en st1 pos inp now_ms;
                 st2 = with_account (in_balance_key inp) (count_event (in_amount inp)) st1
             in (Inr e, cache_event (in_idem_key inp) e st2))"

definition transfer_credit_event ::
  "env \<Rightarrow> 's shared_state \<Rightarrow> u32 \<times> u64 \<Rightarrow> local_create_input \<Rightarrow> string \<Rightarrow> i64 \<Rightarrow> u64 \<Rightarrow> event" where
  "transfer_credit_event en st pos inp to_addr credit now_ms =
     (minted st (env_id en 2) pos now_ms Standard (in_bucket inp) to_addr credit
        (''credit:'' @ in_idempotency_nonce inp))\<lparr>event_note := in_note inp\<rparr>"

text \<open>
  The credit side of a transfer. The account entry is created before the lock is taken; the
  lock of the debit account is still held, so a transfer of an account to itself never
  returns.
\<close>

definition transfer_credit ::
  "'s backend \<Rightarrow> env \<Rightarrow> local_create_input \<Rightarrow> u64 \<Rightarrow> 's shared_state \<Rightarrow>
     (create_local_event_error, event list) outcome \<times> 's shared_state" where
  "transfer_credit B en inp now_ms st =
     (case in_transfer_to inp of
        None \<Rightarrow> (Done [], st)
      | Some to_addr \<Rightarrow>
          if to_addr = in_account inp then (Hangs, st)
          else
            let k = (in_bucket inp, to_addr);
                st0 = with_account k id st;
                a = account_at st0 k
            in case checked_abs (in_amount inp) of
                 None \<Rightarrow> (Failed (InvalidRequest ''transfer amount overflows i64''), st0)
               | Some credit \<Rightarrow>
                   (case allocate_or_fail B (in_bucket inp) (acct_balance a) (available_balance a now_ms) st0 of
                      (Inl err, st1) \<Rightarrow> (Failed err, st1)
                    | (Inr pos, st1) \<Rightarrow>
                        let e = transfer_credit_event en st1 pos inp to_addr credit now_ms;
                            st2 = with_account k (count_event credit) st1
                        in (Done [e], cache_event (idempotency_nonce e, in_bucket inp, to_addr, credit) e st2)))"

definition emit_charge_locked ::
  "'s backend \<Rightarrow> (bytes \<Rightarrow> bytes) \<Rightarrow> env \<Rightarrow> local_create_input \<Rightarrow> (u64 \<times> u64) option \<Rightarrow> u64 \<Rightarrow>
     's shared_state \<Rightarrow> create_outcome \<times> 's shared_state" where
  "emit_charge_locked B sha en inp hold_override now_ms st =
     (let a = account_at st (in_balance_key inp);
          (hold, ex) = charge_hold st a inp hold_override now_ms
      in case charge_guard a inp hold now_ms of
           Some err \<Rightarrow> (Failed err, st)
         | None \<Rightarrow>
             (case charge_reservation B en inp hold ex now_ms st of
                (Inl err, st1) \<Rightarrow> (Failed err, st1)
              | (Inr rs, st1) \<Rightarrow>
                  (case charge_standard B en inp now_ms st1 of
                     (Inl err, st2) \<Rightarrow> (Failed err, st2)
                   | (Inr c, st2) \<Rightarrow>
                       (case transfer_credit B en inp now_ms st2 of
                          (Hangs, st3) \<Rightarrow> (Hangs, st3)
                        | (Failed err, st3) \<Rightarrow> (Failed err, st3)
                        | (Done cs, st3) \<Rightarrow>
                            (Done \<lparr>primary_event = c, emitted_events = rs @ [c] @ cs\<rparr>,
                             flush_local_events B sha (rs @ [c] @ cs) st3)))))"

subsection \<open>Reserve\<close>

definition emit_reserve_locked ::
  "'s backend \<Rightarrow> (bytes \<Rightarrow> bytes) \<Rightarrow> env \<Rightarrow> local_create_input \<Rightarrow> u64 \<Rightarrow>
     's shared_state \<Rightarrow> create_outcome \<times> 's shared_state" where
  "emit_reserve_locked B sha en inp now_ms st =
     (let k = in_balance_key inp;
          a = account_at st k;
          hold = (case in_hold_amount inp of Some h \<Rightarrow> h | None \<Rightarrow> 0);
          ex = (case in_hold_expires_at_unix_ms inp of Some x \<Rightarrow> x | None \<Rightarrow> 0);
          avail = available_balance a now_ms;
          projected = avail - hold
      in if projected <s in_floor inp
         then (Failed (InsufficientFunds (acct_balance a) avail projected False), st)
         else case allocate_or_fail B (in_bucket inp) (acct_balance a) avail st of
           (Inl err, st1) \<Rightarrow> (Failed err, st1)
         | (Inr pos, st1) \<Rightarrow>
             let e = (minted st1 (env_id en 0) pos now_ms ReservationCreate (in_bucket inp) (in_account inp) 0
                        (in_idempotency_nonce inp))
                       \<lparr>event_note := in_note inp, hold_amount := hold, hold_expires_at_unix_ms := ex\<rparr>;
                 st2 = with_account k (\<lambda>a. track_reservation e (a\<lparr>acct_event_count := acct_event_count a + 1\<rparr>)) st1;
                 st3 = cache_event (in_idempotency_nonce inp, in_bucket inp, in_account inp, 0) e st2
             in (Done \<lparr>primary_event = e, emitted_events = [e]\<rparr>, flush_local_events B sha [e] st3))"

subsection \<open>Settle and release\<close>

text \<open>The shared checks on the reservation that a settle or a release names.\<close>

definition find_reservation ::
  "account_state \<Rightarrow> string \<Rightarrow> u64 \<Rightarrow> create_local_event_error + reservation_state" where
  "find_reservation a rid now_ms =
     (case fmlookup (reservations a) rid of
        None \<Rightarrow> Inl (ReservationNotFound rid)
      | Some r \<Rightarrow>
          if rid |\<in>| released a then Inl (ReservationAlreadyReleased rid)
          else if rs_expires_at_unix_ms r \<le> now_ms then Inl (ReservationExpired rid)
          else Inr r)"

definition settle_charge_event ::
  "env \<Rightarrow> 's shared_state \<Rightarrow> u32 \<times> u64 \<Rightarrow> local_create_input \<Rightarrow> u64 \<Rightarrow> event" where
  "settle_charge_event en st pos inp now_ms =
     (minted st (env_id en 0) pos now_ms Standard (in_bucket inp) (in_account inp) (in_amount inp)
        (in_idempotency_nonce inp))\<lparr>event_note := in_note inp\<rparr>"

definition settle_release_event ::
  "env \<Rightarrow> 's shared_state \<Rightarrow> u32 \<times> u64 \<Rightarrow> local_create_input \<Rightarrow> string \<Rightarrow> u64 \<Rightarrow> event" where
  "settle_release_event en st pos inp rid now_ms =
     (minted st (env_id en 1) pos now_ms HoldRelease (in_bucket inp) (in_account inp) 0
        (''release:'' @ in_idempotency_nonce inp))\<lparr>void_ref := Some rid\<rparr>"

definition emit_settle_locked ::
  "'s backend \<Rightarrow> (bytes \<Rightarrow> bytes) \<Rightarrow> env \<Rightarrow> local_create_input \<Rightarrow> string \<Rightarrow> u64 \<Rightarrow>
     's shared_state \<Rightarrow> create_outcome \<times> 's shared_state" where
  "emit_settle_locked B sha en inp rid now_ms st =
     (let k = in_balance_key inp;
          a = account_at st k
      in case find_reservation a rid now_ms of
           Inl err \<Rightarrow> (Failed err, st)
         | Inr r \<Rightarrow>
             let attempted = unsigned_abs (in_amount inp)
             in if attempted > rs_amount r then (Failed (ReservationOverspend (rs_amount r) attempted), st)
                else case allocate_or_fail B (in_bucket inp) (acct_balance a) (available_balance a now_ms) st of
                  (Inl err, st1) \<Rightarrow> (Failed err, st1)
                | (Inr pos1, st1) \<Rightarrow>
                    (case allocate_or_fail B (in_bucket inp) (acct_balance a) (available_balance a now_ms) st1 of
                       (Inl err, st2) \<Rightarrow> (Failed err, st2)
                     | (Inr pos2, st2) \<Rightarrow>
                         let c = settle_charge_event en st2 pos1 inp now_ms;
                             rl = settle_release_event en st2 pos2 inp rid now_ms;
                             st3 = with_account k (\<lambda>a. apply_release rid
                                     (a\<lparr>acct_balance := acct_balance a + in_amount inp,
                                        acct_event_count := acct_event_count a + 2\<rparr>)) st2;
                             st4 = cache_event (in_idem_key inp) c st3;
                             st5 = cache_event (idempotency_nonce rl, in_bucket inp, in_account inp, 0) rl st4
                         in (Done \<lparr>primary_event = c, emitted_events = [c, rl]\<rparr>,
                             flush_local_events B sha [c, rl] st5)))"

definition emit_release_locked ::
  "'s backend \<Rightarrow> (bytes \<Rightarrow> bytes) \<Rightarrow> env \<Rightarrow> local_create_input \<Rightarrow> string \<Rightarrow> u64 \<Rightarrow>
     's shared_state \<Rightarrow> create_outcome \<times> 's shared_state" where
  "emit_release_locked B sha en inp rid now_ms st =
     (let k = in_balance_key inp;
          a = account_at st k
      in case find_reservation a rid now_ms of
           Inl err \<Rightarrow> (Failed err, st)
         | Inr r \<Rightarrow>
             (case allocate_or_fail B (in_bucket inp) (acct_balance a) (available_balance a now_ms) st of
                (Inl err, st1) \<Rightarrow> (Failed err, st1)
              | (Inr pos, st1) \<Rightarrow>
                  let e = (minted st1 (env_id en 0) pos now_ms HoldRelease (in_bucket inp) (in_account inp) 0
                             (in_idempotency_nonce inp))\<lparr>event_note := in_note inp, void_ref := Some rid\<rparr>;
                      st2 = with_account k (\<lambda>a. apply_release rid (a\<lparr>acct_event_count := acct_event_count a + 1\<rparr>)) st1;
                      st3 = cache_event (in_idempotency_nonce inp, in_bucket inp, in_account inp, 0) e st2
                  in (Done \<lparr>primary_event = e, emitted_events = [e]\<rparr>, flush_local_events B sha [e] st3)))"

subsection \<open>Dispatch\<close>

text \<open>The canonical winner among the stored matches: the first least by creation time and id.\<close>

definition first_least :: "event \<Rightarrow> event list \<Rightarrow> event" where
  "first_least e es =
     fold (\<lambda>x best. if (created_at_unix_ms x, event_id x) < (created_at_unix_ms best, event_id best) then x else best) es e"

definition emit_mode ::
  "'s backend \<Rightarrow> (bytes \<Rightarrow> bytes) \<Rightarrow> env \<Rightarrow> local_create_input \<Rightarrow> local_create_mode \<Rightarrow> u64 \<Rightarrow>
     's shared_state \<Rightarrow> create_outcome \<times> 's shared_state" where
  "emit_mode B sha en inp mode now_ms st =
     (case mode of
        Charge hold \<Rightarrow> emit_charge_locked B sha en inp hold now_ms st
      | Reserve \<Rightarrow> emit_reserve_locked B sha en inp now_ms st
      | Settle rid \<Rightarrow> emit_settle_locked B sha en inp rid now_ms st
      | Release rid \<Rightarrow> emit_release_locked B sha en inp rid now_ms st)"

definition create_local_events ::
  "'s backend \<Rightarrow> (bytes \<Rightarrow> bytes) \<Rightarrow> env \<Rightarrow> local_create_input \<Rightarrow> 's shared_state \<Rightarrow>
     create_outcome \<times> 's shared_state" where
  "create_local_events B sha en inp st =
     (if \<not> in_allow_reserved_bucket inp \<and> is_reserved_bucket_name (in_bucket inp)
      then (Failed (BucketReserved (in_bucket inp)), st)
      else if fm_contains (deleted_buckets st) (in_bucket inp)
      then (Failed (BucketDeleted (in_bucket inp)), st)
      else case from_input (env_now en 0) inp of
        Inl err \<Rightarrow> (Failed err, st)
      | Inr mode \<Rightarrow>
          let st1 = with_account (in_balance_key inp) id st
          in case fmlookup (idempotency_cache st1) (in_idem_key inp) of
               Some e \<Rightarrow> (Done \<lparr>primary_event = e, emitted_events = []\<rparr>, st1)
             | None \<Rightarrow>
                 (case be_find_by_idempotency_key B (storage st1) (in_idempotency_nonce inp) (in_bucket inp)
                         (in_account inp) (in_amount inp) of
                    Some (m # ms) \<Rightarrow>
                      (Done \<lparr>primary_event = first_least m ms, emitted_events = []\<rparr>,
                       cache_event (in_idem_key inp) (first_least m ms) st1)
                  | _ \<Rightarrow> emit_mode B sha en inp mode (env_now en 1) st1))"

definition create_local_event ::
  "'s backend \<Rightarrow> (bytes \<Rightarrow> bytes) \<Rightarrow> env \<Rightarrow> string \<Rightarrow> string \<Rightarrow> i64 \<Rightarrow> string option \<Rightarrow> u64 \<Rightarrow> string \<Rightarrow>
     's shared_state \<Rightarrow> (create_local_event_error, event) outcome \<times> 's shared_state" where
  "create_local_event B sha en b a amt note max_overdraft nonce st =
     (case create_local_events B sha en (legacy b a amt note max_overdraft nonce False) st of
        (Done r, st') \<Rightarrow> (Done (primary_event r), st')
      | (Failed err, st') \<Rightarrow> (Failed err, st')
      | (Hangs, st') \<Rightarrow> (Hangs, st'))"

subsection \<open>The meta log\<close>

definition bucket_delete_event ::
  "env \<Rightarrow> 's shared_state \<Rightarrow> u32 \<times> u64 \<Rightarrow> string \<Rightarrow> string option \<Rightarrow> event" where
  "bucket_delete_event en st pos target reason =
     (minted st (env_id en 0) pos (env_now en 0) BucketDelete META_BUCKET target 0 (''delete:'' @ target))
       \<lparr>event_note := reason\<rparr>"

definition create_meta_bucket_delete ::
  "'s backend \<Rightarrow> (bytes \<Rightarrow> bytes) \<Rightarrow> env \<Rightarrow> string \<Rightarrow> string option \<Rightarrow> 's shared_state \<Rightarrow>
     (create_local_event_error + event) \<times> 's shared_state" where
  "create_meta_bucket_delete B sha en target reason st =
     (if target = META_BUCKET \<or> is_reserved_bucket_name target then (Inl (BucketReserved target), st)
      else if fm_contains (deleted_buckets st) target then (Inl (BucketDeleted target), st)
      else case allocate_in B META_BUCKET st of
        (None, st1) \<Rightarrow> (Inl (InsufficientFunds 0 0 0 False), st1)
      | (Some pos, st1) \<Rightarrow>
          let e = bucket_delete_event en st1 pos target reason;
              st2 = st1\<lparr>deleted_buckets := fmupd target (env_now en 0) (deleted_buckets st1)\<rparr>
          in (Inr e, record_new_local_event B sha e (apply_bucket_delete_cascade B target st2)))"

end
