(* ===== verification/Rebuild.thy ===== *)
theory Rebuild
  imports Node_State
begin

section \<open>Rebuild of the caches at start-up (\<open>SharedState::new\<close>)\<close>

text \<open>
  The constructor reads the storage and rebuilds every in-memory cache. Each block of the
  constructor is one function on the state, applied in the order of the source; a storage
  read that fails skips its block.
\<close>

record hold_config =
  hc_multiplier :: u64
  hc_duration_ms :: u64

definition empty_state ::
  "string \<Rightarrow> string \<Rightarrow> 's \<Rightarrow> event list \<Rightarrow> event list \<Rightarrow> hold_config \<Rightarrow> 's shared_state" where
  "empty_state n ad s btx ctx hc =
     \<lparr>node_id = n, addr = ad, storage = s, bucket_allocators = fmempty, accounts = fmempty, heads = fmempty,
      pending_seqs = fmempty, account_origin_epochs = fmempty, max_known_seqs = fmempty, event_buffer = fmempty,
      unpersisted = fmempty, idempotency_cache = fmempty, batch_tx = btx, total_event_count = 0,
      hold_multiplier = hc_multiplier hc, hold_duration_ms = hc_duration_ms hc, phase = 0,
      correction_tx = ctx, digests = fmempty, deleted_buckets = fmempty\<rparr>"

definition rebuild_allocators :: "'s backend \<Rightarrow> 's shared_state \<Rightarrow> 's shared_state" where
  "rebuild_allocators B st =
     (case load_from_storage B (node_id st) (bucket_allocators st) (storage st) of
        (_, m, s) \<Rightarrow> st\<lparr>bucket_allocators := m, storage := s\<rparr>)"

definition rebuild_balances :: "'s backend \<Rightarrow> 's shared_state \<Rightarrow> 's shared_state" where
  "rebuild_balances B st =
     (case be_aggregate_balances B (storage st) of
        None \<Rightarrow> st
      | Some rows \<Rightarrow>
          st\<lparr>accounts := fold (\<lambda>(b, a, total_amt). fmupd (b, a) (account_new\<lparr>acct_balance := total_amt\<rparr>)) rows (accounts st)\<rparr>)"

definition rebuild_chain :: "epoch_key \<times> u64 list \<Rightarrow> 's shared_state \<Rightarrow> 's shared_state" where
  "rebuild_chain c st =
     (case c of (ek, seqs) \<Rightarrow>
        let head = compute_contiguous_head seqs;
            pending = fset_of_list (filter (\<lambda>q. q > head) seqs);
            st1 = st\<lparr>total_event_count := total_event_count st + word_of_nat (length seqs),
                     heads := fmupd ek head (heads st)\<rparr>;
            st2 = (if pending = {||} then st1
                   else st1\<lparr>pending_seqs := fmupd ek pending (pending_seqs st1)\<rparr>)
        in if seqs = [] then st2 else st2\<lparr>max_known_seqs := fmupd ek (last seqs) (max_known_seqs st2)\<rparr>)"

definition rebuild_heads :: "'s backend \<Rightarrow> 's shared_state \<Rightarrow> 's shared_state" where
  "rebuild_heads B st =
     (case be_sequences_by_origin_epoch B (storage st) of
        None \<Rightarrow> st
      | Some m \<Rightarrow> fold rebuild_chain (fm_entries m) st)"

definition rebuild_origins :: "'s backend \<Rightarrow> 's shared_state \<Rightarrow> 's shared_state" where
  "rebuild_origins B st =
     (case be_origin_account_epoch_mapping B (storage st) of
        None \<Rightarrow> st
      | Some rows \<Rightarrow>
          st\<lparr>account_origin_epochs :=
               fold (\<lambda>(b, origin, ep, a) m. fmupd (b, a) (finsert (b, origin, ep) (fm_get_or m (b, a) {||})) m)
                 rows (account_origin_epochs st)\<rparr>)"

definition rebuild_account_event :: "u64 \<Rightarrow> event \<Rightarrow> 's shared_state \<Rightarrow> 's shared_state" where
  "rebuild_account_event now_ms e st =
     with_account (balance_key e)
       (\<lambda>a. release_of e
          (if has_hold e \<and> hold_expires_at_unix_ms e > now_ms
           then track_reservation e (a\<lparr>acct_event_count := acct_event_count a + 1\<rparr>)
           else a\<lparr>acct_event_count := acct_event_count a + 1\<rparr>)) st"

definition rebuild_idempotency :: "event list \<Rightarrow> 's shared_state \<Rightarrow> 's shared_state" where
  "rebuild_idempotency all_events st =
     st\<lparr>idempotency_cache :=
          fold (\<lambda>e. fm_or_insert (idempotency_key e) e) (take 10000 (rev all_events)) (idempotency_cache st)\<rparr>"

definition rebuild_digest_event ::
  "(bytes \<Rightarrow> bytes) \<Rightarrow> (epoch_key, u64) fmap \<Rightarrow> event \<Rightarrow>
     (origin_key, event) fmap \<times> (epoch_key, u64 \<times> bytes) fmap \<Rightarrow>
     (origin_key, event) fmap \<times> (epoch_key, u64 \<times> bytes) fmap" where
  "rebuild_digest_event sha hs e acc =
     (case acc of (buf, computed) \<Rightarrow>
        if origin_seq e > fm_get_or hs (epoch_key e) 0 then (fmupd (origin_key e) e buf, computed)
        else case fm_get_or computed (epoch_key e) (0, zero_digest) of
          (digest_head, d) \<Rightarrow>
            if origin_seq e \<noteq> digest_head + 1 then (buf, fm_or_insert (epoch_key e) (0, zero_digest) computed)
            else (buf, fmupd (epoch_key e) (origin_seq e, digest_step sha e d) computed))"

definition save_rebuilt_digest ::
  "'s backend \<Rightarrow> epoch_key \<times> u64 \<times> bytes \<Rightarrow> 's shared_state \<Rightarrow> 's shared_state" where
  "save_rebuilt_digest B c st =
     (case c of ((b, origin, ep), head, d) \<Rightarrow>
        st\<lparr>digests := fmupd (b, origin, ep) (head, d) (digests st),
           storage := snd (be_save_digest B (storage st) b origin ep head d)\<rparr>)"

definition rebuild_digests ::
  "'s backend \<Rightarrow> (bytes \<Rightarrow> bytes) \<Rightarrow> event list \<Rightarrow> 's shared_state \<Rightarrow> 's shared_state" where
  "rebuild_digests B sha all_events st =
     (case fold (rebuild_digest_event sha (heads st)) (sort_key origin_key all_events) (event_buffer st, fmempty) of
        (buf, computed) \<Rightarrow> fold (save_rebuilt_digest B) (fm_entries computed) (st\<lparr>event_buffer := buf\<rparr>))"

definition rebuild_events ::
  "'s backend \<Rightarrow> (bytes \<Rightarrow> bytes) \<Rightarrow> u64 \<Rightarrow> 's shared_state \<Rightarrow> 's shared_state" where
  "rebuild_events B sha now_ms st =
     (case be_query_all_events_sorted B (storage st) of
        None \<Rightarrow> st
      | Some all_events \<Rightarrow>
          rebuild_digests B sha all_events
            (rebuild_idempotency all_events (fold (rebuild_account_event now_ms) all_events st)))"

definition rebuild_deleted :: "'s backend \<Rightarrow> 's shared_state \<Rightarrow> 's shared_state" where
  "rebuild_deleted B st =
     (case be_query_events_by_bucket B (storage st) META_BUCKET of
        None \<Rightarrow> st
      | Some es \<Rightarrow>
          st\<lparr>deleted_buckets :=
               fold (\<lambda>e m. case meta_target_bucket e of
                             Some t \<Rightarrow> fmupd t (created_at_unix_ms e) m | None \<Rightarrow> m) es (deleted_buckets st)\<rparr>)"

definition shared_state_new ::
  "'s backend \<Rightarrow> (bytes \<Rightarrow> bytes) \<Rightarrow> u64 \<Rightarrow> string \<Rightarrow> string \<Rightarrow> 's \<Rightarrow> event list \<Rightarrow> event list \<Rightarrow>
     hold_config \<Rightarrow> 's shared_state" where
  "shared_state_new B sha now_ms n ad s btx ctx hc =
     rebuild_deleted B (rebuild_events B sha now_ms (rebuild_origins B (rebuild_heads B
       (rebuild_balances B (rebuild_allocators B (empty_state n ad s btx ctx hc))))))"

end
