(* ===== verification/Wire.thy ===== *)
theory Wire
  imports Node_State
begin

section \<open>Wire formats (\<open>libs/broadcast\<close>)\<close>

text \<open>
  The key of the heads protocol, the agent string that peers exchange at connection time,
  the derivation of the mesh key, and the in-memory broadcaster with the trait it
  implements.
\<close>

subsection \<open>Heads keys\<close>

definition encode_head_key :: "string \<Rightarrow> string \<Rightarrow> u32 \<Rightarrow> string" where
  "encode_head_key b origin ep = b @ [CHR 0x09] @ origin @ '':'' @ show_u32 ep"

definition decode_head_key :: "string \<Rightarrow> (string \<times> string \<times> u32) option" where
  "decode_head_key key =
     (case split_once (CHR 0x09) key of
        None \<Rightarrow> None
      | Some (b, rest) \<Rightarrow>
          (case rsplit_once (CHR '':'') rest of
             None \<Rightarrow> None
           | Some (origin, epoch_str) \<Rightarrow>
               (case parse_u32 epoch_str of None \<Rightarrow> None | Some ep \<Rightarrow> Some (b, origin, ep))))"

subsection \<open>Agent string\<close>

text \<open>\<open>str::trim\<close> removes the characters with the Unicode property White\_Space at both ends.\<close>

definition white_space :: "string list" where
  "white_space =
     map (\<lambda>n. [char_of n]) [0x09, 0x0A, 0x0B, 0x0C, 0x0D, 0x20 :: nat] @
     [[CHR 0xC2, CHR 0x85], [CHR 0xC2, CHR 0xA0], [CHR 0xE1, CHR 0x9A, CHR 0x80]] @
     map (\<lambda>n. [CHR 0xE2, CHR 0x80, char_of n])
       [0x80, 0x81, 0x82, 0x83, 0x84, 0x85, 0x86, 0x87, 0x88, 0x89, 0x8A, 0xA8, 0xA9, 0xAF :: nat] @
     [[CHR 0xE2, CHR 0x81, CHR 0x9F], [CHR 0xE3, CHR 0x80, CHR 0x80]]"

definition cut_prefix :: "string list \<Rightarrow> string \<Rightarrow> string option" where
  "cut_prefix ws s = map_option (\<lambda>w. drop (length w) s) (find (\<lambda>w. w \<noteq> [] \<and> prefix w s) ws)"

function trim_start :: "string list \<Rightarrow> string \<Rightarrow> string" where
  "trim_start ws s = (case cut_prefix ws s of Some r \<Rightarrow> trim_start ws r | None \<Rightarrow> s)"
  by pat_completeness auto
termination
  by (relation "measure (\<lambda>(ws, s). length s)")
    (auto simp: cut_prefix_def find_Some_iff prefix_def)

declare trim_start.simps [simp del]

definition trim :: "string \<Rightarrow> string" where
  "trim s = rev (trim_start (map rev white_space) (rev (trim_start white_space s)))"

fun splitn :: "nat \<Rightarrow> char \<Rightarrow> string \<Rightarrow> string list" where
  "splitn 0 c s = []"
| "splitn (Suc 0) c s = [s]"
| "splitn (Suc (Suc n)) c s =
     (case split_once c s of None \<Rightarrow> [s] | Some (a, b) \<Rightarrow> a # splitn (Suc n) c b)"

definition AGENT_PREFIX :: string where
  "AGENT_PREFIX = ''shardd''"

record peer_metadata =
  pm_node_id :: string
  pm_epoch :: u32
  pm_advertise_addr :: "string option"

definition encode_agent_version :: "peer_metadata \<Rightarrow> string" where
  "encode_agent_version m =
     (case pm_advertise_addr m of
        Some ad \<Rightarrow>
          if ad \<noteq> [] then AGENT_PREFIX @ ''/'' @ pm_node_id m @ ''/'' @ show_u32 (pm_epoch m) @ ''/'' @ ad
          else AGENT_PREFIX @ ''/'' @ pm_node_id m @ ''/'' @ show_u32 (pm_epoch m)
      | None \<Rightarrow> AGENT_PREFIX @ ''/'' @ pm_node_id m @ ''/'' @ show_u32 (pm_epoch m))"

definition parse_agent_version :: "string \<Rightarrow> peer_metadata option" where
  "parse_agent_version s =
     (case splitn 4 (CHR ''/'') s of
        p # rest \<Rightarrow>
          if p \<noteq> AGENT_PREFIX then None
          else (case rest of
            n # ep # left \<Rightarrow>
              (case parse_u32 ep of
                 None \<Rightarrow> None
               | Some e \<Rightarrow>
                   Some \<lparr>pm_node_id = n, pm_epoch = e,
                     pm_advertise_addr = (case left of
                        ad # _ \<Rightarrow> if trim ad \<noteq> [] then Some (trim ad) else None | [] \<Rightarrow> None)\<rparr>)
          | _ \<Rightarrow> None)
      | [] \<Rightarrow> None)"

subsection \<open>Mesh key\<close>

definition derive_psk_from_cluster_key :: "(bytes \<Rightarrow> bytes) \<Rightarrow> string \<Rightarrow> bytes option" where
  "derive_psk_from_cluster_key sha key =
     (let trimmed = trim key in if trimmed = [] then None else Some (take 32 (sha trimmed)))"

subsection \<open>Broadcasters\<close>

text \<open>The trait \<open>Broadcaster\<close> over a transport state \<open>'b\<close>, and the in-memory instance.\<close>

record 'b broadcaster =
  bc_broadcast_event :: "'b \<Rightarrow> event \<Rightarrow> u32 \<Rightarrow> u64 \<Rightarrow> ack_info \<times> 'b"
  bc_broadcast_persisted :: "'b \<Rightarrow> origin_key list \<Rightarrow> 'b"
  bc_peer_count :: "'b \<Rightarrow> usize"

record in_memory_bus =
  bus_sent :: "event list"
  bus_peer_count :: usize

definition bus_broadcast_event :: "in_memory_bus \<Rightarrow> event \<Rightarrow> u32 \<Rightarrow> u64 \<Rightarrow> ack_info \<times> in_memory_bus" where
  "bus_broadcast_event bus e min_acks ack_timeout_ms =
     (let peers = (ucast (bus_peer_count bus) :: u32)
      in (\<lparr>ack_received = min peers min_acks, ack_requested = min_acks,
           ack_timeout = (min_acks > 0 \<and> peers < min_acks)\<rparr>,
          bus\<lparr>bus_sent := bus_sent bus @ [e]\<rparr>))"

definition bus_broadcaster :: "in_memory_bus broadcaster" where
  "bus_broadcaster = \<lparr>bc_broadcast_event = bus_broadcast_event, bc_broadcast_persisted = (\<lambda>b _. b),
     bc_peer_count = bus_peer_count\<rparr>"

section \<open>Properties of the wire formats\<close>

lemma colon_not_digit: "\<not> is_digit (CHR '':'')" "\<not> is_digit (CHR ''/'')"
  by (simp_all add: is_digit_def)

lemma decode_encode_head_key:
  assumes "CHR 0x09 \<notin> set b"
  shows "decode_head_key (encode_head_key b origin ep) = Some (b, origin, ep)"
proof -
  have "CHR '':'' \<notin> set (show_u32 ep)" unfolding show_u32_def by (rule not_digit_in_show_nat) (rule colon_not_digit)
  then show ?thesis
    using split_once_append [OF assms, of "origin @ '':'' @ show_u32 ep"] rsplit_once_append [of "CHR '':''" "show_u32 ep" origin]
    by (simp add: decode_head_key_def encode_head_key_def)
qed

text \<open>The key of the heads protocol survives the round trip for every bucket name without a tab, whatever the origin id (even one
  with colons) and the epoch, and the keys under which a node publishes its heads are of this form.\<close>

theorem head_key_roundtrip:
  assumes "CHR 0x09 \<notin> set b"
  shows "decode_head_key (encode_head_key b origin ep) = Some (b, origin, ep) \<and>
         decode_head_key (show_epoch_key (b, origin, ep)) = Some (b, origin, ep)"
  using decode_encode_head_key [OF assms, of origin ep] by (simp add: show_epoch_key_def encode_head_key_def)

theorem head_key_roundtrip_witness:
  "decode_head_key (encode_head_key ''orders'' ''a:b'' 7) = Some (''orders'', ''a:b'', 7)"
  using head_key_roundtrip [of "''orders''" "''a:b''" 7] by simp

lemma splitn_cons: "c \<notin> set a \<Longrightarrow> splitn (Suc (Suc n)) c (a @ c # b) = a # splitn (Suc n) c b"
  by (simp add: split_once_append)

lemma splitn_last: "c \<notin> set a \<Longrightarrow> splitn (Suc n) c a = [a]"
  by (cases n) (simp_all add: split_once_def)

text \<open>The agent string survives the round trip: a node id without a slash, any epoch, and an advertised address that is absent
  or a non-blank text without surrounding white space come back as they were, slashes in the address included.\<close>

theorem agent_version_roundtrip:
  assumes "CHR ''/'' \<notin> set (pm_node_id m)"
    and "case pm_advertise_addr m of None \<Rightarrow> True | Some ad \<Rightarrow> ad \<noteq> [] \<and> trim ad = ad"
  shows "parse_agent_version (encode_agent_version m) = Some m"
proof -
  have ep: "CHR ''/'' \<notin> set (show_u32 (pm_epoch m))" unfolding show_u32_def by (rule not_digit_in_show_nat) (rule colon_not_digit)
  have pre: "CHR ''/'' \<notin> set AGENT_PREFIX" by (simp add: AGENT_PREFIX_def)
  have four: "(4 :: nat) = Suc (Suc (Suc (Suc 0)))" by simp
  show ?thesis
  proof (cases "pm_advertise_addr m")
    case None
    have "splitn 4 (CHR ''/'') (AGENT_PREFIX @ CHR ''/'' # pm_node_id m @ CHR ''/'' # show_u32 (pm_epoch m)) =
        [AGENT_PREFIX, pm_node_id m, show_u32 (pm_epoch m)]"
      unfolding four by (simp only: splitn_cons [OF pre] splitn_cons [OF assms(1)] splitn_last [OF ep])
    with None show ?thesis by (simp add: encode_agent_version_def parse_agent_version_def)
  next
    case (Some ad)
    have "splitn 4 (CHR ''/'') (AGENT_PREFIX @ CHR ''/'' # pm_node_id m @ CHR ''/'' # show_u32 (pm_epoch m) @ CHR ''/'' # ad) =
        [AGENT_PREFIX, pm_node_id m, show_u32 (pm_epoch m), ad]"
      unfolding four by (simp only: splitn_cons [OF pre] splitn_cons [OF assms(1)] splitn_cons [OF ep] splitn.simps(2))
    with Some assms(2) show ?thesis by (simp add: encode_agent_version_def parse_agent_version_def)
  qed
qed

theorem agent_version_roundtrip_witness:
  "parse_agent_version (encode_agent_version \<lparr>pm_node_id = ''n1'', pm_epoch = 3, pm_advertise_addr = None\<rparr>) =
   Some \<lparr>pm_node_id = ''n1'', pm_epoch = 3, pm_advertise_addr = None\<rparr>"
  by (rule agent_version_roundtrip) simp_all

end
