(* ===== verification/Workers.thy ===== *)
theory Workers
  imports Local_Create Rebuild Wire
begin

section \<open>Background tasks (\<open>batch_writer.rs\<close>, \<open>orphan_detector.rs\<close>, \<open>server.rs\<close>)\<close>

text \<open>
  The tasks that run beside the RPC handler: the batch writer, the orphan detector, and the
  gossip, acknowledgement, range and catch-up tasks of the server. One iteration of a task's
  loop is one function on the node state.
\<close>

subsection \<open>Batch writer\<close>

text \<open>
  The receiving end of the batch channel is a cursor into what was sent. The persisted
  callback is the one that the server installs: it marks the keys as persisted.
\<close>

record batch_writer =
  bw_received :: nat
  bw_buffer :: "event list"
  bw_flush_size :: usize

definition do_flush :: "'s backend \<Rightarrow> batch_writer \<Rightarrow> 's shared_state \<Rightarrow> batch_writer \<times> 's shared_state" where
  "do_flush B w st =
     (let events = bw_buffer w; w' = w\<lparr>bw_buffer := []\<rparr>
      in case be_insert_events_bulk B (storage st) events of
           (Some _, s') \<Rightarrow> (w', mark_persisted (map origin_key events) (st\<lparr>storage := s'\<rparr>))
         | (None, s') \<Rightarrow> (w', st\<lparr>storage := s'\<rparr>))"

datatype batch_tick = Received | FlushTimer | MatviewTimer

text \<open>One turn of the select loop while the channel is open.\<close>

fun batch_turn ::
  "'s backend \<Rightarrow> batch_tick \<Rightarrow> batch_writer \<Rightarrow> 's shared_state \<Rightarrow> batch_writer \<times> 's shared_state" where
  "batch_turn B Received w st =
     (if bw_received w < length (batch_tx st) then
        let w' = w\<lparr>bw_received := Suc (bw_received w), bw_buffer := bw_buffer w @ [batch_tx st ! bw_received w]\<rparr>
        in if word_of_nat (length (bw_buffer w')) \<ge> bw_flush_size w then do_flush B w' st else (w', st)
      else (w, st))"
| "batch_turn B FlushTimer w st = (if bw_buffer w \<noteq> [] then do_flush B w st else (w, st))"
| "batch_turn B MatviewTimer w st = (w, st\<lparr>storage := snd (be_refresh_balance_summary B (storage st))\<rparr>)"

subsection \<open>Orphan detector\<close>

definition orphan_turn :: "'s backend \<Rightarrow> u64 \<Rightarrow> u64 \<Rightarrow> 's shared_state \<Rightarrow> 's shared_state" where
  "orphan_turn B age_threshold_ms now_ms st =
     (let cutoff = saturating_sub now_ms age_threshold_ms;
          orphans = get_unpersisted_events cutoff st
      in if orphans = [] then st
         else case be_insert_events_bulk B (storage st) orphans of
           (Some _, s') \<Rightarrow> mark_persisted (map origin_key orphans) (st\<lparr>storage := s'\<rparr>)
         | (None, s') \<Rightarrow> st\<lparr>storage := s'\<rparr>)"

subsection \<open>Server tasks\<close>

datatype membership_event = MemberUp string string "string option" | MemberDown string

text \<open>The membership bridge writes the registry entry of a peer.\<close>

definition membership_turn :: "'s backend \<Rightarrow> u64 \<Rightarrow> membership_event \<Rightarrow> 's shared_state \<Rightarrow> 's shared_state" where
  "membership_turn B now_ms ev st =
     (let (nid, ad, status) = (case ev of
            MemberUp n a adv \<Rightarrow> (n, case adv of Some x \<Rightarrow> x | None \<Rightarrow> a, Active)
          | MemberDown n \<Rightarrow> (n, [], Unreachable))
      in if nid = node_id st then st
         else st\<lparr>storage := snd (be_upsert_registry_entry B (storage st)
                 \<lparr>reg_node_id = nid, reg_addr = ad, first_seen_at_unix_ms = now_ms,
                  last_seen_at_unix_ms = now_ms, reg_status = status\<rparr>)\<rparr>)"

definition ack_turn ::
  "'s backend \<Rightarrow> (bytes \<Rightarrow> bytes) \<Rightarrow> env \<Rightarrow> event \<Rightarrow> 's shared_state \<Rightarrow> bool \<times> 's shared_state" where
  "ack_turn B sha en e st =
     (case insert_event B sha en e st of
        (True, st') \<Rightarrow> (True, st')
      | (False, st') \<Rightarrow> (event_is_present e st', st'))"

text \<open>A range request: the buffer first, then what only the storage has.\<close>

definition range_turn ::
  "'s backend \<Rightarrow> 's shared_state \<Rightarrow> string \<Rightarrow> string \<Rightarrow> u32 \<Rightarrow> u64 \<Rightarrow> u64 \<Rightarrow> event list" where
  "range_turn B st b origin ep from_seq to_seq =
     (let events = get_events_from_buffer st b origin ep from_seq to_seq;
          expected = to_seq - from_seq + 1
      in if word_of_nat (length events) < expected then
           (case be_query_events_range B (storage st) b origin ep from_seq to_seq of
              Some stored \<Rightarrow>
                sort_key origin_seq (events @ filter (\<lambda>e. origin_seq e \<notin> set (map origin_seq events)) stored)
            | None \<Rightarrow> events)
         else events)"

text \<open>
  Catch-up against one peer. The peer is the pair of its answers: its heads, and its reply
  to a range request (third-party transport, so both are arguments). The local heads are
  read once, before the loop over the peer's heads.
\<close>

record range_request =
  rr_bucket :: string
  rr_origin_node_id :: string
  rr_origin_epoch :: u32
  rr_from_seq :: u64
  rr_to_seq :: u64

definition catchup_request :: "(string, u64) fmap \<Rightarrow> string \<Rightarrow> u64 \<Rightarrow> range_request option" where
  "catchup_request local_heads key peer_head =
     (let my_head = fm_get_or local_heads key 0
      in if peer_head \<le> my_head then None
         else case decode_head_key key of
           None \<Rightarrow> None
         | Some (b, origin, ep) \<Rightarrow>
             Some \<lparr>rr_bucket = b, rr_origin_node_id = origin, rr_origin_epoch = ep,
                   rr_from_seq = my_head + 1, rr_to_seq = min (my_head + 5000) peer_head\<rparr>)"

definition catchup_peer ::
  "'s backend \<Rightarrow> (bytes \<Rightarrow> bytes) \<Rightarrow> (event \<Rightarrow> env) \<Rightarrow> (string, u64) fmap \<Rightarrow>
     (range_request \<Rightarrow> event list option) \<Rightarrow> 's shared_state \<Rightarrow> 's shared_state" where
  "catchup_peer B sha en peer_heads query_range st =
     (let local_heads = get_heads st
      in fold (\<lambda>(key, peer_head) st.
            case catchup_request local_heads key peer_head of
              None \<Rightarrow> st
            | Some req \<Rightarrow>
                (case query_range req of
                   None \<Rightarrow> st
                 | Some es \<Rightarrow> if es \<noteq> [] then snd (insert_events_batch B sha (map (\<lambda>e. (e, en e)) es) st) else st))
          (fm_entries peer_heads) st)"

text \<open>The registration of the node itself and the phase changes.\<close>

definition register_self :: "'s backend \<Rightarrow> u64 \<Rightarrow> 's shared_state \<Rightarrow> 's shared_state" where
  "register_self B now_ms st =
     st\<lparr>storage := snd (be_upsert_registry_entry B (storage st)
          \<lparr>reg_node_id = node_id st, reg_addr = addr st, first_seen_at_unix_ms = now_ms,
           last_seen_at_unix_ms = now_ms, reg_status = Active\<rparr>)\<rparr>"

definition become_ready :: "'s shared_state \<Rightarrow> 's shared_state" where
  "become_ready st = st\<lparr>phase := 1\<rparr>"

definition begin_shutdown :: "'s shared_state \<Rightarrow> 's shared_state" where
  "begin_shutdown st = st\<lparr>phase := 2\<rparr>"

section \<open>Properties of the catch-up requests\<close>

text \<open>C29. A catch-up request asks only for what is missing: it starts right after the local head, never reaches past the peer's head,
  is not empty, spans at most 5000 numbers, and names the chain of its key; none is sent for a chain on which the peer is not ahead.\<close>

theorem catchup_request_bounds:
  assumes "catchup_request local_heads key peer_head = Some req"
    and "fm_get_or local_heads key 0 \<le> 18446744073709546615"
  shows "fm_get_or local_heads key 0 < peer_head \<and> rr_from_seq req = fm_get_or local_heads key 0 + 1 \<and>
     rr_from_seq req \<le> rr_to_seq req \<and> rr_to_seq req \<le> peer_head \<and> unat (rr_to_seq req) - unat (rr_from_seq req) < 5000 \<and>
     decode_head_key key = Some (rr_bucket req, rr_origin_node_id req, rr_origin_epoch req)"
proof -
  let ?h = "fm_get_or local_heads key 0"
  have req: "?h < peer_head" "rr_from_seq req = ?h + 1" "rr_to_seq req = min (?h + 5000) peer_head"
    "decode_head_key key = Some (rr_bucket req, rr_origin_node_id req, rr_origin_epoch req)"
    using assms(1) by (auto simp: catchup_request_def Let_def not_le split: if_splits option.splits)
  have b: "unat ?h \<le> 18446744073709546615" using assms(2) by (simp add: word_le_nat_alt)
  have 1: "unat (?h + 1) = unat ?h + 1" and 5: "unat (?h + 5000) = unat ?h + 5000"
    using b by (simp_all add: unat_word_ariths)
  have m: "unat (rr_to_seq req) = min (unat ?h + 5000) (unat peer_head)"
    unfolding req(3) min_def by (simp add: word_le_nat_alt 5)
  show ?thesis
    using req(1,2,4) m 1 by (auto simp: word_le_nat_alt word_less_nat_alt)
qed

theorem catchup_request_bounds_witness:
  "\<exists>req. catchup_request fmempty (encode_head_key ''b'' ''o'' 1) 7 = Some req \<and> rr_from_seq req \<le> rr_to_seq req \<and> rr_to_seq req \<le> 7"
proof -
  have "decode_head_key (encode_head_key ''b'' ''o'' 1) = Some (''b'', ''o'', 1)" by (rule decode_encode_head_key) simp
  then obtain req where r: "catchup_request fmempty (encode_head_key ''b'' ''o'' 1) 7 = Some req" by (simp add: catchup_request_def)
  from catchup_request_bounds [OF r] r show ?thesis by auto
qed

end
