(* ===== verification/Service.thy ===== *)
theory Service
  imports Workers
begin

section \<open>The RPC service (\<open>service.rs\<close>, \<open>app_state.rs\<close>, \<open>lib.rs\<close>)\<close>

text \<open>
  The request handlers over the node state and a broadcaster. A handler's result is a
  response, an error, or \<open>Hangs\<close> when the call into the node state never returns. The text of
  a storage error (\<open>Display\<close>) and the \<open>Debug\<close> text of an error are arguments: both come from
  code outside the repository.
\<close>

subsection \<open>Phases and metrics\<close>

datatype node_phase = Warming | Ready | ShuttingDown

definition phase_from_u8 :: "u8 \<Rightarrow> node_phase" where
  "phase_from_u8 v = (if v = 1 then Ready else if v = 2 then ShuttingDown else Warming)"

fun phase_as_u8 :: "node_phase \<Rightarrow> u8" where
  "phase_as_u8 Warming = 0"
| "phase_as_u8 Ready = 1"
| "phase_as_u8 ShuttingDown = 2"

definition set_phase :: "node_phase \<Rightarrow> 's shared_state \<Rightarrow> 's shared_state" where
  "set_phase p st = st\<lparr>phase := phase_as_u8 p\<rparr>"

definition get_phase :: "'s shared_state \<Rightarrow> node_phase" where
  "get_phase st = phase_from_u8 (phase st)"

record request_metrics =
  inflight_requests :: u64
  completed_requests :: u64
  failed_requests :: u64

definition OVERLOADED_INFLIGHT_THRESHOLD :: u64 where
  "OVERLOADED_INFLIGHT_THRESHOLD = 128"

definition on_request_start :: "request_metrics \<Rightarrow> request_metrics" where
  "on_request_start m = m\<lparr>inflight_requests := inflight_requests m + 1\<rparr>"

definition on_request_finish :: "bool \<Rightarrow> request_metrics \<Rightarrow> request_metrics" where
  "on_request_finish failed m =
     m\<lparr>inflight_requests := inflight_requests m - 1,
       completed_requests := completed_requests m + 1,
       failed_requests := (if failed then failed_requests m + 1 else failed_requests m)\<rparr>"

record metrics_snapshot =
  snap_inflight :: u64
  snap_completed :: u64
  snap_failed :: u64
  snap_overloaded :: bool

definition metrics_snapshot_of :: "request_metrics \<Rightarrow> metrics_snapshot" where
  "metrics_snapshot_of m =
     \<lparr>snap_inflight = inflight_requests m, snap_completed = completed_requests m,
      snap_failed = failed_requests m,
      snap_overloaded = (inflight_requests m \<ge> OVERLOADED_INFLIGHT_THRESHOLD)\<rparr>"

record ('s, 'b) app_state =
  shared :: "'s shared_state"
  transport :: 'b
  metrics :: request_metrics

subsection \<open>Deleting a bucket\<close>

fun delete_bucket_error :: "(create_local_event_error \<Rightarrow> string) \<Rightarrow> create_local_event_error \<Rightarrow> node_rpc_error" where
  "delete_bucket_error dbg (BucketReserved name) = invalid_input (''bucket '' @ [CHR 0x27] @ name @ [CHR 0x27] @ '' is reserved'')"
| "delete_bucket_error dbg (BucketDeleted name) = invalid_input (''bucket '' @ [CHR 0x27] @ name @ [CHR 0x27] @ '' was already deleted'')"
| "delete_bucket_error dbg (InsufficientFunds _ _ _ _) = internal_error ''meta allocator failed; retry shortly''"
| "delete_bucket_error dbg other = internal_error (''unexpected create_meta_bucket_delete failure: '' @ dbg other)"

definition delete_bucket ::
  "'s backend \<Rightarrow> 'b broadcaster \<Rightarrow> (bytes \<Rightarrow> bytes) \<Rightarrow> (create_local_event_error \<Rightarrow> string) \<Rightarrow> env \<Rightarrow>
     string \<Rightarrow> string option \<Rightarrow> ('s, 'b) app_state \<Rightarrow> (node_rpc_error, event) outcome \<times> ('s, 'b) app_state" where
  "delete_bucket B N sha dbg en b reason app =
     (if b = [] then (Failed (invalid_input ''bucket is required''), app)
      else if is_reserved_bucket_name b
      then (Failed (invalid_input (''bucket '' @ [CHR 0x27] @ b @ [CHR 0x27] @ '' is reserved and cannot be deleted'')), app)
      else case create_meta_bucket_delete B sha en b reason (shared app) of
        (Inl err, st) \<Rightarrow> (Failed (delete_bucket_error dbg err), app\<lparr>shared := st\<rparr>)
      | (Inr e, st) \<Rightarrow>
          (Done e, app\<lparr>shared := st, transport := snd (bc_broadcast_event N (transport app) e 0 0)\<rparr>))"

subsection \<open>Creating an event\<close>

definition input_of_request :: "create_event_request \<Rightarrow> local_create_input" where
  "input_of_request req =
     \<lparr>in_bucket = req_bucket req, in_account = req_account req, in_amount = req_amount req,
      in_note = req_note req,
      in_max_overdraft = (case req_max_overdraft req of Some m \<Rightarrow> m | None \<Rightarrow> 0),
      in_idempotency_nonce = req_idempotency_nonce req,
      in_allow_reserved_bucket = req_allow_reserved_bucket req, in_hold_amount = req_hold_amount req,
      in_hold_expires_at_unix_ms = req_hold_expires_at_unix_ms req,
      in_settle_reservation = req_settle_reservation req,
      in_release_reservation = req_release_reservation req,
      in_skip_hold = (case req_skip_hold req of Some b \<Rightarrow> b | None \<Rightarrow> False),
      in_transfer_to = req_transfer_to req\<rparr>"

definition skip_hold_hint :: string where
  "skip_hold_hint =
     ''implicit hold (hold_multiplier '' @ [CHR 0xC3, CHR 0x97] @
     '' |amount|) pushed projected_available below the floor; '' @
     ''the bare debit math would clear. Retry with '' @ [CHR 0x60] @ ''skip_hold: true'' @ [CHR 0x60] @
     '' for one-shot administrative '' @
     ''writes, or pass an explicit smaller '' @ [CHR 0x60] @ ''hold_amount'' @ [CHR 0x60] @
     ''. See protocol.md '' @ [CHR 0xC2, CHR 0xA7] @ ''11.4.''"

fun create_event_error :: "u64 \<Rightarrow> create_local_event_error \<Rightarrow> node_rpc_error" where
  "create_event_error max_overdraft (InsufficientFunds balance available projected hold_blocking) =
     insufficient_funds \<lparr>ife_error = ''insufficient_funds'', ife_balance = balance,
       ife_available_balance = available, ife_projected_available_balance = projected,
       ife_limit = - max_overdraft, ife_hold_blocking = hold_blocking,
       ife_hint = (if hold_blocking then Some skip_hold_hint else None)\<rparr>"
| "create_event_error _ (BucketReserved name) =
     invalid_input (''bucket name '' @ [CHR 0x27] @ name @ [CHR 0x27] @ '' is reserved'')"
| "create_event_error _ (BucketDeleted name) =
     invalid_input (''bucket '' @ [CHR 0x27] @ name @ [CHR 0x27] @ '' was permanently deleted and cannot be written to'')"
| "create_event_error _ (InvalidRequest message) = invalid_input message"
| "create_event_error _ (ReservationNotFound i) =
     invalid_input (''reservation '' @ [CHR 0x27] @ i @ [CHR 0x27] @ '' not found'')"
| "create_event_error _ (ReservationExpired i) =
     invalid_input (''reservation '' @ [CHR 0x27] @ i @ [CHR 0x27] @ '' has expired'')"
| "create_event_error _ (ReservationAlreadyReleased i) =
     invalid_input (''reservation '' @ [CHR 0x27] @ i @ [CHR 0x27] @ '' has already been released'')"
| "create_event_error _ (ReservationOverspend reserved attempted) =
     invalid_input (''settle attempted '' @ show_u64 attempted @ '' against a reservation of '' @ show_u64 reserved)"

fun broadcast_all ::
  "'b broadcaster \<Rightarrow> u32 \<Rightarrow> u64 \<Rightarrow> event list \<Rightarrow> 'b \<Rightarrow> ack_info list \<times> 'b" where
  "broadcast_all N min_acks tmo [] t = ([], t)"
| "broadcast_all N min_acks tmo (e # es) t =
     (case bc_broadcast_event N t e min_acks tmo of
        (ack, t1) \<Rightarrow> (case broadcast_all N min_acks tmo es t1 of (acks, t2) \<Rightarrow> (ack # acks, t2)))"

definition combine_acks :: "ack_info list \<Rightarrow> ack_info" where
  "combine_acks acks =
     \<lparr>ack_received = (case map ack_received acks of [] \<Rightarrow> 0 | x # xs \<Rightarrow> fold min xs x),
      ack_requested = fold max (map ack_requested acks) 0,
      ack_timeout = list_ex ack_timeout acks\<rparr>"

text \<open>The answer to a successful create; the last argument is the clock of the available balance.\<close>

definition create_event_done ::
  "'b broadcaster \<Rightarrow> u64 \<Rightarrow> create_event_request \<Rightarrow> local_create_result \<Rightarrow> ('s, 'b) app_state \<Rightarrow>
     create_event_response \<times> ('s, 'b) app_state" where
  "create_event_done N now_ms req r app =
     (let e = primary_event r;
          dedup = emitted_events r = [];
          (acks, t) = (if \<not> dedup then
              (case broadcast_all N (case req_min_acks req of Some n \<Rightarrow> n | None \<Rightarrow> 0)
                      (case req_ack_timeout_ms req of Some n \<Rightarrow> n | None \<Rightarrow> 500) (emitted_events r) (transport app) of
                 (acks, t) \<Rightarrow> (combine_acks acks, t))
            else (fire_and_forget, transport app))
      in (\<lparr>resp_event = e, resp_emitted_events = emitted_events r,
           resp_balance = state_account_balance (shared app) (bucket e) (account e),
           resp_available_balance = account_available_balance now_ms (shared app) (bucket e) (account e),
           resp_deduplicated = dedup, resp_acks = acks\<rparr>, app\<lparr>transport := t\<rparr>))"

definition create_event ::
  "'s backend \<Rightarrow> 'b broadcaster \<Rightarrow> (bytes \<Rightarrow> bytes) \<Rightarrow> env \<Rightarrow> create_event_request \<Rightarrow> ('s, 'b) app_state \<Rightarrow>
     (node_rpc_error, create_event_response) outcome \<times> ('s, 'b) app_state" where
  "create_event B N sha en req app =
     (case validate_event_note (req_note req) of
        Inl m \<Rightarrow> (Failed (invalid_input m), app)
      | Inr _ \<Rightarrow>
          if \<not> req_allow_reserved_bucket req \<and> is_reserved_bucket_name (req_bucket req)
          then (Failed (invalid_input (''bucket name '' @ [CHR 0x27] @ req_bucket req @ [CHR 0x27] @ '' is reserved'')), app)
          else case phase_from_u8 (phase (shared app)) of
            ShuttingDown \<Rightarrow> (Failed (service_unavailable ''node shutting down''), app)
          | Warming \<Rightarrow> (Failed (service_unavailable ''node warming up''), app)
          | Ready \<Rightarrow>
              (case create_local_events B sha en (input_of_request req) (shared app) of
                 (Done r, st) \<Rightarrow>
                   (case create_event_done N (env_now en 2) req r (app\<lparr>shared := st\<rparr>) of
                      (resp, app') \<Rightarrow> (Done resp, app'))
               | (Failed err, st) \<Rightarrow>
                   (Failed (create_event_error (in_max_overdraft (input_of_request req)) err), app\<lparr>shared := st\<rparr>)
               | (Hangs, st) \<Rightarrow> (Hangs, app\<lparr>shared := st\<rparr>)))"

subsection \<open>Read handlers\<close>

definition health :: "'s backend \<Rightarrow> 'b broadcaster \<Rightarrow> u64 \<Rightarrow> ('s, 'b) app_state \<Rightarrow> health_response" where
  "health B N now_ms app =
     (let st = shared app;
          peers = bc_peer_count N (transport app);
          known = max (case be_load_registry B (storage st) of
                         Some r \<Rightarrow> word_of_nat (length r) | None \<Rightarrow> peers + 1) (peers + 1);
          m = metrics_snapshot_of (metrics app)
      in \<lparr>hr_observed_at_unix_ms = now_ms, hr_node_id = node_id st, hr_addr = addr st,
          hr_ready = (phase st = phase_as_u8 Ready), hr_peer_count = peers, hr_known_nodes = known,
          hr_sync_gap = sync_gap st, hr_sync_gap_per_bucket = sync_gap_per_bucket st,
          hr_inflight_requests = snap_inflight m, hr_completed_requests = snap_completed m,
          hr_failed_requests = snap_failed m, hr_overloaded = snap_overloaded m,
          hr_event_count = state_event_count st, hr_total_balance = total_balance st\<rparr>)"

definition state_view :: "'s backend \<Rightarrow> ('s, 'b) app_state \<Rightarrow> state_response" where
  "state_view B app =
     (let st = shared app
      in \<lparr>sr_node_id = node_id st, sr_addr = addr st, sr_ready = (phase st = phase_as_u8 Ready),
          sr_event_count = state_event_count st, sr_total_balance = total_balance st,
          sr_contiguous_heads = get_heads st,
          sr_checksum = unwrap_or_empty (be_checksum_data B (storage st))\<rparr>)"

definition events_view :: "'s backend \<Rightarrow> ('s, 'b) app_state \<Rightarrow> event list" where
  "events_view B app =
     (let events = (case be_query_all_events_sorted B (storage (shared app)) of Some es \<Rightarrow> es | None \<Rightarrow> []);
          storage_keys = set (map origin_key events);
          extra = filter (\<lambda>e. origin_key e \<notin> storage_keys) (fm_values (event_buffer (shared app)))
      in sort_key (\<lambda>e. (created_at_unix_ms e, event_id e)) (events @ extra))"

definition clamp_limit :: "u32 \<Rightarrow> u32" where
  "clamp_limit l = (if l < 1 then 1 else if l > 500 then 500 else l)"

definition filter_of_request :: "events_filter_request \<Rightarrow> events_filter" where
  "filter_of_request r =
     \<lparr>ef_bucket = efr_bucket r, ef_bucket_prefix = efr_bucket_prefix r, ef_account = efr_account r,
      ef_origin = efr_origin r, ef_event_type = efr_event_type r, ef_since_unix_ms = efr_since_unix_ms r,
      ef_until_unix_ms = efr_until_unix_ms r, ef_search = efr_search r\<rparr>"

definition events_filter_view ::
  "'s backend \<Rightarrow> string \<Rightarrow> events_filter_request \<Rightarrow> ('s, 'b) app_state \<Rightarrow> node_rpc_error + events_filter_response" where
  "events_filter_view B storage_error r app =
     (let limit = clamp_limit (efr_limit r); offset = efr_offset r
      in case be_query_events_filtered B (storage (shared app)) (filter_of_request r) limit offset of
           None \<Rightarrow> Inl (internal_error storage_error)
         | Some (es, n) \<Rightarrow>
             Inr \<lparr>efp_events = es, efp_total = n, efp_limit = limit, efp_offset = offset,
                  efp_heads = get_heads (shared app), efp_max_known_seqs = get_max_known_seqs (shared app)\<rparr>)"

definition balances_view :: "u64 \<Rightarrow> ('s, 'b) app_state \<Rightarrow> balances_response" where
  "balances_view now_ms app =
     \<lparr>br_accounts = get_all_balances now_ms (shared app), br_total_balance = total_balance (shared app)\<rparr>"

definition unknown_balance :: collapsed_balance where
  "unknown_balance = \<lparr>cb_balance = 0, cb_available_balance = 0, cb_status = ''unknown'',
     cb_reserved_by_origin = fmempty, cb_contributing_origins = fmempty\<rparr>"

definition collapsed_account :: "u64 \<Rightarrow> string \<Rightarrow> string \<Rightarrow> ('s, 'b) app_state \<Rightarrow> collapsed_balance" where
  "collapsed_account now_ms b a app =
     fm_get_or (collapsed_state now_ms (shared app)) (b @ '':'' @ a) unknown_balance"

definition digests_view :: "('s, 'b) app_state \<Rightarrow> (string, digest_info) fmap" where
  "digests_view app = fmmap (\<lambda>(h, d). \<lparr>di_head = h, di_digest = d\<rparr>) (get_digests (shared app))"

definition registry_view :: "'s backend \<Rightarrow> ('s, 'b) app_state \<Rightarrow> node_registry_entry list" where
  "registry_view B app = (case be_load_registry B (storage (shared app)) of Some r \<Rightarrow> r | None \<Rightarrow> [])"

definition deleted_buckets_view :: "('s, 'b) app_state \<Rightarrow> deleted_bucket_entry list" where
  "deleted_buckets_view app =
     map (\<lambda>(b, t). \<lparr>db_name = b, db_deleted_at_unix_ms = t\<rparr>) (fm_entries (deleted_buckets (shared app)))"

subsection \<open>Dispatch\<close>

definition outcome_map :: "('a \<Rightarrow> 'c) \<Rightarrow> ('e, 'a) outcome \<times> 'x \<Rightarrow> ('e, 'c) outcome \<times> 'x" where
  "outcome_map f r = (case r of (Done a, x) \<Rightarrow> (Done (f a), x) | (Failed e, x) \<Rightarrow> (Failed e, x) | (Hangs, x) \<Rightarrow> (Hangs, x))"

fun handle_rpc ::
  "'s backend \<Rightarrow> 'b broadcaster \<Rightarrow> (bytes \<Rightarrow> bytes) \<Rightarrow> (create_local_event_error \<Rightarrow> string) \<Rightarrow> string \<Rightarrow> env \<Rightarrow>
     node_rpc_request \<Rightarrow> ('s, 'b) app_state \<Rightarrow> (node_rpc_error, node_rpc_response) outcome \<times> ('s, 'b) app_state" where
  "handle_rpc B N sha dbg serr en (RqCreateEvent req) app = outcome_map RsCreateEvent (create_event B N sha en req app)"
| "handle_rpc B N sha dbg serr en RqHealth app = (Done (RsHealth (health B N (env_now en 0) app)), app)"
| "handle_rpc B N sha dbg serr en RqState app = (Done (RsState (state_view B app)), app)"
| "handle_rpc B N sha dbg serr en RqEvents app = (Done (RsEvents (events_view B app)), app)"
| "handle_rpc B N sha dbg serr en RqHeads app = (Done (RsHeads (get_heads (shared app))), app)"
| "handle_rpc B N sha dbg serr en RqBalances app = (Done (RsBalances (balances_view (env_now en 0) app)), app)"
| "handle_rpc B N sha dbg serr en RqCollapsed app = (Done (RsCollapsed (collapsed_state (env_now en 0) (shared app))), app)"
| "handle_rpc B N sha dbg serr en (RqCollapsedAccount b a) app =
     (Done (RsCollapsedAccount (collapsed_account (env_now en 0) b a app)), app)"
| "handle_rpc B N sha dbg serr en RqPersistence app =
     (Done (RsPersistence (get_persistence_stats (env_now en 0) (shared app))), app)"
| "handle_rpc B N sha dbg serr en RqDigests app = (Done (RsDigests (digests_view app)), app)"
| "handle_rpc B N sha dbg serr en (RqDebugOrigin origin) app = (Done (RsDebugOrigin (debug_origin origin (shared app))), app)"
| "handle_rpc B N sha dbg serr en RqRegistry app = (Done (RsRegistry (registry_view B app)), app)"
| "handle_rpc B N sha dbg serr en (RqDeleteBucket b reason) app =
     outcome_map RsDeleteBucket (delete_bucket B N sha dbg en b reason app)"
| "handle_rpc B N sha dbg serr en (RqEventsFilter r) app =
     (case events_filter_view B serr r app of Inl err \<Rightarrow> (Failed err, app) | Inr x \<Rightarrow> (Done (RsEventsFilter x), app))"
| "handle_rpc B N sha dbg serr en RqDeletedBuckets app = (Done (RsDeletedBuckets (deleted_buckets_view app)), app)"

text \<open>
  One turn of the RPC task of the server: the request metrics around the handler. A handler
  that hangs leaves its request in flight, and the task takes no further request.
\<close>

definition counts_as_failed :: "node_rpc_error \<Rightarrow> bool" where
  "counts_as_failed e \<longleftrightarrow> err_code e = ServiceUnavailable \<or> err_code e = Internal"

definition rpc_turn ::
  "'s backend \<Rightarrow> 'b broadcaster \<Rightarrow> (bytes \<Rightarrow> bytes) \<Rightarrow> (create_local_event_error \<Rightarrow> string) \<Rightarrow> string \<Rightarrow> env \<Rightarrow>
     node_rpc_request \<Rightarrow> ('s, 'b) app_state \<Rightarrow> (node_rpc_error, node_rpc_response) outcome \<times> ('s, 'b) app_state" where
  "rpc_turn B N sha dbg serr en req app =
     (case handle_rpc B N sha dbg serr en req (app\<lparr>metrics := on_request_start (metrics app)\<rparr>) of
        (Done resp, app') \<Rightarrow> (Done resp, app'\<lparr>metrics := on_request_finish False (metrics app')\<rparr>)
      | (Failed err, app') \<Rightarrow>
          (Failed err, app'\<lparr>metrics := on_request_finish (counts_as_failed err) (metrics app')\<rparr>)
      | (Hangs, app') \<Rightarrow> (Hangs, app'))"

end
