(* ===== verification/Head_Tracking.thy ===== *)
theory Head_Tracking
  imports Node_State
begin

section \<open>Contiguous heads refine a set of sequence numbers\<close>

text \<open>
  A node keeps, per chain, a contiguous head and the set of the sequence numbers above the
  gap. The abstract state of a chain is the set of the numbers received. The lemmas show that
  \<open>advance_head\<close> inserts into that set, that the pair is determined by the set, and that the
  rebuild from the sorted sequence numbers computes the same pair.
\<close>

definition seen_seqs :: "u64 \<times> u64 fset \<Rightarrow> u64 set" where
  "seen_seqs c = {q. 0 < q \<and> q \<le> fst c} \<union> fset (snd c)"

definition chain_ok :: "u64 \<times> u64 fset \<Rightarrow> bool" where
  "chain_ok c \<longleftrightarrow> fst c + 1 |\<notin>| snd c \<and> (\<forall>q. q |\<in>| snd c \<longrightarrow> fst c < q)"

definition advance_chain :: "u64 \<times> u64 fset \<Rightarrow> u64 \<Rightarrow> u64 \<times> u64 fset" where
  "advance_chain c q =
     (if q = fst c + 1 then (case drain (snd c) q of (p, h) \<Rightarrow> (h, p))
      else if q > fst c + 1 then (fst c, finsert q (snd c)) else c)"

definition chain_at :: "'s shared_state \<Rightarrow> epoch_key \<Rightarrow> u64 \<times> u64 fset" where
  "chain_at st ek = (fm_get_or (heads st) ek 0, fm_get_or (pending_seqs st) ek {||})"

subsection \<open>Words\<close>

lemma unat_plus_one: "(h :: u64) \<noteq> - 1 \<Longrightarrow> unat (h + 1) = Suc (unat h)"
proof -
  assume "h \<noteq> - 1"
  then have "unat h \<noteq> unat (- 1 :: u64)" by (simp add: word_unat_eq_iff)
  moreover have "unat (- 1 :: u64) = 18446744073709551615" by (simp add: unsigned_minus_1_eq_mask mask_eq_exp_minus_1)
  ultimately have "unat h < 18446744073709551615" using unat_u64_less [of h] by simp
  then show ?thesis using suc_u64 [of h] by simp
qed

lemma less_plus_one: "(h :: u64) \<noteq> - 1 \<Longrightarrow> h < h + 1"
  by (simp add: word_less_nat_alt unat_plus_one)

lemma plus_one_pos: "(h :: u64) \<noteq> - 1 \<Longrightarrow> 0 < h + 1"
  by (simp add: word_less_nat_alt unat_plus_one)

lemma less_iff_plus_one_le: "(h :: u64) < q \<longleftrightarrow> h \<noteq> - 1 \<and> h + 1 \<le> q"
proof (cases "h = - 1")
  case True
  then show ?thesis by simp
next
  case False
  then show ?thesis by (simp add: word_less_nat_alt word_le_nat_alt unat_plus_one Suc_le_eq)
qed

lemma le_plus_one_iff: "(h :: u64) \<noteq> - 1 \<Longrightarrow> q \<le> h + 1 \<longleftrightarrow> q \<le> h \<or> q = h + 1"
  by (auto simp: word_le_nat_alt word_unat_eq_iff unat_plus_one)

subsection \<open>Draining\<close>

lemma drain_empty [simp]: "drain {||} h = ({||}, h)"
  by (subst drain.simps) simp

lemma drain_spec:
  assumes "\<And>q. q |\<in>| p \<Longrightarrow> h < q" and "drain p h = (p', h')"
  shows "h \<le> h' \<and> chain_ok (h', p') \<and> seen_seqs (h', p') = seen_seqs (h, p) \<and> p' |\<subseteq>| p"
  using assms
proof (induction p h rule: drain.induct)
  case (1 p h)
  show ?case
  proof (cases "h + 1 |\<in>| p")
    case True
    then have h: "h \<noteq> - 1" using "1.prems"(1) [of "h + 1"] by auto
    have gt: "q |\<in>| p |-| {|h + 1|} \<Longrightarrow> h + 1 < q" for q
      using "1.prems"(1) [of q] less_iff_plus_one_le [of h q] by (auto simp: order_less_le)
    have dr: "drain (p |-| {|h + 1|}) (h + 1) = (p', h')"
      using "1.prems"(2) True drain.simps [of p h] by simp
    have "0 < h + 1" by (rule plus_one_pos [OF h])
    then have "seen_seqs (h + 1, p |-| {|h + 1|}) = seen_seqs (h, p)"
      using True le_plus_one_iff [OF h] by (auto simp: seen_seqs_def)
    with "1.IH" [OF True gt dr] less_plus_one [OF h] show ?thesis by (auto intro: order_trans less_imp_le)
  next
    case False
    with "1.prems" drain.simps [of p h] show ?thesis by (auto simp: chain_ok_def)
  qed
qed

subsection \<open>Refinement\<close>

lemma advance_chain_spec:
  assumes ok: "chain_ok c" and q: "q \<noteq> 0" and h: "fst c \<noteq> - 1"
  shows "chain_ok (advance_chain c q)"
    and "seen_seqs (advance_chain c q) = insert q (seen_seqs c)"
    and "fst c \<le> fst (advance_chain c q)"
proof -
  consider (next_seq) "q = fst c + 1" | (gap) "q \<noteq> fst c + 1" "q > fst c + 1" | (old) "q \<le> fst c"
    using less_iff_plus_one_le [of "fst c" q] h by fastforce
  then have "chain_ok (advance_chain c q) \<and> seen_seqs (advance_chain c q) = insert q (seen_seqs c) \<and>
      fst c \<le> fst (advance_chain c q)"
  proof cases
    case next_seq
    obtain p' h' where d: "drain (snd c) q = (p', h')" by force
    have gt: "x |\<in>| snd c \<Longrightarrow> q < x" for x
      using ok next_seq less_iff_plus_one_le [of "fst c" x] by (auto simp: chain_ok_def order_less_le)
    from drain_spec [OF gt d] have spec: "q \<le> h'" "chain_ok (h', p')" "seen_seqs (h', p') = seen_seqs (q, snd c)"
      by auto
    have "seen_seqs (q, snd c) = insert q (seen_seqs c)"
      using next_seq q le_plus_one_iff [OF h] by (auto simp: seen_seqs_def word_gt_0)
    with spec next_seq d less_plus_one [OF h] show ?thesis
      by (auto simp: advance_chain_def intro: order_trans less_imp_le)
  next
    case gap
    then have "fst c < q" using less_plus_one [OF h] by (meson order_less_trans)
    with gap ok show ?thesis by (auto simp: advance_chain_def chain_ok_def seen_seqs_def)
  next
    case old
    then have "q < fst c + 1" using less_plus_one [OF h] by (rule order_le_less_trans)
    then have "advance_chain c q = c" by (auto simp: advance_chain_def)
    with old ok q show ?thesis by (auto simp: seen_seqs_def word_gt_0)
  qed
  then show "chain_ok (advance_chain c q)" "seen_seqs (advance_chain c q) = insert q (seen_seqs c)"
    "fst c \<le> fst (advance_chain c q)" by auto
qed

text \<open>The pair is determined by the set: the head is the end of its first run.\<close>

lemma chain_head_le:
  assumes "chain_ok c" "chain_ok d" "seen_seqs c = seen_seqs d"
  shows "fst d \<le> fst c"
proof (rule ccontr)
  assume "\<not> fst d \<le> fst c"
  then have lt: "fst c < fst d" by simp
  then have h: "fst c \<noteq> - 1" and le: "fst c + 1 \<le> fst d" using less_iff_plus_one_le by auto
  have "0 < fst c + 1" by (rule plus_one_pos [OF h])
  then have "fst c + 1 \<in> seen_seqs c" using le assms(3) by (auto simp: seen_seqs_def)
  with assms(1) less_plus_one [OF h] show False by (auto simp: seen_seqs_def chain_ok_def)
qed

lemma chain_unique:
  assumes "chain_ok c" "chain_ok d" "seen_seqs c = seen_seqs d"
  shows "c = d"
proof -
  have f: "fst c = fst d" using chain_head_le [OF assms] chain_head_le [OF assms(2,1) assms(3) [symmetric]] by simp
  have "q |\<in>| snd c \<longleftrightarrow> q |\<in>| snd d" for q
  proof -
    have "x |\<in>| snd c \<longleftrightarrow> x \<in> seen_seqs c \<and> fst c < x" if "chain_ok c" for x and c :: "u64 \<times> u64 fset"
      using that by (auto simp: chain_ok_def seen_seqs_def)
    from this [OF assms(1), of q] this [OF assms(2), of q] show ?thesis using f assms(3) by simp
  qed
  then have "snd c = snd d" by (simp add: fset_eqI)
  with f show ?thesis by (simp add: prod_eq_iff)
qed

lemma chain_ok_empty [simp]: "chain_ok (0, {||})"
  by (simp add: chain_ok_def)

lemma seen_seqs_empty [simp]: "seen_seqs (0, {||}) = {}"
  by (auto simp: seen_seqs_def)

subsection \<open>The rebuild computes the same pair\<close>

lemma contiguous_from_spec:
  assumes "sorted qs" and "\<And>q. q \<in> set qs \<Longrightarrow> h = 0 \<or> h \<le> q"
  shows "h \<le> contiguous_from h qs \<and> {q. h < q \<and> q \<le> contiguous_from h qs} \<subseteq> set qs \<and>
     (contiguous_from h qs \<noteq> - 1 \<longrightarrow> contiguous_from h qs + 1 \<notin> set qs)"
  using assms
proof (induction qs arbitrary: h)
  case Nil
  then show ?case by auto
next
  case (Cons x qs)
  have srt: "sorted qs" "\<And>q. q \<in> set qs \<Longrightarrow> x \<le> q" using Cons.prems(1) by auto
  consider (nxt) "x = h + 1" "h \<noteq> - 1" | (stop) "x \<noteq> h + 1" "x > h + 1" "h \<noteq> - 1" | (skip) "x \<le> h" "h \<noteq> - 1"
    | (top) "h = - 1"
    using less_iff_plus_one_le [of h x] by fastforce
  then show ?case
  proof cases
    case nxt
    have "h + 1 \<le> contiguous_from (h + 1) qs \<and>
        {q. h + 1 < q \<and> q \<le> contiguous_from (h + 1) qs} \<subseteq> set qs \<and>
        (contiguous_from (h + 1) qs \<noteq> - 1 \<longrightarrow> contiguous_from (h + 1) qs + 1 \<notin> set qs)"
      using Cons.IH [of "h + 1"] srt nxt by auto
    moreover have "contiguous_from (h + 1) qs + 1 \<noteq> h + 1" if "contiguous_from (h + 1) qs \<noteq> - 1"
      using calculation less_plus_one [OF that] by auto
    ultimately show ?thesis
      using nxt less_plus_one [OF nxt(2)] less_iff_plus_one_le [of h]
      by (auto simp: subset_iff order_less_le intro: order_trans)
  next
    case stop
    then have "h + 1 \<notin> set (x # qs)" using srt(2) [of "h + 1"] by auto
    with stop show ?thesis by auto
  next
    case skip
    then have lt: "x < h + 1" using less_plus_one [of h] by (simp add: order_le_less_trans)
    then have eq: "contiguous_from h (x # qs) = contiguous_from h qs" by auto
    have ih: "h \<le> contiguous_from h qs \<and> {q. h < q \<and> q \<le> contiguous_from h qs} \<subseteq> set qs \<and>
      (contiguous_from h qs \<noteq> - 1 \<longrightarrow> contiguous_from h qs + 1 \<notin> set qs)"
      using Cons.IH [of h] srt Cons.prems(2) by auto
    have "contiguous_from h qs + 1 \<noteq> x" if "contiguous_from h qs \<noteq> - 1"
      using ih less_plus_one [OF that] skip by auto
    with ih show ?thesis unfolding eq by auto
  next
    case top
    then have "x = - 1" using Cons.prems(2) [of x] by (auto simp: word_order.extremum_unique)
    moreover have "0 < (- 1 :: u64)" by (simp add: word_gt_0)
    ultimately show ?thesis using top by simp
  qed
qed

definition rebuilt_chain :: "u64 list \<Rightarrow> u64 \<times> u64 fset" where
  "rebuilt_chain qs = (compute_contiguous_head qs, fset_of_list (filter (\<lambda>q. q > compute_contiguous_head qs) qs))"

lemma rebuilt_chain_spec:
  assumes "sorted qs"
  shows "chain_ok (rebuilt_chain qs) \<and> seen_seqs (rebuilt_chain qs) = set qs - {0}"
proof -
  let ?h = "compute_contiguous_head qs"
  have spec: "{q. 0 < q \<and> q \<le> ?h} \<subseteq> set qs" "?h \<noteq> - 1 \<longrightarrow> ?h + 1 \<notin> set qs"
    using contiguous_from_spec [of qs 0] assms by (auto simp: compute_contiguous_head_def)
  have "chain_ok (rebuilt_chain qs)"
    using spec(2) by (auto simp: chain_ok_def rebuilt_chain_def fset_of_list_elem)
  moreover have "seen_seqs (rebuilt_chain qs) = set qs - {0}"
    using spec(1) by (auto simp: seen_seqs_def rebuilt_chain_def fset_of_list_elem word_gt_0 subset_iff)
  ultimately show ?thesis ..
qed

text \<open>Replaying the numbers one by one, in any order, ends in the rebuilt pair.\<close>

lemma replay_chain:
  assumes "chain_ok c" and "0 \<notin> set qs" and "- 1 \<notin> seen_seqs c" and "- 1 \<notin> set qs"
  shows "chain_ok (fold (\<lambda>q c. advance_chain c q) qs c) \<and>
         seen_seqs (fold (\<lambda>q c. advance_chain c q) qs c) = set qs \<union> seen_seqs c"
  using assms
proof (induction qs arbitrary: c)
  case (Cons q qs)
  have h: "fst c \<noteq> - 1" using Cons.prems(3) by (auto simp: seen_seqs_def word_gt_0)
  have q: "q \<noteq> 0" using Cons.prems(2) by auto
  have step: "chain_ok (advance_chain c q)" "seen_seqs (advance_chain c q) = insert q (seen_seqs c)"
    using advance_chain_spec [OF Cons.prems(1) q h] by auto
  show ?case
    using Cons.IH [OF step(1)] Cons.prems step(2) by auto
qed simp

section \<open>The head of a node\<close>

lemma prune_closed:
  "prune_persisted_buffer_range ek f t st =
     st\<lparr>event_buffer := fmfilter (\<lambda>k. \<not> (epoch_of_origin_key k = ek \<and> f \<le> seq_of_origin_key k \<and> seq_of_origin_key k \<le> t \<and>
                                     fmlookup (unpersisted st) k = None)) (event_buffer st)\<rparr>"
proof -
  have step: "fold (\<lambda>q st. if \<not> fm_contains (unpersisted st) (mk_origin_key ek q)
            then st\<lparr>event_buffer := fmdrop (mk_origin_key ek q) (event_buffer st)\<rparr> else st) qs st =
      st\<lparr>event_buffer := fmfilter (\<lambda>k. \<not> (epoch_of_origin_key k = ek \<and> seq_of_origin_key k \<in> set qs \<and>
                                   fmlookup (unpersisted st) k = None)) (event_buffer st)\<rparr>" for qs
  proof (induction qs arbitrary: st)
    case Nil
    then show ?case by simp
  next
    case (Cons q qs)
    let ?P = "\<lambda>s k. \<not> (epoch_of_origin_key k = ek \<and> seq_of_origin_key k \<in> s \<and> fmlookup (unpersisted st) k = None)"
    have key: "epoch_of_origin_key k = ek \<and> seq_of_origin_key k = q \<longleftrightarrow> k = mk_origin_key ek q" for k
      by (metis mk_origin_key_simps(1-3))
    have "fmfilter (?P (set qs)) (if fmlookup (unpersisted st) (mk_origin_key ek q) = None
        then fmdrop (mk_origin_key ek q) (event_buffer st) else event_buffer st) =
        fmfilter (?P (insert q (set qs))) (event_buffer st)"
      by (rule fmap_ext) (use key in auto)
    with Cons.IH show ?case by auto
  qed
  show ?thesis
  proof (cases "f > t")
    case True
    then have "fmfilter (\<lambda>k. \<not> (epoch_of_origin_key k = ek \<and> f \<le> seq_of_origin_key k \<and> seq_of_origin_key k \<le> t \<and>
        fmlookup (unpersisted st) k = None)) (event_buffer st) = event_buffer st"
      by (intro fmap_ext) (auto dest: order_trans)
    with True show ?thesis by (simp add: prune_persisted_buffer_range_def)
  next
    case False
    then show ?thesis using step [of "word_range f t"] by (simp add: prune_persisted_buffer_range_def)
  qed
qed

lemma advance_head_frame [simp]:
  "node_id (advance_head B sha ek q st) = node_id st"
  "addr (advance_head B sha ek q st) = addr st"
  "bucket_allocators (advance_head B sha ek q st) = bucket_allocators st"
  "accounts (advance_head B sha ek q st) = accounts st"
  "account_origin_epochs (advance_head B sha ek q st) = account_origin_epochs st"
  "max_known_seqs (advance_head B sha ek q st) = max_known_seqs st"
  "unpersisted (advance_head B sha ek q st) = unpersisted st"
  "idempotency_cache (advance_head B sha ek q st) = idempotency_cache st"
  "batch_tx (advance_head B sha ek q st) = batch_tx st"
  "total_event_count (advance_head B sha ek q st) = total_event_count st"
  "hold_multiplier (advance_head B sha ek q st) = hold_multiplier st"
  "hold_duration_ms (advance_head B sha ek q st) = hold_duration_ms st"
  "phase (advance_head B sha ek q st) = phase st"
  "correction_tx (advance_head B sha ek q st) = correction_tx st"
  "deleted_buckets (advance_head B sha ek q st) = deleted_buckets st"
  by (simp_all add: advance_head_def Let_def drain_pending_def update_digest_def prune_closed split: prod.splits option.splits)

text \<open>The head and the pending set of a chain move by \<open>advance_chain\<close>, and no other chain moves.\<close>

lemma chain_advance_head:
  "chain_at (advance_head B sha ek q st) ek' = (if ek' = ek then advance_chain (chain_at st ek) q else chain_at st ek')"
proof -
  let ?h = "fm_get_or (heads st) ek 0" and ?p = "fm_get_or (pending_seqs st) ek {||}"
  consider (nxt) "q = ?h + 1" | (gap) "q \<noteq> ?h + 1" "q > ?h + 1" | (old) "q \<noteq> ?h + 1" "\<not> q > ?h + 1" by auto
  then show ?thesis
  proof cases
    case nxt
    obtain p' h' where d: "drain ?p q = (p', h')" by force
    have "drain_pending ek q st = (h', st\<lparr>pending_seqs := (if fmlookup (pending_seqs st) ek = None then pending_seqs st
        else fmupd ek p' (pending_seqs st))\<rparr>) \<and> (fmlookup (pending_seqs st) ek = None \<longrightarrow> p' = {||})"
      using d by (auto simp: drain_pending_def fm_get_or_def split: option.splits)
    then show ?thesis
      using nxt d by (auto simp: chain_at_def advance_chain_def advance_head_def Let_def update_digest_def prune_closed
          fm_get_or_def split: prod.splits)
  next
    case gap
    then show ?thesis by (auto simp: chain_at_def advance_chain_def advance_head_def)
  next
    case old
    then show ?thesis by (auto simp: chain_at_def advance_chain_def advance_head_def)
  qed
qed

section \<open>Properties of the contiguous head\<close>

text \<open>C21. \<open>advance_head\<close> refines insertion into the set of received numbers: from a well-formed chain, the head with its
  pending set then stands for that set with the new number, the head never moves back, the head is again followed by a gap, and no
  other chain moves.\<close>

theorem advance_head_refines_insert:
  assumes "chain_ok (chain_at st ek)" and "q \<noteq> 0" and "fm_get_or (heads st) ek 0 \<noteq> - 1"
  shows "chain_ok (chain_at (advance_head B sha ek q st) ek) \<and>
     seen_seqs (chain_at (advance_head B sha ek q st) ek) = insert q (seen_seqs (chain_at st ek)) \<and>
     fm_get_or (heads st) ek 0 \<le> fm_get_or (heads (advance_head B sha ek q st)) ek 0 \<and>
     (\<forall>ek'. ek' \<noteq> ek \<longrightarrow> chain_at (advance_head B sha ek q st) ek' = chain_at st ek')"
proof -
  let ?st = "advance_head B sha ek q st"
  have c: "chain_at ?st ek = advance_chain (chain_at st ek) q" by (simp add: chain_advance_head)
  have h: "fst (chain_at st ek) \<noteq> - 1" using assms(3) by (simp add: chain_at_def)
  note spec = advance_chain_spec [OF assms(1,2) h]
  have "fm_get_or (heads st) ek 0 \<le> fm_get_or (heads ?st) ek 0"
    using spec(3) unfolding c [symmetric] by (simp add: chain_at_def)
  with spec show ?thesis unfolding c by (simp add: chain_advance_head)
qed

text \<open>A state with a gap in one chain: the numbers one to three and five have arrived.\<close>

definition gap_state :: "mem_storage shared_state" where
  "gap_state = \<lparr>node_id = ''n'', addr = [], storage = mem_new, bucket_allocators = fmempty, accounts = fmempty,
     heads = fmupd (''b'', ''o'', 1) 3 fmempty, pending_seqs = fmupd (''b'', ''o'', 1) {|5|} fmempty,
     account_origin_epochs = fmempty, max_known_seqs = fmempty, event_buffer = fmempty, unpersisted = fmempty,
     idempotency_cache = fmempty, batch_tx = [], total_event_count = 0, hold_multiplier = 0, hold_duration_ms = 0, phase = 0,
     correction_tx = [], digests = fmempty, deleted_buckets = fmempty\<rparr>"

lemma gap_state_chain: "chain_at gap_state (''b'', ''o'', 1) = (3, {|5|})"
  by (simp add: gap_state_def chain_at_def)

theorem advance_head_refines_insert_witness:
  "seen_seqs (chain_at (advance_head (mem_backend (\<lambda>x. x)) (\<lambda>x. x) (''b'', ''o'', 1) 4 gap_state) (''b'', ''o'', 1)) = insert 4 (seen_seqs (3, {|5|}))"
  using advance_head_refines_insert [of gap_state "(''b'', ''o'', 1)" 4 "mem_backend (\<lambda>x. x)" "\<lambda>x. x"]
  by (simp add: gap_state_chain chain_ok_def) (simp add: gap_state_def)

text \<open>The two ways to compute a head agree: receiving the numbers of a chain one by one in any order, with repetitions, ends
  in the head and the pending set that the rebuild computes from their sorted list.\<close>

theorem rebuilt_head_equals_replay:
  assumes "sorted qs" and "set ps = set qs" and "0 \<notin> set qs" and "- 1 \<notin> set qs"
    and "fmlookup (heads st) ek = None" and "fmlookup (pending_seqs st) ek = None"
  shows "chain_at (fold (advance_head B sha ek) ps st) ek =
     (compute_contiguous_head qs, fset_of_list (filter (\<lambda>q. q > compute_contiguous_head qs) qs))"
proof -
  have "chain_at (fold (advance_head B sha ek) ps st) ek = fold (\<lambda>q c. advance_chain c q) ps (chain_at st ek)" for st
    by (induction ps arbitrary: st) (simp_all add: chain_advance_head)
  moreover have "chain_at st ek = (0, {||})" using assms(5,6) by (simp add: chain_at_def fm_get_or_def)
  ultimately have "chain_at (fold (advance_head B sha ek) ps st) ek = fold (\<lambda>q c. advance_chain c q) ps (0, {||})" by simp
  also have "\<dots> = rebuilt_chain qs"
    using replay_chain [of "(0, {||})" ps] rebuilt_chain_spec [OF assms(1)] assms(2-4) by (intro chain_unique) auto
  finally show ?thesis by (simp add: rebuilt_chain_def)
qed

theorem rebuilt_head_equals_replay_witness:
  "chain_at (fold (advance_head (mem_backend (\<lambda>x. x)) (\<lambda>x. x) (''c'', ''o'', 1)) [3, 1, 5, 2, 2] gap_state) (''c'', ''o'', 1) =
     (compute_contiguous_head [1, 2, 3, 5], fset_of_list (filter (\<lambda>q. q > compute_contiguous_head [1, 2, 3, 5]) [1, 2, 3, 5]))"
  by (rule rebuilt_head_equals_replay) (auto simp: gap_state_def)

end
