(* ===== verification/Ledger.thy ===== *)
theory Ledger
  imports Head_Tracking Local_Create Workers
begin

section \<open>The ledger specification and its refinement\<close>

text \<open>
  The abstract node: the log of the events it accepted, and the accounts, chains and largest
  known sequence numbers as functions. Accepting an event appends it to the log and applies
  it; deleting a bucket clears the bucket. The lemmas below show that every operation of the
  node moves the abstract state by these two moves only, so that every cache is a function of
  the log.
\<close>

record ledger =
  lg_log :: "event list"
  lg_accounts :: "balance_key \<Rightarrow> account_state"
  lg_chains :: "epoch_key \<Rightarrow> u64 \<times> u64 fset"
  lg_max :: "epoch_key \<Rightarrow> u64"
  lg_count :: usize
  lg_deleted :: "string set"

definition ledger_of :: "'s shared_state \<Rightarrow> ledger" where
  "ledger_of st =
     \<lparr>lg_log = batch_tx st, lg_accounts = account_at st, lg_chains = chain_at st,
      lg_max = (\<lambda>ek. fm_get_or (max_known_seqs st) ek 0), lg_count = total_event_count st,
      lg_deleted = fmdom' (deleted_buckets st)\<rparr>"

definition apply_to_account :: "event \<Rightarrow> ledger \<Rightarrow> ledger" where
  "apply_to_account e l =
     l\<lparr>lg_accounts := (lg_accounts l)(balance_key e := apply_event e (lg_accounts l (balance_key e)))\<rparr>"

definition append_to_log :: "event \<Rightarrow> ledger \<Rightarrow> ledger" where
  "append_to_log e l =
     l\<lparr>lg_log := lg_log l @ [e],
       lg_chains := (lg_chains l)(epoch_key e := advance_chain (lg_chains l (epoch_key e)) (origin_seq e)),
       lg_max := (lg_max l)(epoch_key e := max (lg_max l (epoch_key e)) (origin_seq e)),
       lg_count := lg_count l + 1\<rparr>"

definition accept_event :: "event \<Rightarrow> ledger \<Rightarrow> ledger" where
  "accept_event e l = append_to_log e (apply_to_account e l)"

definition clear_bucket :: "string \<Rightarrow> ledger \<Rightarrow> ledger" where
  "clear_bucket b l =
     l\<lparr>lg_accounts := (\<lambda>k. if fst k = b then account_new else lg_accounts l k),
       lg_chains := (\<lambda>ek. if fst ek = b then (0, {||}) else lg_chains l ek),
       lg_max := (\<lambda>ek. if fst ek = b then 0 else lg_max l ek),
       lg_deleted := insert b (lg_deleted l)\<rparr>"

lemma append_apply_commute: "append_to_log e (apply_to_account f l) = apply_to_account f (append_to_log e l)"
  by (simp add: append_to_log_def apply_to_account_def)

lemma fold_append_apply: "fold append_to_log es (apply_to_account f l) = apply_to_account f (fold append_to_log es l)"
  by (induction es arbitrary: l) (simp_all add: append_apply_commute)

text \<open>Applying all events to their accounts first and logging them afterwards is accepting them.\<close>

lemma fold_accept: "fold append_to_log es (fold apply_to_account es l) = fold accept_event es l"
proof (induction es arbitrary: l)
  case (Cons e es)
  have "fold apply_to_account es (append_to_log e m) = append_to_log e (fold apply_to_account es m)" for m
    by (induction es arbitrary: m) (simp_all add: append_apply_commute [symmetric])
  then have "append_to_log e (fold apply_to_account es m) = fold apply_to_account es (append_to_log e m)" for m by simp
  with Cons show ?case by (simp add: accept_event_def)
qed simp

subsection \<open>The state updates\<close>

lemma ledger_eqI:
  "lg_log l = lg_log m \<Longrightarrow> lg_accounts l = lg_accounts m \<Longrightarrow> lg_chains l = lg_chains m \<Longrightarrow> lg_max l = lg_max m \<Longrightarrow>
   lg_count l = lg_count m \<Longrightarrow> lg_deleted l = lg_deleted m \<Longrightarrow> (l :: ledger) = m"
  by simp

lemma ledger_cache [simp]: "ledger_of (cache_event k e st) = ledger_of st"
  by (simp add: ledger_of_def cache_event_def account_at_def [abs_def] chain_at_def [abs_def])

lemma ledger_allocate_in [simp]: "allocate_in B b st = (r, st') \<Longrightarrow> ledger_of st' = ledger_of st"
  by (auto simp: allocate_in_def ledger_of_def account_at_def [abs_def] chain_at_def [abs_def] split: prod.splits)

lemma ledger_with_account:
  "ledger_of (with_account k f st) = (ledger_of st)\<lparr>lg_accounts := (account_at st)(k := f (account_at st k))\<rparr>"
  by (auto simp: with_account_def ledger_of_def account_at_def [abs_def] chain_at_def [abs_def] fun_eq_iff)

lemma ledger_with_account_id [simp]: "ledger_of (with_account k id st) = ledger_of st"
  by (simp add: ledger_with_account) (simp add: ledger_of_def)

lemma ledger_apply:
  "balance_key e = k \<Longrightarrow> f (account_at st k) = apply_event e (account_at st k) \<Longrightarrow>
   ledger_of (with_account k f st) = apply_to_account e (ledger_of st)"
  by (simp add: ledger_with_account apply_to_account_def) (simp add: ledger_of_def)

lemma ledger_store_buffer [simp]: "ledger_of (store_event_buffer e st) = ledger_of st"
  by (simp add: ledger_of_def store_event_buffer_def account_at_def [abs_def] chain_at_def [abs_def])

text \<open>Head, tracking and send together append the event to the log.\<close>

lemma ledger_advance_send:
  "ledger_of (count_and_send e (update_origin_tracking e (advance_head B sha (epoch_key e) (origin_seq e) st))) =
   append_to_log e (ledger_of st)"
proof (rule ledger_eqI)
  let ?a = "advance_head B sha (epoch_key e) (origin_seq e) st"
  let ?s = "count_and_send e (update_origin_tracking e ?a)"
  have "chain_at ?s = chain_at ?a"
    by (simp add: fun_eq_iff chain_at_def count_and_send_def update_origin_tracking_def)
  then show "lg_chains (ledger_of ?s) = lg_chains (append_to_log e (ledger_of st))"
    by (simp add: ledger_of_def append_to_log_def fun_eq_iff chain_advance_head)
  show "lg_max (ledger_of ?s) = lg_max (append_to_log e (ledger_of st))"
    by (auto simp: ledger_of_def append_to_log_def fun_eq_iff count_and_send_def update_origin_tracking_def fm_get_or_def
        max_def split: option.splits)
  have "account_at ?s = account_at st"
    by (simp add: fun_eq_iff account_at_def count_and_send_def update_origin_tracking_def)
  then show "lg_accounts (ledger_of ?s) = lg_accounts (append_to_log e (ledger_of st))"
    by (simp add: ledger_of_def append_to_log_def)
qed (simp_all add: ledger_of_def append_to_log_def count_and_send_def update_origin_tracking_def)

lemma ledger_record [simp]: "ledger_of (record_new_local_event B sha e st) = append_to_log e (ledger_of st)"
  by (simp add: record_new_local_event_def ledger_advance_send)

lemma ledger_flush [simp]: "ledger_of (flush_local_events B sha es st) = fold append_to_log es (ledger_of st)"
  unfolding flush_local_events_def by (induction es arbitrary: st) simp_all

lemma ledger_correction:
  assumes "etype e \<in> {Void, HoldRelease}"
  shows "ledger_of (apply_correction_event B sha e st) = accept_event e (ledger_of st)"
proof -
  let ?s1 = "with_account (balance_key e) (\<lambda>a. release_of e (count_event (amount e) a)) (store_event_buffer e st)"
  have "release_of e (count_event (amount e) a) = apply_event e a" for a
    using assms by (auto simp: apply_event_def track_reservation_def has_hold_def)
  then have a: "ledger_of ?s1 = apply_to_account e (ledger_of st)"
    using ledger_apply [of e "balance_key e" "\<lambda>a. release_of e (count_event (amount e) a)" "store_event_buffer e st"] by simp
  have "ledger_of (apply_correction_event B sha e st) =
      ledger_of (count_and_send e (update_origin_tracking e (advance_head B sha (epoch_key e) (origin_seq e) ?s1)))"
    by (rule ledger_eqI)
      (simp_all add: apply_correction_event_def Let_def ledger_of_def cache_event_def count_and_send_def
        update_origin_tracking_def chain_at_def [abs_def] account_at_def [abs_def])
  then show ?thesis using a by (simp add: ledger_advance_send accept_event_def)
qed

lemma ledger_cascade:
  assumes "b \<noteq> META_BUCKET"
  shows "ledger_of (apply_bucket_delete_cascade B b (st\<lparr>deleted_buckets := fmupd b t (deleted_buckets st)\<rparr>)) =
         clear_bucket b (ledger_of st)"
  using assms
  by (auto simp: apply_bucket_delete_cascade_def clear_bucket_def ledger_of_def chain_at_def account_at_def fun_eq_iff)

subsection \<open>Local creation\<close>

lemmas event_frames = minted_def charge_reservation_event_def charge_standard_event_def transfer_credit_event_def
  settle_charge_event_def settle_release_event_def bucket_delete_event_def void_event_def conflict_release_event_def

lemma ledger_allocate_or_fail: "allocate_or_fail B b x y st = (r, st') \<Longrightarrow> ledger_of st' = ledger_of st"
  by (auto simp: allocate_or_fail_def split: prod.splits option.splits)

lemma apply_event_reservation:
  "etype e = ReservationCreate \<Longrightarrow> amount e = 0 \<Longrightarrow>
   track_reservation e (a\<lparr>acct_event_count := acct_event_count a + 1\<rparr>) = apply_event e a"
  by (simp add: apply_event_def release_of_def count_event_def track_reservation_def split: option.splits)

lemma apply_event_plain:
  "etype e = Standard \<Longrightarrow> hold_amount e = 0 \<Longrightarrow> count_event (amount e) a = apply_event e a"
  by (simp add: apply_event_def release_of_def track_reservation_def has_hold_def split: option.splits)

lemma apply_event_release:
  "etype e = HoldRelease \<Longrightarrow> amount e = 0 \<Longrightarrow> void_ref e = Some i \<Longrightarrow>
   apply_release i (a\<lparr>acct_event_count := acct_event_count a + 1\<rparr>) = apply_event e a"
  by (simp add: apply_event_def release_of_def count_event_def track_reservation_def has_hold_def)

text \<open>The events a call emits all belong to the bucket of the request and to this node.\<close>

definition own_events :: "'s shared_state \<Rightarrow> string \<Rightarrow> event list \<Rightarrow> bool" where
  "own_events st b es \<longleftrightarrow> (\<forall>e\<in>set es. bucket e = b \<and> origin_node_id e = node_id st)"

lemma node_id_simps [simp]:
  "node_id (cache_event k e st) = node_id st" "node_id (with_account bk f st) = node_id st"
  "allocate_in B b st = (r, st') \<Longrightarrow> node_id st' = node_id st"
  by (auto simp: cache_event_def with_account_def allocate_in_def split: prod.splits)

lemma node_id_allocate_or_fail: "allocate_or_fail B b x y st = (r, st') \<Longrightarrow> node_id st' = node_id st"
  by (auto simp: allocate_or_fail_def split: prod.splits option.splits)

lemma charge_reservation_ledger:
  assumes "charge_reservation B en inp hold ex now st = (Inr es, st')"
  shows "ledger_of st' = fold apply_to_account es (ledger_of st) \<and> own_events st (in_bucket inp) es \<and> node_id st' = node_id st"
proof (cases "hold > 0")
  case False
  with assms show ?thesis by (simp add: charge_reservation_def own_events_def)
next
  case True
  then obtain pos st1 where al: "allocate_or_fail B (in_bucket inp) (acct_balance (account_at st (in_balance_key inp)))
      (available_balance (account_at st (in_balance_key inp)) now) st = (Inr pos, st1)"
    using assms by (auto simp: charge_reservation_def Let_def split: prod.splits sum.splits)
  let ?e = "charge_reservation_event en st1 pos inp hold ex now"
  have "ledger_of (with_account (in_balance_key inp)
      (\<lambda>a. track_reservation ?e (a\<lparr>acct_event_count := acct_event_count a + 1\<rparr>)) st1) = apply_to_account ?e (ledger_of st1)"
    by (rule ledger_apply)
      (simp_all add: event_frames balance_key_def in_balance_key_def apply_event_reservation)
  with assms True al ledger_allocate_or_fail [OF al] node_id_allocate_or_fail [OF al] show ?thesis
    by (auto simp: charge_reservation_def Let_def own_events_def event_frames)
qed

lemma charge_standard_ledger:
  assumes "charge_standard B en inp now st = (Inr e, st')"
  shows "ledger_of st' = apply_to_account e (ledger_of st) \<and> own_events st (in_bucket inp) [e] \<and> node_id st' = node_id st"
proof -
  obtain pos st1 where al: "allocate_or_fail B (in_bucket inp) (acct_balance (account_at st (in_balance_key inp)))
      (available_balance (account_at st (in_balance_key inp)) now) st = (Inr pos, st1)"
    using assms by (auto simp: charge_standard_def Let_def split: prod.splits sum.splits)
  let ?e = "charge_standard_event en st1 pos inp now"
  have "ledger_of (with_account (in_balance_key inp) (count_event (in_amount inp)) st1) = apply_to_account ?e (ledger_of st1)"
    using apply_event_plain [of ?e]
    by (intro ledger_apply) (simp_all add: event_frames balance_key_def in_balance_key_def)
  with assms al ledger_allocate_or_fail [OF al] node_id_allocate_or_fail [OF al] show ?thesis
    by (auto simp: charge_standard_def Let_def own_events_def event_frames)
qed

lemma transfer_credit_ledger:
  assumes "transfer_credit B en inp now st = (Done es, st')"
  shows "ledger_of st' = fold apply_to_account es (ledger_of st) \<and> own_events st (in_bucket inp) es \<and> node_id st' = node_id st"
proof (cases "in_transfer_to inp")
  case None
  with assms show ?thesis by (simp add: transfer_credit_def own_events_def)
next
  case (Some to_addr)
  let ?k = "(in_bucket inp, to_addr)" and ?st0 = "with_account (in_bucket inp, to_addr) id st"
  obtain credit pos st1 where cr: "checked_abs (in_amount inp) = Some credit" "to_addr \<noteq> in_account inp"
    and al: "allocate_or_fail B (in_bucket inp) (acct_balance (account_at ?st0 ?k))
      (available_balance (account_at ?st0 ?k) now) ?st0 = (Inr pos, st1)"
    using assms Some by (auto simp: transfer_credit_def Let_def split: prod.splits sum.splits option.splits if_splits)
  let ?e = "transfer_credit_event en st1 pos inp to_addr credit now"
  have "ledger_of (with_account ?k (count_event credit) st1) = apply_to_account ?e (ledger_of st1)"
    using apply_event_plain [of ?e] by (intro ledger_apply) (simp_all add: event_frames balance_key_def)
  with assms Some cr al ledger_allocate_or_fail [OF al] node_id_allocate_or_fail [OF al] show ?thesis
    by (auto simp: transfer_credit_def Let_def own_events_def event_frames)
qed

lemma emit_charge_ledger:
  assumes "emit_charge_locked B sha en inp ho now st = (Done r, st')"
  shows "ledger_of st' = fold accept_event (emitted_events r) (ledger_of st) \<and>
         own_events st (in_bucket inp) (emitted_events r) \<and> emitted_events r \<noteq> []"
proof -
  obtain hold ex where h: "charge_hold st (account_at st (in_balance_key inp)) inp ho now = (hold, ex)" by force
  obtain rs st1 where r1: "charge_reservation B en inp hold ex now st = (Inr rs, st1)"
    using assms h by (auto simp: emit_charge_locked_def Let_def split: option.splits prod.splits sum.splits)
  obtain c st2 where r2: "charge_standard B en inp now st1 = (Inr c, st2)"
    using assms h r1 by (auto simp: emit_charge_locked_def Let_def split: option.splits prod.splits sum.splits)
  obtain cs st3 where r3: "transfer_credit B en inp now st2 = (Done cs, st3)"
    using assms h r1 r2 by (auto simp: emit_charge_locked_def Let_def split: option.splits prod.splits outcome.splits)
  have res: "emitted_events r = rs @ [c] @ cs" "st' = flush_local_events B sha (rs @ [c] @ cs) st3"
    using assms h r1 r2 r3 by (auto simp: emit_charge_locked_def Let_def split: option.splits)
  have "ledger_of st3 = fold apply_to_account (rs @ [c] @ cs) (ledger_of st)"
    using charge_reservation_ledger [OF r1] charge_standard_ledger [OF r2] transfer_credit_ledger [OF r3] by simp
  then have "ledger_of st' = fold accept_event (rs @ [c] @ cs) (ledger_of st)"
    unfolding res(2) ledger_flush by (simp only: fold_accept)
  moreover have "own_events st (in_bucket inp) (rs @ [c] @ cs)"
    using charge_reservation_ledger [OF r1] charge_standard_ledger [OF r2] transfer_credit_ledger [OF r3]
    by (auto simp: own_events_def)
  ultimately show ?thesis by (simp add: res(1))
qed

lemma emit_reserve_ledger:
  assumes "emit_reserve_locked B sha en inp now st = (Done r, st')"
  shows "ledger_of st' = fold accept_event (emitted_events r) (ledger_of st) \<and>
         own_events st (in_bucket inp) (emitted_events r) \<and> emitted_events r \<noteq> []"
proof -
  let ?a = "account_at st (in_balance_key inp)"
  obtain pos st1 where al: "allocate_or_fail B (in_bucket inp) (acct_balance ?a) (available_balance ?a now) st = (Inr pos, st1)"
    using assms by (auto simp: emit_reserve_locked_def Let_def split: prod.splits sum.splits if_splits)
  then obtain e where e: "emitted_events r = [e]" "etype e = ReservationCreate" "amount e = 0"
      "balance_key e = in_balance_key inp" "origin_node_id e = node_id st1" "bucket e = in_bucket inp" and
    st': "st' = flush_local_events B sha [e] (cache_event (in_idempotency_nonce inp, in_bucket inp, in_account inp, 0) e
      (with_account (in_balance_key inp) (\<lambda>a. track_reservation e (a\<lparr>acct_event_count := acct_event_count a + 1\<rparr>)) st1))"
    using assms by (auto simp: emit_reserve_locked_def Let_def balance_key_def in_balance_key_def event_frames split: if_splits)
  have "ledger_of (with_account (in_balance_key inp)
      (\<lambda>a. track_reservation e (a\<lparr>acct_event_count := acct_event_count a + 1\<rparr>)) st1) = apply_to_account e (ledger_of st1)"
    by (rule ledger_apply) (simp_all add: e apply_event_reservation)
  with e st' ledger_allocate_or_fail [OF al] node_id_allocate_or_fail [OF al] show ?thesis
    by (auto simp: own_events_def accept_event_def)
qed

lemma emit_settle_ledger:
  assumes "emit_settle_locked B sha en inp rid now st = (Done r, st')"
  shows "ledger_of st' = fold accept_event (emitted_events r) (ledger_of st) \<and>
         own_events st (in_bucket inp) (emitted_events r) \<and> emitted_events r \<noteq> []"
proof -
  let ?k = "in_balance_key inp" and ?a = "account_at st (in_balance_key inp)"
  obtain pos1 st1 pos2 st2 where
    al1: "allocate_or_fail B (in_bucket inp) (acct_balance ?a) (available_balance ?a now) st = (Inr pos1, st1)" and
    al2: "allocate_or_fail B (in_bucket inp) (acct_balance ?a) (available_balance ?a now) st1 = (Inr pos2, st2)"
    using assms by (auto simp: emit_settle_locked_def Let_def split: prod.splits sum.splits if_splits)
  let ?c = "settle_charge_event en st2 pos1 inp now" and ?l = "settle_release_event en st2 pos2 inp rid now"
  let ?f = "\<lambda>a. apply_release rid (a\<lparr>acct_balance := acct_balance a + in_amount inp, acct_event_count := acct_event_count a + 2\<rparr>)"
  have res: "emitted_events r = [?c, ?l]"
    "st' = flush_local_events B sha [?c, ?l] (cache_event (idempotency_nonce ?l, in_bucket inp, in_account inp, 0) ?l
       (cache_event (in_idem_key inp) ?c (with_account ?k ?f st2)))"
    using assms al1 al2 by (auto simp: emit_settle_locked_def Let_def split: sum.splits if_splits)
  have keys: "balance_key ?c = ?k" "balance_key ?l = ?k"
    by (simp_all add: event_frames balance_key_def in_balance_key_def)
  have "?f a = apply_event ?l (apply_event ?c a)" for a
    by (simp add: apply_event_def release_of_def count_event_def track_reservation_def has_hold_def event_frames apply_release_def)
  then have "ledger_of (with_account ?k ?f st2) = apply_to_account ?l (apply_to_account ?c (ledger_of st2))"
    unfolding ledger_with_account by (simp add: apply_to_account_def keys) (simp add: ledger_of_def)
  moreover have "ledger_of st2 = ledger_of st" "node_id st2 = node_id st"
    using ledger_allocate_or_fail [OF al1] ledger_allocate_or_fail [OF al2]
      node_id_allocate_or_fail [OF al1] node_id_allocate_or_fail [OF al2] by simp_all
  ultimately show ?thesis
    using fold_accept [of "[?c, ?l]" "ledger_of st"] by (simp add: res own_events_def event_frames)
qed

lemma emit_release_ledger:
  assumes "emit_release_locked B sha en inp rid now st = (Done r, st')"
  shows "ledger_of st' = fold accept_event (emitted_events r) (ledger_of st) \<and>
         own_events st (in_bucket inp) (emitted_events r) \<and> emitted_events r \<noteq> []"
proof -
  let ?a = "account_at st (in_balance_key inp)"
  obtain pos st1 where al: "allocate_or_fail B (in_bucket inp) (acct_balance ?a) (available_balance ?a now) st = (Inr pos, st1)"
    using assms by (auto simp: emit_release_locked_def Let_def split: prod.splits sum.splits)
  then obtain e where e: "emitted_events r = [e]" "etype e = HoldRelease" "amount e = 0" "void_ref e = Some rid"
      "balance_key e = in_balance_key inp" "origin_node_id e = node_id st1" "bucket e = in_bucket inp" and
    st': "st' = flush_local_events B sha [e] (cache_event (in_idempotency_nonce inp, in_bucket inp, in_account inp, 0) e
      (with_account (in_balance_key inp) (\<lambda>a. apply_release rid (a\<lparr>acct_event_count := acct_event_count a + 1\<rparr>)) st1))"
    using assms by (auto simp: emit_release_locked_def Let_def balance_key_def in_balance_key_def event_frames split: sum.splits)
  have "ledger_of (with_account (in_balance_key inp)
      (\<lambda>a. apply_release rid (a\<lparr>acct_event_count := acct_event_count a + 1\<rparr>)) st1) = apply_to_account e (ledger_of st1)"
    by (rule ledger_apply) (simp_all add: e apply_event_release)
  with e st' ledger_allocate_or_fail [OF al] node_id_allocate_or_fail [OF al] show ?thesis
    by (auto simp: own_events_def accept_event_def)
qed

lemma emit_mode_ledger:
  assumes "emit_mode B sha en inp mode now st = (Done r, st')"
  shows "ledger_of st' = fold accept_event (emitted_events r) (ledger_of st) \<and>
         own_events st (in_bucket inp) (emitted_events r) \<and> emitted_events r \<noteq> []"
  using assms emit_charge_ledger emit_reserve_ledger emit_settle_ledger emit_release_ledger
  unfolding emit_mode_def by (cases mode) fastforce+

lemma create_done_ledger:
  assumes "create_local_events B sha en inp st = (Done r, st')"
  shows "ledger_of st' = fold accept_event (emitted_events r) (ledger_of st)"
    and "own_events st (in_bucket inp) (emitted_events r)"
    and "in_bucket inp \<notin> lg_deleted (ledger_of st)"
proof -
  have nd: "fmlookup (deleted_buckets st) (in_bucket inp) = None"
    using assms by (auto simp: create_local_events_def split: if_splits)
  obtain mode where mode: "from_input (env_now en 0) inp = Inr mode"
    using assms by (auto simp: create_local_events_def split: if_splits sum.splits)
  let ?st1 = "with_account (in_balance_key inp) id st"
  have own: "own_events ?st1 b es = own_events st b es" for b es by (simp add: own_events_def)
  have "ledger_of st' = fold accept_event (emitted_events r) (ledger_of st) \<and> own_events st (in_bucket inp) (emitted_events r)"
  proof (cases "fmlookup (idempotency_cache ?st1) (in_idem_key inp)")
    case (Some e)
    with assms mode nd show ?thesis
      by (auto simp: create_local_events_def Let_def own_events_def split: if_splits)
  next
    case None
    show ?thesis
    proof (cases "be_find_by_idempotency_key B (storage ?st1) (in_idempotency_nonce inp) (in_bucket inp) (in_account inp)
        (in_amount inp) \<in> {None, Some []}")
      case True
      then have "emit_mode B sha en inp mode (env_now en 1) ?st1 = (Done r, st')"
        using assms mode nd None by (auto simp: create_local_events_def Let_def split: if_splits)
      from emit_mode_ledger [OF this] show ?thesis by (simp add: own)
    next
      case False
      then obtain m ms where "be_find_by_idempotency_key B (storage ?st1) (in_idempotency_nonce inp) (in_bucket inp)
          (in_account inp) (in_amount inp) = Some (m # ms)"
        by (metis insert_iff neq_Nil_conv not_Some_eq)
      with assms mode nd None show ?thesis
        by (auto simp: create_local_events_def Let_def own_events_def split: if_splits)
    qed
  qed
  then show "ledger_of st' = fold accept_event (emitted_events r) (ledger_of st)"
    "own_events st (in_bucket inp) (emitted_events r)" by auto
  show "in_bucket inp \<notin> lg_deleted (ledger_of st)" using nd by (simp add: ledger_of_def fmlookup_dom'_iff)
qed

lemma delete_done_ledger:
  assumes "create_meta_bucket_delete B sha en target reason st = (Inr e, st')"
  shows "ledger_of st' = append_to_log e (clear_bucket target (ledger_of st))"
    and "meta_target_bucket e = Some target" and "amount e = 0" and "target \<noteq> META_BUCKET"
proof -
  obtain pos st1 where al: "allocate_in B META_BUCKET st = (Some pos, st1)" and nm: "target \<noteq> META_BUCKET"
    and st': "e = bucket_delete_event en st1 pos target reason"
      "st' = record_new_local_event B sha e (apply_bucket_delete_cascade B target
         (st1\<lparr>deleted_buckets := fmupd target (env_now en 0) (deleted_buckets st1)\<rparr>))"
    using assms by (auto simp: create_meta_bucket_delete_def Let_def split: if_splits prod.splits option.splits)
  show "ledger_of st' = append_to_log e (clear_bucket target (ledger_of st))"
    using al by (simp add: st'(2) ledger_cascade [OF nm])
  show "meta_target_bucket e = Some target" "amount e = 0" "target \<noteq> META_BUCKET"
    using nm by (simp_all add: st'(1) meta_target_bucket_def event_frames)
qed

subsection \<open>Replication\<close>

definition cache_ok :: "'s shared_state \<Rightarrow> bool" where
  "cache_ok st \<longleftrightarrow> (\<forall>k x. fmlookup (idempotency_cache st) k = Some x \<longrightarrow> idempotency_key x = k)"

lemma cache_okD: "cache_ok st \<Longrightarrow> fmlookup (idempotency_cache st) k = Some x \<Longrightarrow> idempotency_key x = k"
  unfolding cache_ok_def by blast

lemma cache_okI: "(\<And>k x. fmlookup (idempotency_cache st) k = Some x \<Longrightarrow> idempotency_key x = k) \<Longrightarrow> cache_ok st"
  unfolding cache_ok_def by blast

definition corrections_of :: "'s shared_state \<Rightarrow> event \<Rightarrow> event list \<Rightarrow> bool" where
  "corrections_of st e cs \<longleftrightarrow>
     (\<forall>c\<in>set cs. etype c \<in> {Void, HoldRelease} \<and> balance_key c = balance_key e \<and> origin_node_id c = node_id st)"

lemma idempotency_key_balance: "idempotency_key x = idempotency_key e \<Longrightarrow> balance_key x = balance_key e \<and> amount x = amount e"
  by (simp add: idempotency_key_def balance_key_def)

lemma release_loser_ledger:
  "\<exists>cs. ledger_of (release_loser_hold B sha en w l st) = fold accept_event cs (ledger_of st) \<and> corrections_of st l cs \<and>
        (\<forall>c\<in>set cs. amount c = 0) \<and> length cs \<le> 1"
proof (cases "\<exists>pos st1. has_hold l \<and>
    \<not> fm_contains (idempotency_cache st) (''release:'' @ event_id l, bucket l, account l, 0) \<and>
    allocate_in B (bucket l) st = (Some pos, st1)")
  case True
  then obtain pos st1 where c: "has_hold l" "\<not> fm_contains (idempotency_cache st) (''release:'' @ event_id l, bucket l, account l, 0)"
    and al: "allocate_in B (bucket l) st = (Some pos, st1)" by blast
  let ?c = "conflict_release_event en (node_id st1) pos w l"
  have "release_loser_hold B sha en w l st = apply_correction_event B sha ?c st1"
    using c al by (simp add: release_loser_hold_def)
  moreover have "ledger_of (apply_correction_event B sha ?c st1) = accept_event ?c (ledger_of st)"
    using al by (simp add: ledger_correction event_frames)
  ultimately show ?thesis
    using al by (intro exI [of _ "[?c]"]) (simp add: corrections_of_def event_frames balance_key_def)
next
  case False
  then have "ledger_of (release_loser_hold B sha en w l st) = ledger_of st"
    by (auto simp: release_loser_hold_def split: prod.splits option.splits)
  then show ?thesis by (intro exI [of _ "[]"]) (simp add: corrections_of_def)
qed

lemma node_id_correction [simp]: "node_id (apply_correction_event B sha e st) = node_id st"
  by (simp add: apply_correction_event_def Let_def update_origin_tracking_def store_event_buffer_def cache_event_def with_account_def)

text \<open>Voiding a losing event appends one void of the opposite amount, and possibly a release.\<close>

lemma void_loser_ledger:
  obtains (none) "ledger_of (void_loser B sha en w l st) = ledger_of st"
  | (void) v cs where "ledger_of (void_loser B sha en w l st) = fold accept_event (v # cs) (ledger_of st)"
      "corrections_of st l (v # cs)" "etype v = Void" "amount v = - amount l" "void_ref v = Some (event_id l)"
      "\<forall>c\<in>set cs. amount c = 0" "length cs \<le> 1"
proof (cases "fm_contains (idempotency_cache st) (''void:'' @ event_id l, bucket l, account l, - amount l) \<or>
    (case be_find_by_idempotency_key B (storage st) (''void:'' @ event_id l) (bucket l) (account l) (- amount l) of
       Some ms \<Rightarrow> ms \<noteq> [] | None \<Rightarrow> False)")
  case True
  then show thesis by (intro none) (auto simp: void_loser_def Let_def)
next
  case False
  show thesis
  proof (cases "allocate_in B (bucket l) st")
    case (Pair r st1)
    show thesis
    proof (cases r)
      case None
      with False Pair show thesis by (intro none) (simp add: void_loser_def Let_def)
    next
      case (Some pos)
      let ?v = "void_event en (node_id st1) pos w l"
      let ?s = "apply_correction_event B sha ?v st1"
      have eq: "void_loser B sha en w l st = release_loser_hold B sha en w l ?s"
        using False Pair Some by (simp add: void_loser_def Let_def)
      obtain cs where cs: "ledger_of (release_loser_hold B sha en w l ?s) = fold accept_event cs (ledger_of ?s)"
        "corrections_of ?s l cs" "\<forall>c\<in>set cs. amount c = 0" "length cs \<le> 1"
        using release_loser_ledger by blast
      have "ledger_of ?s = accept_event ?v (ledger_of st)"
        using Pair Some by (simp add: ledger_correction event_frames)
      with cs Pair Some show thesis
        by (intro void [of ?v cs]) (auto simp: eq corrections_of_def event_frames balance_key_def)
    qed
  qed
qed

lemma conflict_ledger:
  assumes "cache_ok st"
  obtains cs where "ledger_of (check_idempotency_conflict B sha en e st) = fold accept_event cs (ledger_of st)"
    "corrections_of st e cs" "cs = [] \<or> sum_list (map amount cs) = - amount e"
proof (cases "\<exists>x. fmlookup (idempotency_cache st) (idempotency_key e) = Some x \<and> event_id x \<noteq> event_id e")
  case False
  then have "ledger_of (check_idempotency_conflict B sha en e st) = ledger_of st"
    by (cases "fmlookup (idempotency_cache st) (idempotency_key e)") (simp_all add: check_idempotency_conflict_def)
  then show thesis by (intro that [of "[]"]) (simp_all add: corrections_of_def)
next
  case True
  then obtain x where x: "fmlookup (idempotency_cache st) (idempotency_key e) = Some x" "event_id x \<noteq> event_id e" by blast
  obtain w l where wl: "idempotency_winner x e = (w, l)" by force
  have "l \<in> {x, e}" using wl by (auto simp: idempotency_winner_cases split: if_splits)
  then have l: "balance_key l = balance_key e" "amount l = amount e"
    using cache_okD [OF assms x(1)] idempotency_key_balance [of x e] by auto
  let ?s = "cache_event (idempotency_key e) w st"
  have eq: "check_idempotency_conflict B sha en e st = void_loser B sha en w l ?s"
    using x wl by (simp add: check_idempotency_conflict_def)
  show thesis
  proof (cases rule: void_loser_ledger [of B sha en w l ?s])
    case none
    then show thesis by (intro that [of "[]"]) (simp_all add: eq corrections_of_def)
  next
    case (void v cs)
    have "sum_list (map amount cs) = 0"
      using void(6) by (induction cs) auto
    with void l show thesis
      by (intro that [of "v # cs"]) (auto simp: eq corrections_of_def)
  qed
qed

lemma ledger_apply_meta:
  "ledger_of (apply_meta B e st) =
     (case meta_target_bucket e of
        Some t \<Rightarrow> if t \<noteq> META_BUCKET then clear_bucket t (ledger_of st) else ledger_of st
      | None \<Rightarrow> ledger_of st)"
  by (auto simp: apply_meta_def ledger_cascade split: option.splits)

definition clear_target :: "event \<Rightarrow> ledger \<Rightarrow> ledger" where
  "clear_target e l =
     (case meta_target_bucket e of
        Some t \<Rightarrow> if t \<noteq> META_BUCKET then clear_bucket t l else l | None \<Rightarrow> l)"

lemma cache_ok_cong: "idempotency_cache st' = idempotency_cache st \<Longrightarrow> cache_ok st' = cache_ok st"
  by (simp add: cache_ok_def)

lemma insert_done_ledger:
  assumes ins: "insert_event B sha en e st = (True, st')" and ok: "cache_ok st"
  obtains cs where "ledger_of st' = fold accept_event (e # cs) (clear_target e (ledger_of st))"
    "corrections_of st e cs" "cs = [] \<or> sum_list (map amount cs) = - amount e"
    "bucket e \<notin> lg_deleted (ledger_of st)" "\<not> event_is_present e st"
proof -
  let ?s1 = "apply_meta B e (st\<lparr>event_buffer := fmupd (origin_key e) e (event_buffer st)\<rparr>)"
  let ?s2 = "with_account (balance_key e) (apply_event e) ?s1"
  let ?s3 = "?s2\<lparr>unpersisted := fmupd (origin_key e) (created_at_unix_ms e) (unpersisted ?s2)\<rparr>"
  let ?s5 = "count_and_send e (update_origin_tracking e (advance_head B sha (epoch_key e) (origin_seq e) ?s3))"
  have guards: "fmlookup (deleted_buckets st) (bucket e) = None" "\<not> event_is_present e st"
    and st': "st' = check_idempotency_conflict B sha en e ?s5"
    using ins by (auto simp: insert_event_def Let_def split: if_splits)
  have buf: "ledger_of (st\<lparr>event_buffer := m\<rparr>) = ledger_of st" for m
    by (simp add: ledger_of_def account_at_def [abs_def] chain_at_def [abs_def])
  have unp: "ledger_of (t\<lparr>unpersisted := m\<rparr>) = ledger_of t" for t :: "'a shared_state" and m
    by (simp add: ledger_of_def account_at_def [abs_def] chain_at_def [abs_def])
  have "ledger_of ?s5 = append_to_log e (ledger_of ?s2)"
    by (simp only: ledger_advance_send unp)
  also have "ledger_of ?s2 = apply_to_account e (ledger_of ?s1)"
    by (rule ledger_apply) simp_all
  also have "ledger_of ?s1 = clear_target e (ledger_of st)"
    unfolding ledger_apply_meta clear_target_def buf ..
  finally have l5: "ledger_of ?s5 = accept_event e (clear_target e (ledger_of st))"
    by (simp add: accept_event_def)
  have "cache_ok (apply_meta B e t) \<and> node_id (apply_meta B e t) = node_id t" if "cache_ok t" for t
    using that by (auto simp: apply_meta_def apply_bucket_delete_cascade_def cache_ok_def split: option.splits)
  then have "cache_ok ?s1 \<and> node_id ?s1 = node_id st"
    using ok cache_ok_cong [of "st\<lparr>event_buffer := fmupd (origin_key e) e (event_buffer st)\<rparr>" st] by simp
  then have c5: "cache_ok ?s5" "node_id ?s5 = node_id st"
    using cache_ok_cong [of ?s5 ?s1]
    by (simp_all add: count_and_send_def update_origin_tracking_def with_account_def)
  obtain cs where "ledger_of st' = fold accept_event cs (ledger_of ?s5)" "corrections_of ?s5 e cs"
    "cs = [] \<or> sum_list (map amount cs) = - amount e"
    unfolding st' using conflict_ledger [OF c5(1)] by blast
  with l5 guards c5(2) show thesis
    by (intro that [of cs]) (auto simp: corrections_of_def ledger_of_def fmlookup_dom'_iff)
qed

end
