(* ===== verification/Reachability.thy ===== *)
theory Reachability
  imports Ledger
begin

section \<open>Replay of the log\<close>

definition replay_account :: "event list \<Rightarrow> balance_key \<Rightarrow> account_state" where
  "replay_account es k = fold apply_event (filter (\<lambda>e. balance_key e = k) es) account_new"

definition replay_chain_of :: "event list \<Rightarrow> epoch_key \<Rightarrow> u64 \<times> u64 fset" where
  "replay_chain_of es ek = fold (\<lambda>q c. advance_chain c q) (map origin_seq (filter (\<lambda>e. epoch_key e = ek) es)) (0, {||})"

definition replay_max :: "event list \<Rightarrow> epoch_key \<Rightarrow> u64" where
  "replay_max es ek = fold max (map origin_seq (filter (\<lambda>e. epoch_key e = ek) es)) 0"

definition log_balance :: "event list \<Rightarrow> balance_key \<Rightarrow> i64" where
  "log_balance es k = sum_list (map amount (filter (\<lambda>e. balance_key e = k) es))"

lemma fold_apply_balance: "acct_balance (fold apply_event es a) = acct_balance a + sum_list (map amount es)"
  by (induction es arbitrary: a) (simp_all add: algebra_simps)

lemma fold_apply_count: "acct_event_count (fold apply_event es a) = acct_event_count a + word_of_nat (length es)"
  by (induction es arbitrary: a) (simp_all add: algebra_simps)

lemma replay_account_balance: "acct_balance (replay_account es k) = log_balance es k"
  by (simp add: replay_account_def log_balance_def fold_apply_balance) (simp add: account_new_def)

lemma replay_snoc:
  "replay_account (es @ [e]) k = (if balance_key e = k then apply_event e (replay_account es k) else replay_account es k)"
  "replay_chain_of (es @ [e]) ek =
     (if epoch_key e = ek then advance_chain (replay_chain_of es ek) (origin_seq e) else replay_chain_of es ek)"
  "replay_max (es @ [e]) ek = (if epoch_key e = ek then max (replay_max es ek) (origin_seq e) else replay_max es ek)"
  "log_balance (es @ [e]) k = (if balance_key e = k then log_balance es k + amount e else log_balance es k)"
  by (auto simp: replay_account_def replay_chain_of_def replay_max_def log_balance_def max.commute)

subsection \<open>Consistency of the caches with the log\<close>

text \<open>
  The caches of a live bucket are the replay of the log; a deleted bucket has no trace. The
  account view of the meta bucket is exempt: the node that issues a delete records its own
  meta event without touching an account, while its replicas count it.
\<close>

definition cleared :: "ledger \<Rightarrow> bool" where
  "cleared l \<longleftrightarrow>
     (\<forall>k. fst k \<in> lg_deleted l \<longrightarrow> lg_accounts l k = account_new) \<and>
     (\<forall>ek. fst ek \<in> lg_deleted l \<longrightarrow> lg_chains l ek = (0, {||}) \<and> lg_max l ek = 0) \<and>
     META_BUCKET \<notin> lg_deleted l"

definition books_balance :: "ledger \<Rightarrow> bool" where
  "books_balance l \<longleftrightarrow>
     (\<forall>k. fst k \<notin> lg_deleted l \<longrightarrow> acct_balance (lg_accounts l k) = log_balance (lg_log l) k)"

definition chains_replay :: "ledger \<Rightarrow> bool" where
  "chains_replay l \<longleftrightarrow>
     (\<forall>ek. fst ek \<notin> lg_deleted l \<longrightarrow>
        lg_chains l ek = replay_chain_of (lg_log l) ek \<and> lg_max l ek = replay_max (lg_log l) ek) \<and>
     lg_count l = word_of_nat (length (lg_log l))"

definition accounts_replay :: "ledger \<Rightarrow> bool" where
  "accounts_replay l \<longleftrightarrow>
     (\<forall>k. fst k \<notin> lg_deleted l \<longrightarrow> fst k \<noteq> META_BUCKET \<longrightarrow> lg_accounts l k = replay_account (lg_log l) k)"

lemma accept_fields [simp]:
  "lg_log (accept_event e l) = lg_log l @ [e]"
  "lg_deleted (accept_event e l) = lg_deleted l"
  "lg_count (accept_event e l) = lg_count l + 1"
  "lg_accounts (accept_event e l) k = (if k = balance_key e then apply_event e (lg_accounts l k) else lg_accounts l k)"
  "lg_chains (accept_event e l) ek = (if ek = epoch_key e then advance_chain (lg_chains l ek) (origin_seq e) else lg_chains l ek)"
  "lg_max (accept_event e l) ek = (if ek = epoch_key e then max (lg_max l ek) (origin_seq e) else lg_max l ek)"
  by (simp_all add: accept_event_def append_to_log_def apply_to_account_def)

lemma append_fields [simp]:
  "lg_log (append_to_log e l) = lg_log l @ [e]"
  "lg_deleted (append_to_log e l) = lg_deleted l"
  "lg_count (append_to_log e l) = lg_count l + 1"
  "lg_accounts (append_to_log e l) = lg_accounts l"
  "lg_chains (append_to_log e l) ek = (if ek = epoch_key e then advance_chain (lg_chains l ek) (origin_seq e) else lg_chains l ek)"
  "lg_max (append_to_log e l) ek = (if ek = epoch_key e then max (lg_max l ek) (origin_seq e) else lg_max l ek)"
  by (simp_all add: append_to_log_def)

lemma clear_fields [simp]:
  "lg_log (clear_bucket b l) = lg_log l"
  "lg_deleted (clear_bucket b l) = insert b (lg_deleted l)"
  "lg_count (clear_bucket b l) = lg_count l"
  "lg_accounts (clear_bucket b l) k = (if fst k = b then account_new else lg_accounts l k)"
  "lg_chains (clear_bucket b l) ek = (if fst ek = b then (0, {||}) else lg_chains l ek)"
  "lg_max (clear_bucket b l) ek = (if fst ek = b then 0 else lg_max l ek)"
  by (simp_all add: clear_bucket_def)

text \<open>The three consistency predicates that every step keeps.\<close>

definition ledger_ok :: "ledger \<Rightarrow> bool" where
  "ledger_ok l \<longleftrightarrow> cleared l \<and> books_balance l \<and> chains_replay l"

lemma ledger_ok_accept:
  assumes "ledger_ok l" and "bucket e \<notin> lg_deleted l"
  shows "ledger_ok (accept_event e l)"
proof -
  have "cleared (accept_event e l)"
    using assms by (auto simp: ledger_ok_def cleared_def simp del: split_paired_All)
  moreover have "books_balance (accept_event e l)"
    using assms by (auto simp: ledger_ok_def books_balance_def replay_snoc simp del: split_paired_All)
  moreover have "chains_replay (accept_event e l)"
    using assms by (auto simp: ledger_ok_def chains_replay_def replay_snoc simp del: split_paired_All)
  ultimately show ?thesis by (simp add: ledger_ok_def)
qed

lemma ledger_ok_append_meta:
  assumes "ledger_ok l" and "bucket e = META_BUCKET" and "amount e = 0"
  shows "ledger_ok (append_to_log e l)"
proof -
  have "cleared (append_to_log e l)"
    using assms by (auto simp: ledger_ok_def cleared_def simp del: split_paired_All)
  moreover have "books_balance (append_to_log e l)"
    using assms by (auto simp: ledger_ok_def books_balance_def replay_snoc simp del: split_paired_All)
  moreover have "chains_replay (append_to_log e l)"
    using assms by (auto simp: ledger_ok_def chains_replay_def replay_snoc simp del: split_paired_All)
  ultimately show ?thesis by (simp add: ledger_ok_def)
qed

lemma ledger_ok_clear:
  assumes "ledger_ok l" and "b \<noteq> META_BUCKET"
  shows "ledger_ok (clear_bucket b l)"
  using assms by (auto simp: ledger_ok_def cleared_def books_balance_def chains_replay_def simp del: split_paired_All)

lemma ledger_ok_fold:
  assumes "ledger_ok l" and "\<And>e. e \<in> set es \<Longrightarrow> bucket e \<notin> lg_deleted l"
  shows "ledger_ok (fold accept_event es l) \<and> lg_deleted (fold accept_event es l) = lg_deleted l \<and>
         lg_log (fold accept_event es l) = lg_log l @ es"
  using assms
proof (induction es arbitrary: l)
  case (Cons e es)
  with ledger_ok_accept [of l e] Cons.IH [of "accept_event e l"] show ?case by simp
qed simp

lemma accounts_replay_fold:
  "accounts_replay l \<Longrightarrow> accounts_replay (fold accept_event es l)"
proof (induction es arbitrary: l)
  case (Cons e es)
  have "accounts_replay (accept_event e l)" using Cons.prems by (auto simp: accounts_replay_def replay_snoc)
  with Cons.IH show ?case by simp
qed simp

lemma accounts_replay_clear: "accounts_replay l \<Longrightarrow> accounts_replay (clear_bucket b l)"
  by (auto simp: accounts_replay_def)

lemma accounts_replay_append_meta: "accounts_replay l \<Longrightarrow> bucket e = META_BUCKET \<Longrightarrow> accounts_replay (append_to_log e l)"
  by (auto simp: accounts_replay_def replay_snoc balance_key_def)

lemma ledger_ok_clear_target: "ledger_ok l \<Longrightarrow> ledger_ok (clear_target e l)"
  by (auto simp: clear_target_def ledger_ok_clear split: option.splits)

lemma accounts_replay_clear_target: "accounts_replay l \<Longrightarrow> accounts_replay (clear_target e l)"
  by (auto simp: clear_target_def accounts_replay_clear split: option.splits)

lemma deleted_clear_target: "bucket e \<notin> lg_deleted l \<Longrightarrow> bucket e \<notin> lg_deleted (clear_target e l)"
  by (auto simp: clear_target_def meta_target_bucket_def split: option.splits if_splits)

lemma log_clear_target [simp]: "lg_log (clear_target e l) = lg_log l"
  by (auto simp: clear_target_def split: option.splits)

section \<open>Store and cache invariants\<close>

definition store_good :: "('s \<Rightarrow> bool) \<Rightarrow> 's shared_state \<Rightarrow> bool" where
  "store_good I st \<longleftrightarrow> I (storage st) \<and> cache_ok st"

lemma store_good_cong:
  "storage st' = storage st \<Longrightarrow> idempotency_cache st' = idempotency_cache st \<Longrightarrow> store_good I st' = store_good I st"
  by (simp add: store_good_def cache_ok_def)

lemma store_good_frames [simp]:
  "store_good I (with_account k f st) = store_good I st"
  "store_good I (store_event_buffer e st) = store_good I st"
  "store_good I (update_origin_tracking e st) = store_good I st"
  "store_good I (count_and_send e st) = store_good I st"
  "store_good I (sweep_expired_holds now st) = store_good I st"
  "store_good I (st\<lparr>event_buffer := eb\<rparr>) = store_good I st"
  "store_good I (st\<lparr>unpersisted := up\<rparr>) = store_good I st"
  "store_good I (st\<lparr>deleted_buckets := db\<rparr>) = store_good I st"
  "store_good I (st\<lparr>phase := ph\<rparr>) = store_good I st"
  by (rule store_good_cong; simp add: with_account_def store_event_buffer_def update_origin_tracking_def count_and_send_def
      sweep_expired_holds_def)+

lemma store_good_cache:
  "store_good I st \<Longrightarrow> idempotency_key e = k \<Longrightarrow> store_good I (cache_event k e st)"
  by (auto simp: store_good_def cache_event_def intro!: cache_okI dest: cache_okD split: if_splits)

lemma storage_with_account [simp]: "storage (with_account k f st) = storage st"
  by (simp add: with_account_def)

lemma cache_with_account [simp]: "idempotency_cache (with_account k f st) = idempotency_cache st"
  by (simp add: with_account_def)

lemma mark_persisted_one_frame:
  "storage (mark_persisted_one k st) = storage st \<and> idempotency_cache (mark_persisted_one k st) = idempotency_cache st \<and>
   ledger_of (mark_persisted_one k st) = ledger_of st"
  by (simp add: mark_persisted_one_def Let_def ledger_of_def account_at_def [abs_def] chain_at_def [abs_def])

lemma mark_persisted_frame [simp]:
  "storage (mark_persisted ks st) = storage st" "idempotency_cache (mark_persisted ks st) = idempotency_cache st"
  "ledger_of (mark_persisted ks st) = ledger_of st"
proof -
  have "storage (fold mark_persisted_one ks st) = storage st \<and>
      idempotency_cache (fold mark_persisted_one ks st) = idempotency_cache st \<and>
      ledger_of (fold mark_persisted_one ks st) = ledger_of st"
    by (induction ks arbitrary: st) (simp_all add: mark_persisted_one_frame)
  then show "storage (mark_persisted ks st) = storage st"
    "idempotency_cache (mark_persisted ks st) = idempotency_cache st" "ledger_of (mark_persisted ks st) = ledger_of st"
    by (simp_all add: mark_persisted_def)
qed

context node_store
begin

lemma good_advance_head:
  assumes "store_good inv st"
  shows "store_good inv (advance_head B sha ek q st)"
proof -
  obtain b n ep where ek: "ek = (b, n, ep)" by (metis prod_cases3)
  have "\<exists>h d. storage (advance_head B sha ek q st) \<in> {storage st, snd (be_save_digest B (storage st) b n ep h d)}"
    by (simp add: advance_head_def Let_def drain_pending_def update_digest_def prune_closed ek split: prod.splits option.splits) blast
  with assms digest_ok [of "storage st" b n ep] show ?thesis
    by (auto simp: store_good_def cache_ok_cong [of "advance_head B sha ek q st" st])
qed

lemma good_allocate_in:
  assumes "store_good inv st"
  obtains pos st' where "allocate_in B b st = (Some pos, st')" "store_good inv st'"
proof -
  obtain ep q m' s' where "allocate B (node_id st) (bucket_allocators st) (storage st) b = (Some (ep, q), m', s')" "inv s'"
    using assms allocate_total [of "storage st"] unfolding store_good_def by blast
  with assms show thesis
    by (intro that [of "(ep, q)" "st\<lparr>bucket_allocators := m', storage := s'\<rparr>"])
      (simp_all add: allocate_in_def store_good_def cache_ok_def)
qed

lemma good_allocate_in_res: "store_good inv st \<Longrightarrow> allocate_in B b st = (r, st') \<Longrightarrow> store_good inv st' \<and> r \<noteq> None"
  by (metis good_allocate_in option.discI prod.inject)

lemma good_allocate_or_fail:
  "store_good inv st \<Longrightarrow> allocate_or_fail B b x y st = (r, st') \<Longrightarrow> store_good inv st' \<and> (\<exists>pos. r = Inr pos)"
  by (auto simp: allocate_or_fail_def dest: good_allocate_in_res split: prod.splits option.splits)

lemma good_record: "store_good inv st \<Longrightarrow> store_good inv (record_new_local_event B sha e st)"
  by (simp add: record_new_local_event_def good_advance_head)

lemma good_flush: "store_good inv st \<Longrightarrow> store_good inv (flush_local_events B sha es st)"
  unfolding flush_local_events_def by (induction es arbitrary: st) (simp_all add: good_record)

lemma good_correction: "store_good inv st \<Longrightarrow> store_good inv (apply_correction_event B sha e st)"
proof -
  assume "store_good inv st"
  let ?s = "update_origin_tracking e (advance_head B sha (epoch_key e) (origin_seq e)
      (with_account (balance_key e) (\<lambda>a. release_of e (count_event (amount e) a)) (store_event_buffer e st)))"
  have "store_good inv ?s" using \<open>store_good inv st\<close> by (simp add: good_advance_head)
  then have "store_good inv (?s\<lparr>total_event_count := total_event_count ?s + 1\<rparr>)"
    using store_good_cong [of "?s\<lparr>total_event_count := total_event_count ?s + 1\<rparr>" ?s] by simp
  then have "store_good inv (cache_event (idempotency_key e) e (?s\<lparr>total_event_count := total_event_count ?s + 1\<rparr>))"
    by (rule store_good_cache) simp
  then show ?thesis
    using store_good_cong [of "apply_correction_event B sha e st"
        "cache_event (idempotency_key e) e (?s\<lparr>total_event_count := total_event_count ?s + 1\<rparr>)"]
    by (simp add: apply_correction_event_def Let_def)
qed

lemma good_conflict:
  assumes "store_good inv st"
  shows "store_good inv (check_idempotency_conflict B sha en e st)"
proof -
  have rel: "store_good inv (release_loser_hold B sha en w l s)" if "store_good inv s" for w l s
    using that by (auto simp: release_loser_hold_def good_correction dest: good_allocate_in_res split: prod.splits option.splits)
  have void: "store_good inv (void_loser B sha en w l s)" if "store_good inv s" for w l s
    using that by (auto simp: void_loser_def Let_def good_correction rel dest: good_allocate_in_res split: prod.splits option.splits)
  show ?thesis
  proof (cases "fmlookup (idempotency_cache st) (idempotency_key e)")
    case None
    with assms show ?thesis by (simp add: check_idempotency_conflict_def store_good_cache)
  next
    case (Some x)
    have k: "idempotency_key x = idempotency_key e" using assms Some by (auto simp: store_good_def dest: cache_okD)
    obtain w l where wl: "idempotency_winner x e = (w, l)" by force
    then have "w \<in> {x, e}" by (auto simp: idempotency_winner_cases split: if_splits)
    with k have "idempotency_key w = idempotency_key e" by auto
    with assms Some wl void [of "cache_event (idempotency_key e) w st" w l] show ?thesis
      by (simp add: check_idempotency_conflict_def store_good_cache)
  qed
qed

lemma good_cascade: "store_good inv st \<Longrightarrow> store_good inv (apply_bucket_delete_cascade B b st)"
  using cascade_ok [of "storage st" b]
  by (auto simp: apply_bucket_delete_cascade_def store_good_def intro!: cache_okI dest: cache_okD split: if_splits)

lemma good_insert:
  assumes "store_good inv st" and "insert_event B sha en e st = (r, st')"
  shows "store_good inv st'"
proof -
  have meta: "store_good inv (apply_meta B e s)" if "store_good inv s" for s
    using that by (auto simp: apply_meta_def good_cascade split: option.splits)
  show ?thesis
    using assms
    by (auto simp: insert_event_def Let_def intro!: good_conflict good_advance_head meta split: if_splits)
qed

text \<open>Local creation on a store that answers: which outcomes are possible and what they leave.\<close>

lemma charge_reservation_good:
  assumes "store_good inv st" and "charge_reservation B en inp hold ex now st = (r, st')"
  shows "store_good inv st' \<and> (\<exists>es. r = Inr es)"
proof (cases "hold > 0")
  case False
  with assms show ?thesis by (auto simp: charge_reservation_def)
next
  case True
  let ?a = "account_at st (in_balance_key inp)"
  obtain rr st1 where al: "allocate_or_fail B (in_bucket inp) (acct_balance ?a) (available_balance ?a now) st = (rr, st1)" by force
  with good_allocate_or_fail [OF assms(1)] obtain pos where g: "store_good inv st1" "rr = Inr pos" by blast
  show ?thesis
    using assms(2) True al g
    by (auto simp: charge_reservation_def Let_def event_frames idempotency_key_def intro!: store_good_cache)
qed

lemma charge_standard_good:
  assumes "store_good inv st" and "charge_standard B en inp now st = (r, st')"
  shows "store_good inv st' \<and> (\<exists>e. r = Inr e)"
proof -
  let ?a = "account_at st (in_balance_key inp)"
  obtain rr st1 where al: "allocate_or_fail B (in_bucket inp) (acct_balance ?a) (available_balance ?a now) st = (rr, st1)" by force
  with good_allocate_or_fail [OF assms(1)] obtain pos where g: "store_good inv st1" "rr = Inr pos" by blast
  show ?thesis
    using assms(2) al g
    by (auto simp: charge_standard_def Let_def event_frames idempotency_key_def in_idem_key_def intro!: store_good_cache)
qed

lemma transfer_credit_good:
  assumes "store_good inv st" and "transfer_credit B en inp now st = (r, st')"
  shows "store_good inv st' \<and> (\<forall>err. r = Failed err \<longrightarrow> in_transfer_to inp \<noteq> None \<and> in_amount inp = i64_min)"
proof (cases "in_transfer_to inp")
  case None
  with assms show ?thesis by (auto simp: transfer_credit_def)
next
  case (Some to_addr)
  let ?k = "(in_bucket inp, to_addr)" and ?st0 = "with_account (in_bucket inp, to_addr) id st"
  show ?thesis
  proof (cases "to_addr = in_account inp")
    case True
    with assms Some show ?thesis by (auto simp: transfer_credit_def)
  next
    case ne: False
    show ?thesis
    proof (cases "checked_abs (in_amount inp)")
      case None
      with assms Some ne show ?thesis by (auto simp: transfer_credit_def Let_def checked_abs_def split: if_splits)
    next
      case cr: (Some credit)
      obtain rr st1 where al: "allocate_or_fail B (in_bucket inp) (acct_balance (account_at ?st0 ?k))
          (available_balance (account_at ?st0 ?k) now) ?st0 = (rr, st1)" by force
      have "store_good inv ?st0" using assms(1) by simp
      with al good_allocate_or_fail obtain pos where g: "store_good inv st1" "rr = Inr pos" by blast
      show ?thesis
        using assms(2) Some ne cr al g
        by (auto simp: transfer_credit_def Let_def event_frames idempotency_key_def intro!: store_good_cache)
    qed
  qed
qed

lemma emit_charge_good:
  assumes "store_good inv st" and "emit_charge_locked B sha en inp ho now st = (r, st')"
  shows "store_good inv st' \<and>
     (\<forall>err. r = Failed err \<longrightarrow> ledger_of st' = ledger_of st \<or> in_transfer_to inp \<noteq> None \<and> in_amount inp = i64_min)"
proof -
  let ?a = "account_at st (in_balance_key inp)"
  obtain hold ex where h: "charge_hold st ?a inp ho now = (hold, ex)" by force
  show ?thesis
  proof (cases "charge_guard ?a inp hold now")
    case (Some err)
    with assms h show ?thesis by (simp add: emit_charge_locked_def Let_def)
  next
    case None
    obtain r1 st1 where e1: "charge_reservation B en inp hold ex now st = (r1, st1)" by force
    with charge_reservation_good [OF assms(1)] obtain rs where g1: "store_good inv st1" "r1 = Inr rs" by blast
    obtain r2 st2 where e2: "charge_standard B en inp now st1 = (r2, st2)" by force
    with charge_standard_good [OF g1(1)] obtain c where g2: "store_good inv st2" "r2 = Inr c" by blast
    obtain r3 st3 where e3: "transfer_credit B en inp now st2 = (r3, st3)" by force
    note g3 = transfer_credit_good [OF g2(1) e3]
    from assms(2) h None e1 e2 e3 g1 g2 g3 show ?thesis
      by (cases r3) (auto simp: emit_charge_locked_def Let_def good_flush)
  qed
qed

lemma emit_reserve_good:
  assumes "store_good inv st" and "emit_reserve_locked B sha en inp now st = (r, st')"
    and "in_amount inp = 0"
  shows "store_good inv st' \<and> (\<forall>err. r = Failed err \<longrightarrow> ledger_of st' = ledger_of st)"
proof -
  let ?a = "account_at st (in_balance_key inp)"
  obtain rr st1 where al: "allocate_or_fail B (in_bucket inp) (acct_balance ?a) (available_balance ?a now) st = (rr, st1)" by force
  with good_allocate_or_fail [OF assms(1)] obtain pos where g: "store_good inv st1" "rr = Inr pos" by blast
  show ?thesis
    using assms al g
    by (auto simp: emit_reserve_locked_def Let_def event_frames idempotency_key_def intro!: good_flush store_good_cache
        split: if_splits)
qed

lemma emit_settle_good:
  assumes "store_good inv st" and "emit_settle_locked B sha en inp rid now st = (r, st')"
  shows "store_good inv st' \<and> (\<forall>err. r = Failed err \<longrightarrow> ledger_of st' = ledger_of st)"
proof -
  let ?a = "account_at st (in_balance_key inp)"
  obtain r1 st1 where al1: "allocate_or_fail B (in_bucket inp) (acct_balance ?a) (available_balance ?a now) st = (r1, st1)" by force
  with good_allocate_or_fail [OF assms(1)] obtain pos1 where g1: "store_good inv st1" "r1 = Inr pos1" by blast
  obtain r2 st2 where al2: "allocate_or_fail B (in_bucket inp) (acct_balance ?a) (available_balance ?a now) st1 = (r2, st2)" by force
  with good_allocate_or_fail [OF g1(1)] obtain pos2 where g2: "store_good inv st2" "r2 = Inr pos2" by blast
  show ?thesis
    using assms al1 al2 g1 g2
    by (auto simp: emit_settle_locked_def Let_def event_frames idempotency_key_def in_idem_key_def
        intro!: good_flush store_good_cache split: if_splits sum.splits)
qed

lemma emit_release_good:
  assumes "store_good inv st" and "emit_release_locked B sha en inp rid now st = (r, st')"
    and "in_amount inp = 0"
  shows "store_good inv st' \<and> (\<forall>err. r = Failed err \<longrightarrow> ledger_of st' = ledger_of st)"
proof -
  let ?a = "account_at st (in_balance_key inp)"
  obtain rr st1 where al: "allocate_or_fail B (in_bucket inp) (acct_balance ?a) (available_balance ?a now) st = (rr, st1)" by force
  with good_allocate_or_fail [OF assms(1)] obtain pos where g: "store_good inv st1" "rr = Inr pos" by blast
  show ?thesis
    using assms al g
    by (auto simp: emit_release_locked_def Let_def event_frames idempotency_key_def intro!: good_flush store_good_cache
        split: sum.splits)
qed

lemma emit_mode_good:
  assumes "store_good inv st" and "emit_mode B sha en inp mode now st = (r, st')"
    and "from_input t inp = Inr mode"
  shows "store_good inv st' \<and>
     (\<forall>err. r = Failed err \<longrightarrow> ledger_of st' = ledger_of st \<or> in_transfer_to inp \<noteq> None \<and> in_amount inp = i64_min)"
proof (cases mode)
  case (Charge hold)
  with assms emit_charge_good show ?thesis by (simp add: emit_mode_def)
next
  case Reserve
  with assms(3) have "in_amount inp = 0" by (auto dest: from_input_sound simp: mode_sound_def)
  with assms Reserve emit_reserve_good show ?thesis by (simp add: emit_mode_def)
next
  case (Settle rid)
  with assms emit_settle_good show ?thesis by (simp add: emit_mode_def)
next
  case (Release rid)
  with assms(3) have "in_amount inp = 0" by (auto dest: from_input_sound simp: mode_sound_def)
  with assms Release emit_release_good show ?thesis by (simp add: emit_mode_def)
qed

lemma first_least_in: "first_least m ms \<in> insert m (set ms)"
proof (induction ms arbitrary: m)
  case (Cons x ms)
  show ?case
    using Cons.IH [of x] Cons.IH [of m] by (simp add: first_least_def) blast
qed (simp add: first_least_def)

lemma create_good:
  assumes "store_good inv st" and "create_local_events B sha en inp st = (r, st')"
  shows "store_good inv st' \<and>
     (\<forall>err. r = Failed err \<longrightarrow> ledger_of st' = ledger_of st \<or> in_transfer_to inp \<noteq> None \<and> in_amount inp = i64_min)"
proof (cases "(\<not> in_allow_reserved_bucket inp \<and> is_reserved_bucket_name (in_bucket inp)) \<or>
    fm_contains (deleted_buckets st) (in_bucket inp) \<or> (\<exists>err. from_input (env_now en 0) inp = Inl err)")
  case True
  with assms show ?thesis by (auto simp: create_local_events_def split: if_splits)
next
  case False
  then obtain mode where mode: "from_input (env_now en 0) inp = Inr mode" by (metis sum.exhaust)
  let ?st1 = "with_account (in_balance_key inp) id st"
  have g1: "store_good inv ?st1" using assms(1) by simp
  show ?thesis
  proof (cases "fmlookup (idempotency_cache ?st1) (in_idem_key inp)")
    case (Some e)
    with assms False mode show ?thesis by (auto simp: create_local_events_def Let_def)
  next
    case None
    obtain ms where ms: "be_find_by_idempotency_key B (storage ?st1) (in_idempotency_nonce inp) (in_bucket inp)
        (in_account inp) (in_amount inp) = Some ms" "\<forall>m\<in>set ms. idempotency_key m = in_idem_key inp"
      using find_ok [of "storage ?st1"] g1 unfolding store_good_def in_idem_key_def by blast
    show ?thesis
    proof (cases ms)
      case Nil
      then have "emit_mode B sha en inp mode (env_now en 1) ?st1 = (r, st')"
        using assms(2) False mode None ms(1) by (auto simp: create_local_events_def Let_def)
      from emit_mode_good [OF g1 this mode] show ?thesis by simp
    next
      case (Cons m ms')
      have "idempotency_key (first_least m ms') = in_idem_key inp" using first_least_in [of m ms'] ms(2) Cons by auto
      with assms False mode None ms(1) Cons show ?thesis
        by (auto simp: create_local_events_def Let_def store_good_cache)
    qed
  qed
qed

lemma delete_good:
  assumes "store_good inv st" and "create_meta_bucket_delete B sha en target reason st = (r, st')"
  shows "store_good inv st' \<and> (\<forall>err. r = Inl err \<longrightarrow> ledger_of st' = ledger_of st)"
  using assms
  by (auto simp: create_meta_bucket_delete_def Let_def intro!: good_record good_cascade dest: good_allocate_in_res
      split: if_splits prod.splits option.splits)

end

section \<open>The node as a state machine\<close>

text \<open>
  One step is one completed call of an operation: a create that returns, a bucket delete, a
  replicated event, a flush of the batch writer, a turn of the orphan detector, a registry
  write, a phase change, or a sweep. A create that hangs is not a step, and neither is the
  one error of a transfer that the code reports after it has debited (an amount of
  \<open>i64::MIN\<close>); both are treated separately.
\<close>

inductive core_step :: "'s backend \<Rightarrow> (bytes \<Rightarrow> bytes) \<Rightarrow> 's shared_state \<Rightarrow> 's shared_state \<Rightarrow> bool"
  for B :: "'s backend" and sha :: "bytes \<Rightarrow> bytes" where
  create: "create_local_events B sha en inp st = (Done r, st') \<Longrightarrow> core_step B sha st st'"
| reject: "create_local_events B sha en inp st = (Failed err, st') \<Longrightarrow>
    in_transfer_to inp = None \<or> in_amount inp \<noteq> i64_min \<Longrightarrow> core_step B sha st st'"
| delete: "create_meta_bucket_delete B sha en target reason st = (d, st') \<Longrightarrow> core_step B sha st st'"
| replicate: "insert_event B sha en e st = (new, st') \<Longrightarrow> core_step B sha st st'"
| flush: "do_flush B w st = (w', st') \<Longrightarrow> core_step B sha st st'"
| orphans: "core_step B sha st (orphan_turn B age now st)"
| matview: "core_step B sha st (st\<lparr>storage := snd (be_refresh_balance_summary B (storage st))\<rparr>)"
| member: "core_step B sha st (membership_turn B now ev st)"
| register: "core_step B sha st (register_self B now st)"
| ready: "core_step B sha st (become_ready st)"
| shutdown: "core_step B sha st (begin_shutdown st)"

inductive node_step :: "'s backend \<Rightarrow> (bytes \<Rightarrow> bytes) \<Rightarrow> 's shared_state \<Rightarrow> 's shared_state \<Rightarrow> bool"
  for B :: "'s backend" and sha :: "bytes \<Rightarrow> bytes" where
  core: "core_step B sha st st' \<Longrightarrow> node_step B sha st st'"
| sweep: "node_step B sha st (sweep_expired_holds now st)"

inductive_cases core_stepE: "core_step B sha st st'"
inductive_simps node_step_simps: "node_step B sha st st'"

definition node_inv :: "('s \<Rightarrow> bool) \<Rightarrow> 's shared_state \<Rightarrow> bool" where
  "node_inv I st \<longleftrightarrow> store_good I st \<and> ledger_ok (ledger_of st)"

lemma ledger_of_storage [simp]: "ledger_of (st\<lparr>storage := s\<rparr>) = ledger_of st"
  by (simp add: ledger_of_def account_at_def [abs_def] chain_at_def [abs_def])

lemma ledger_of_phase [simp]: "ledger_of (st\<lparr>phase := p\<rparr>) = ledger_of st"
  by (simp add: ledger_of_def account_at_def [abs_def] chain_at_def [abs_def])

lemma deleted_of_cascade:
  "bucket e \<notin> lg_deleted l \<Longrightarrow> corrections_of st e cs \<Longrightarrow> c \<in> set (e # cs) \<Longrightarrow> bucket c \<notin> lg_deleted (clear_target e l)"
  using deleted_clear_target [of e l] by (auto simp: corrections_of_def balance_key_def)

lemma sweep_account_new: "sweep_account now account_new = account_new"
  by (simp add: sweep_account_def account_new_def)

lemma account_at_sweep: "account_at (sweep_expired_holds now st) k = sweep_account now (account_at st k)"
  by (cases "fmlookup (accounts st) k")
    (simp_all add: account_at_def sweep_expired_holds_def fm_get_or_def sweep_account_new)

lemma ledger_ok_sweep: "ledger_ok (ledger_of st) \<Longrightarrow> ledger_ok (ledger_of (sweep_expired_holds now st))"
proof -
  have "ledger_of (sweep_expired_holds now st) = (ledger_of st)\<lparr>lg_accounts := (\<lambda>k. sweep_account now (account_at st k))\<rparr>"
    by (rule ledger_eqI)
      (simp_all add: ledger_of_def fun_eq_iff account_at_sweep, simp_all add: sweep_expired_holds_def chain_at_def)
  then show "ledger_ok (ledger_of st) \<Longrightarrow> ?thesis"
    by (auto simp: ledger_ok_def cleared_def books_balance_def chains_replay_def ledger_of_def sweep_account_fields
        sweep_account_new simp del: split_paired_All)
qed

text \<open>How a step moves the abstract ledger.\<close>

definition ledger_move :: "ledger \<Rightarrow> ledger \<Rightarrow> bool" where
  "ledger_move l l' \<longleftrightarrow>
     (\<exists>es. l' = fold accept_event es l \<and> (\<forall>e\<in>set es. bucket e \<notin> lg_deleted l)) \<or>
     (\<exists>e t. l' = append_to_log e (clear_bucket t l) \<and> bucket e = META_BUCKET \<and> amount e = 0 \<and> t \<noteq> META_BUCKET) \<or>
     (\<exists>e cs. l' = fold accept_event (e # cs) (clear_target e l) \<and>
        (\<forall>c\<in>set (e # cs). bucket c \<notin> lg_deleted (clear_target e l)))"

lemma ledger_move_refl [simp]: "ledger_move l l"
  unfolding ledger_move_def by (rule disjI1, rule exI [of _ "[]"]) simp

lemma ledger_move_ok: "ledger_move l l' \<Longrightarrow> ledger_ok l \<Longrightarrow> ledger_ok l'"
  unfolding ledger_move_def
  using ledger_ok_fold ledger_ok_append_meta ledger_ok_clear ledger_ok_clear_target by (elim disjE exE conjE) metis+

lemma ledger_move_accounts: "ledger_move l l' \<Longrightarrow> accounts_replay l \<Longrightarrow> accounts_replay l'"
  unfolding ledger_move_def
  using accounts_replay_fold accounts_replay_append_meta accounts_replay_clear accounts_replay_clear_target
  by (elim disjE exE conjE) metis+

lemma fold_accept_log [simp]: "lg_log (fold accept_event es l) = lg_log l @ es"
  by (induction es arbitrary: l) simp_all

lemma fold_accept_deleted [simp]: "lg_deleted (fold accept_event es l) = lg_deleted l"
  by (induction es arbitrary: l) simp_all

lemma ledger_move_log: "ledger_move l l' \<Longrightarrow> \<exists>es. lg_log l' = lg_log l @ es"
  by (auto simp: ledger_move_def)

lemma ledger_move_deleted: "ledger_move l l' \<Longrightarrow> lg_deleted l \<subseteq> lg_deleted l'"
  by (auto simp: ledger_move_def clear_target_def split: option.splits)

context node_store
begin

lemma core_step_good:
  assumes "core_step B sha st st'" and "store_good inv st"
  shows "store_good inv st' \<and> ledger_move (ledger_of st) (ledger_of st')"
  using assms
proof (cases rule: core_step.cases)
  case (create en inp r)
  have "ledger_move (ledger_of st) (ledger_of st')"
    unfolding ledger_move_def create_done_ledger(1) [OF create]
    using create_done_ledger(2,3) [OF create] by (auto simp: own_events_def)
  with create_good [OF assms(2) create] show ?thesis by simp
next
  case (reject en inp err)
  with create_good [OF assms(2) reject(1)] show ?thesis by auto
next
  case (delete en target reason d)
  show ?thesis
  proof (cases d)
    case (Inl err)
    with delete_good [OF assms(2) delete] show ?thesis by simp
  next
    case (Inr e)
    note dl = delete_done_ledger [OF delete [unfolded Inr]]
    have "bucket e = META_BUCKET" using dl(2) by (simp add: meta_target_bucket_Some)
    with dl delete_good [OF assms(2) delete] show ?thesis by (auto simp: ledger_move_def)
  qed
next
  case (replicate en e new)
  show ?thesis
  proof (cases new)
    case False
    with replicate have "st' = st" by (auto simp: insert_event_def Let_def split: if_splits)
    with assms show ?thesis by simp
  next
    case True
    have "cache_ok st" using assms(2) by (simp add: store_good_def)
    moreover have "insert_event B sha en e st = (True, st')" using replicate True by simp
    ultimately obtain cs where
      "ledger_of st' = fold accept_event (e # cs) (clear_target e (ledger_of st))"
      "corrections_of st e cs" "bucket e \<notin> lg_deleted (ledger_of st)"
      by (elim insert_done_ledger)
    with deleted_of_cascade [of e "ledger_of st" st cs] have "ledger_move (ledger_of st) (ledger_of st')"
      unfolding ledger_move_def by blast
    with good_insert [OF assms(2) replicate] show ?thesis by simp
  qed
next
  case (flush w w')
  obtain c s' where b: "be_insert_events_bulk B (storage st) (bw_buffer w) = (Some c, s')" "inv s'"
    using bulk_ok assms(2) unfolding store_good_def by blast
  with flush have "st' = mark_persisted (map origin_key (bw_buffer w)) (st\<lparr>storage := s'\<rparr>)"
    by (auto simp: do_flush_def Let_def)
  with b assms(2) show ?thesis by (simp add: store_good_def cache_ok_def)
next
  case (orphans age now)
  let ?es = "get_unpersisted_events (saturating_sub now age) st"
  obtain c s' where b: "be_insert_events_bulk B (storage st) ?es = (Some c, s')" "inv s'"
    using bulk_ok assms(2) unfolding store_good_def by blast
  with orphans assms(2) show ?thesis by (auto simp: orphan_turn_def Let_def store_good_def cache_ok_def)
next
  case matview
  with assms(2) refresh_ok show ?thesis by (simp add: store_good_def cache_ok_def)
next
  case (member now ev)
  with assms(2) registry_ok show ?thesis
    by (auto simp: membership_turn_def Let_def store_good_def cache_ok_def split: prod.splits membership_event.splits)
next
  case (register now)
  with assms(2) registry_ok show ?thesis by (simp add: register_self_def store_good_def cache_ok_def)
next
  case ready
  with assms(2) show ?thesis by (simp add: become_ready_def)
next
  case shutdown
  with assms(2) show ?thesis by (simp add: begin_shutdown_def)
qed

lemma core_step_inv: "core_step B sha st st' \<Longrightarrow> node_inv inv st \<Longrightarrow> node_inv inv st'"
  using core_step_good ledger_move_ok unfolding node_inv_def by blast

lemma node_step_inv: "node_step B sha st st' \<Longrightarrow> node_inv inv st \<Longrightarrow> node_inv inv st'"
  by (auto simp: node_step_simps node_inv_def ledger_ok_sweep dest: core_step_good ledger_move_ok)

lemma reachable_inv: "(node_step B sha)\<^sup>*\<^sup>* st st' \<Longrightarrow> node_inv inv st \<Longrightarrow> node_inv inv st'"
  by (induction rule: rtranclp_induct) (auto dest: node_step_inv)

lemma reachable_log:
  "(node_step B sha)\<^sup>*\<^sup>* st st' \<Longrightarrow> node_inv inv st \<Longrightarrow>
   (\<exists>es. batch_tx st' = batch_tx st @ es) \<and> fmdom' (deleted_buckets st) \<subseteq> fmdom' (deleted_buckets st')"
proof (induction rule: rtranclp_induct)
  case (step y z)
  have inv: "node_inv inv y" using reachable_inv [OF step.hyps(1) step.prems] .
  have one: "(\<exists>es. batch_tx z = batch_tx y @ es) \<and> fmdom' (deleted_buckets y) \<subseteq> fmdom' (deleted_buckets z)"
    using step.hyps(2)
  proof (cases rule: node_step.cases)
    case core
    then have "ledger_move (ledger_of y) (ledger_of z)"
      using core_step_good inv unfolding node_inv_def by blast
    then show ?thesis using ledger_move_log ledger_move_deleted by (fastforce simp: ledger_of_def)
  next
    case (sweep now)
    then show ?thesis by (simp add: sweep_expired_holds_def)
  qed
  with step.IH [OF step.prems] show ?case by fastforce
qed auto

lemma core_reachable_accounts:
  "(core_step B sha)\<^sup>*\<^sup>* st st' \<Longrightarrow> node_inv inv st \<Longrightarrow> accounts_replay (ledger_of st) \<Longrightarrow>
   accounts_replay (ledger_of st') \<and> node_inv inv st'"
proof (induction rule: rtranclp_induct)
  case (step y z)
  then have y: "accounts_replay (ledger_of y)" "node_inv inv y" by auto
  then have "ledger_move (ledger_of y) (ledger_of z)" using core_step_good step.hyps(2) unfolding node_inv_def by blast
  with y core_step_inv [OF step.hyps(2)] ledger_move_accounts show ?case by blast
qed simp

end

end
