(* ===== verification/Guarantees.thy ===== *)
theory Guarantees
  imports Reachability Rebuild
begin

section \<open>What a local create guarantees\<close>

text \<open>
  The functional behaviour of \<open>create_local_events\<close> on each mode: which events it emits, what
  they do to the account, and when it succeeds. The lemmas give the shape of the emitted
  events; the theorems read the account through the refinement of theory \<open>Ledger\<close>.
\<close>

subsection \<open>A node to run the examples on\<close>

definition fresh_node :: "string \<Rightarrow> mem_storage shared_state" where
  "fresh_node n = empty_state n [] mem_new [] [] \<lparr>hc_multiplier = 0, hc_duration_ms = 0\<rparr>"

definition sample_env :: "u64 \<Rightarrow> string \<Rightarrow> env" where
  "sample_env now i = \<lparr>env_now = (\<lambda>_. now), env_id = (\<lambda>k. show_nat k @ i)\<rparr>"

definition no_hash :: "bytes \<Rightarrow> bytes" where
  "no_hash x = []"

lemma fresh_node_simps [simp]:
  "node_id (fresh_node n) = n" "deleted_buckets (fresh_node n) = fmempty" "batch_tx (fresh_node n) = []"
  "accounts (fresh_node n) = fmempty" "idempotency_cache (fresh_node n) = fmempty" "storage (fresh_node n) = mem_new"
  "heads (fresh_node n) = fmempty" "pending_seqs (fresh_node n) = fmempty" "event_buffer (fresh_node n) = fmempty"
  "max_known_seqs (fresh_node n) = fmempty" "total_event_count (fresh_node n) = 0" "hold_multiplier (fresh_node n) = 0"
  "unpersisted (fresh_node n) = fmempty" "account_at (fresh_node n) k = account_new" "chain_at (fresh_node n) ek = (0, {||})"
  by (simp_all add: fresh_node_def empty_state_def account_at_def chain_at_def)

lemma fresh_node_good: "store_good mem_inv (fresh_node n)"
  by (simp add: store_good_def mem_inv_new cache_ok_def)

lemma mem_find_new [simp]: "be_find_by_idempotency_key (mem_backend sha) mem_new nonce b a x = Some []"
  by (simp add: mem_backend_def mem_find_by_idempotency_key_def mem_new_def)

subsection \<open>The account after a create\<close>

lemma fold_accept_account:
  "lg_accounts (fold accept_event es l) k = fold apply_event (filter (\<lambda>e. balance_key e = k) es) (lg_accounts l k)"
  by (induction es arbitrary: l) auto

lemma account_after_create:
  assumes "create_local_events B sha en inp st = (Done r, st')"
  shows "account_at st' k = fold apply_event (filter (\<lambda>e. balance_key e = k) (emitted_events r)) (account_at st k)"
  using arg_cong [OF create_done_ledger(1) [OF assms], of "\<lambda>l. lg_accounts l k"]
  by (simp add: fold_accept_account) (simp add: ledger_of_def)

lemma batch_tx_with_account [simp]: "batch_tx (with_account k f st) = batch_tx st"
  by (simp add: with_account_def)

lemma account_at_open [simp]: "account_at (with_account k id st) k' = account_at st k'"
  by (auto simp: account_at_def with_account_def)

lemma charge_hold_open: "charge_hold (with_account k f st) a inp ho now = charge_hold st a inp ho now"
proof -
  have "hold_multiplier (with_account k f st) = hold_multiplier st" "hold_duration_ms (with_account k f st) = hold_duration_ms st"
    "node_id (with_account k f st) = node_id st" by (simp_all add: with_account_def)
  then show ?thesis by (simp only: charge_hold_def)
qed

text \<open>A create that emits events went through the emitter of its mode.\<close>

lemma create_emits:
  assumes "create_local_events B sha en inp st = (Done r, st')" and "emitted_events r \<noteq> []"
  obtains mode where "from_input (env_now en 0) inp = Inr mode"
    "emit_mode B sha en inp mode (env_now en 1) (with_account (in_balance_key inp) id st) = (Done r, st')"
proof -
  obtain mode where mode: "from_input (env_now en 0) inp = Inr mode"
    using assms by (auto simp: create_local_events_def split: if_splits sum.splits)
  with assms that show thesis
    by (fastforce simp: create_local_events_def Let_def split: if_splits option.splits list.splits)
qed

text \<open>The request passes the checks before the emitter.\<close>

definition admitted :: "'s backend \<Rightarrow> local_create_input \<Rightarrow> 's shared_state \<Rightarrow> bool" where
  "admitted B inp st \<longleftrightarrow>
     (in_allow_reserved_bucket inp \<or> \<not> is_reserved_bucket_name (in_bucket inp)) \<and>
     \<not> fm_contains (deleted_buckets st) (in_bucket inp) \<and>
     \<not> fm_contains (idempotency_cache st) (in_idem_key inp) \<and>
     be_find_by_idempotency_key B (storage st) (in_idempotency_nonce inp) (in_bucket inp) (in_account inp) (in_amount inp) =
       Some []"

lemma create_admitted:
  "admitted B inp st \<Longrightarrow> from_input (env_now en 0) inp = Inr mode \<Longrightarrow>
   create_local_events B sha en inp st =
   emit_mode B sha en inp mode (env_now en 1) (with_account (in_balance_key inp) id st)"
  by (auto simp: admitted_def create_local_events_def Let_def)

subsection \<open>The shape of what is emitted\<close>

lemma charge_shape:
  assumes "emit_charge_locked B sha en inp ho now st = (Done r, st')"
    and "charge_hold st (account_at st (in_balance_key inp)) inp ho now = (hold, ex)"
  obtains rs c cs where "charge_guard (account_at st (in_balance_key inp)) inp hold now = None"
    "emitted_events r = rs @ [c] @ cs" "primary_event r = c" "etype c = Standard" "hold_amount c = 0"
    "amount c = in_amount inp" "balance_key c = in_balance_key inp"
    "rs = [] \<and> hold = 0 \<or> (\<exists>e. rs = [e] \<and> hold > 0 \<and> etype e = ReservationCreate \<and> amount e = 0 \<and> hold_amount e = hold \<and>
       hold_expires_at_unix_ms e = ex \<and> event_id e = env_id en 0 \<and> balance_key e = in_balance_key inp)"
    "case in_transfer_to inp of None \<Rightarrow> cs = []
     | Some t \<Rightarrow> \<exists>e. cs = [e] \<and> t \<noteq> in_account inp \<and> balance_key e = (in_bucket inp, t) \<and> etype e = Standard \<and>
         hold_amount e = 0 \<and> checked_abs (in_amount inp) = Some (amount e)"
proof -
  have g: "charge_guard (account_at st (in_balance_key inp)) inp hold now = None"
    using assms by (auto simp: emit_charge_locked_def Let_def split: option.splits)
  obtain rs st1 where r1: "charge_reservation B en inp hold ex now st = (Inr rs, st1)"
    using assms by (auto simp: emit_charge_locked_def Let_def split: option.splits prod.splits sum.splits)
  obtain c st2 where r2: "charge_standard B en inp now st1 = (Inr c, st2)"
    using assms r1 by (auto simp: emit_charge_locked_def Let_def split: option.splits prod.splits sum.splits)
  obtain cs st3 where r3: "transfer_credit B en inp now st2 = (Done cs, st3)"
    using assms r1 r2 by (auto simp: emit_charge_locked_def Let_def split: option.splits prod.splits outcome.splits)
  have res: "emitted_events r = rs @ [c] @ cs" "primary_event r = c"
    using assms r1 r2 r3 by (auto simp: emit_charge_locked_def Let_def split: option.splits)
  have c: "etype c = Standard" "hold_amount c = 0" "amount c = in_amount inp" "balance_key c = in_balance_key inp"
    using r2 by (auto simp: charge_standard_def Let_def event_frames balance_key_def in_balance_key_def
        split: prod.splits sum.splits)
  have rs: "rs = [] \<and> hold = 0 \<or> (\<exists>e. rs = [e] \<and> hold > 0 \<and> etype e = ReservationCreate \<and> amount e = 0 \<and>
       hold_amount e = hold \<and> hold_expires_at_unix_ms e = ex \<and> event_id e = env_id en 0 \<and> balance_key e = in_balance_key inp)"
    using r1 by (auto simp: charge_reservation_def Let_def event_frames balance_key_def in_balance_key_def word_gt_0
        split: prod.splits sum.splits if_splits)
  have cs: "case in_transfer_to inp of None \<Rightarrow> cs = []
     | Some t \<Rightarrow> \<exists>e. cs = [e] \<and> t \<noteq> in_account inp \<and> balance_key e = (in_bucket inp, t) \<and> etype e = Standard \<and>
         hold_amount e = 0 \<and> checked_abs (in_amount inp) = Some (amount e)"
    using r3 by (auto simp: transfer_credit_def Let_def event_frames balance_key_def split: option.splits prod.splits sum.splits if_splits)
  show thesis by (rule that) (use g res c rs cs in auto)
qed

text \<open>What the emitted events of a charge do to the charged account.\<close>

lemma charge_account:
  assumes "create_local_events B sha en inp st = (Done r, st')" and "emitted_events r \<noteq> []"
    and "from_input (env_now en 0) inp = Inr (Charge ho)"
    and a: "a = account_at st (in_balance_key inp)" and "charge_hold st a inp ho (env_now en 1) = (hold, ex)"
    and "hold > 0 \<longrightarrow> ex > env_now en 1 \<and> fmlookup (reservations a) (env_id en 0) = None \<and> env_id en 0 |\<notin>| released a"
  shows "acct_balance (account_at st' (in_balance_key inp)) = acct_balance a + in_amount inp"
    and "available_balance (account_at st' (in_balance_key inp)) (env_now en 1) =
         available_balance a (env_now en 1) + in_amount inp - hold"
    and "charge_guard a inp hold (env_now en 1) = None"
proof -
  let ?k = "in_balance_key inp" and ?now = "env_now en 1"
  let ?s = "with_account ?k id st"
  have em: "emit_charge_locked B sha en inp ho ?now ?s = (Done r, st')"
    using create_emits [OF assms(1,2)] assms(3) by (auto simp: emit_mode_def)
  have h: "charge_hold ?s (account_at ?s ?k) inp ho ?now = (hold, ex)"
    using assms(5) by (simp add: a charge_hold_open)
  obtain rs c cs where sh: "charge_guard (account_at ?s ?k) inp hold ?now = None"
    "emitted_events r = rs @ [c] @ cs" "primary_event r = c" "etype c = Standard" "hold_amount c = 0"
    "amount c = in_amount inp" "balance_key c = ?k"
    "rs = [] \<and> hold = 0 \<or> (\<exists>e. rs = [e] \<and> hold > 0 \<and> etype e = ReservationCreate \<and> amount e = 0 \<and> hold_amount e = hold \<and>
       hold_expires_at_unix_ms e = ex \<and> event_id e = env_id en 0 \<and> balance_key e = ?k)"
    "case in_transfer_to inp of None \<Rightarrow> cs = []
     | Some t \<Rightarrow> \<exists>e. cs = [e] \<and> t \<noteq> in_account inp \<and> balance_key e = (in_bucket inp, t) \<and> etype e = Standard \<and>
         hold_amount e = 0 \<and> checked_abs (in_amount inp) = Some (amount e)"
    by (rule charge_shape [OF em h])
  have "filter (\<lambda>e. balance_key e = ?k) cs = []"
    using sh(9) by (auto simp: in_balance_key_def split: option.splits)
  moreover have "filter (\<lambda>e. balance_key e = ?k) rs = rs" using sh(8) by auto
  ultimately have acc: "account_at st' ?k = apply_event c (fold apply_event rs a)"
    using account_after_create [OF assms(1), of ?k] sh(2,7) by (simp add: a)
  have plain: "apply_event c x = count_event (in_amount inp) x" for x
    using apply_event_plain [of c x] sh by simp
  have bal: "acct_balance (fold apply_event rs a) = acct_balance a" using sh(8) by auto
  then show "acct_balance (account_at st' ?k) = acct_balance a + in_amount inp" using sh(6) by (simp add: acc)
  have "active_hold_total (fold apply_event rs a) ?now = active_hold_total a ?now + hold"
  proof (cases "hold > 0")
    case False
    then show ?thesis using sh(8) by (auto simp: word_gt_0)
  next
    case True
    then obtain e where e: "rs = [e]" "etype e = ReservationCreate" "amount e = 0" "hold_amount e = hold"
       "hold_expires_at_unix_ms e = ex" "event_id e = env_id en 0" using sh(8) by auto
    have "ex > 0" using assms(6) True by (auto intro: order_le_less_trans)
    then have "has_hold e" using e True by (simp add: has_hold_def)
    then have "active_hold_total (track_reservation e (count_event 0 a)) ?now = active_hold_total (count_event 0 a) ?now + hold_amount e"
      using assms(6) True e by (intro active_hold_total_track) (simp_all add: count_event_def)
    moreover have "apply_event e a = track_reservation e (count_event 0 a)"
      using e by (simp add: apply_event_def release_of_def split: option.splits)
    ultimately show ?thesis using e by simp
  qed
  then show "available_balance (account_at st' ?k) ?now = available_balance a ?now + in_amount inp - hold"
    by (simp add: available_balance_def acc bal plain del: apply_event_simps(2)) (simp add: count_event_def bal)
  show "charge_guard a inp hold ?now = None" using sh(1) by (simp add: a)
qed

subsection \<open>Signed bounds\<close>

lemma sint_of_int_small:
  "- 9223372036854775808 \<le> x \<Longrightarrow> x < 9223372036854775808 \<Longrightarrow> sint (word_of_int x :: i64) = x"
  using signed_take_bit_int_eq_self [of 63 x] by (simp add: signed_of_int)

lemma sint_of_small: "(w :: u64) < 9223372036854775808 \<Longrightarrow> sint w = uint w"
  using sint_of_int_small [of "uint w"] uint_ge_0 [of w] by (simp add: word_less_def del: uint_ge_0)

lemma sint_uminus_small: "(w :: u64) < 9223372036854775808 \<Longrightarrow> sint (- w) = - uint w"
  using sint_of_int_small [of "- uint w"] uint_ge_0 [of w] by (simp add: word_less_def del: uint_ge_0)

subsection \<open>Charges\<close>

lemma fold_apply_log [simp]: "lg_log (fold apply_to_account es l) = lg_log l"
  by (induction es arbitrary: l) (simp_all add: apply_to_account_def)

lemma lg_log_of [simp]: "lg_log (ledger_of st) = batch_tx st"
  by (simp add: ledger_of_def)

context node_store
begin

lemma charge_parts:
  assumes "store_good inv st"
  obtains rs st1 c st2 where "charge_reservation B en inp hold ex now st = (Inr rs, st1)"
    "charge_standard B en inp now st1 = (Inr c, st2)" "store_good inv st2"
    "\<And>k. account_at st2 k = fold apply_event (filter (\<lambda>e. balance_key e = k) (rs @ [c])) (account_at st k)"
    "amount c = in_amount inp" "balance_key c = in_balance_key inp" "\<And>e. e \<in> set rs \<Longrightarrow> amount e = 0"
proof -
  obtain r1 st1 where e1: "charge_reservation B en inp hold ex now st = (r1, st1)" by force
  with charge_reservation_good [OF assms(1)] obtain rs where g1: "store_good inv st1" "r1 = Inr rs" by blast
  obtain r2 st2 where e2: "charge_standard B en inp now st1 = (r2, st2)" by force
  with charge_standard_good [OF g1(1)] obtain c where g2: "store_good inv st2" "r2 = Inr c" by blast
  have l: "ledger_of st2 = fold apply_to_account (rs @ [c]) (ledger_of st)"
    using charge_reservation_ledger [of B en inp hold ex now st rs st1] charge_standard_ledger [of B en inp now st1 c st2] e1 e2 g1 g2
    by simp
  have ap: "lg_accounts (fold apply_to_account es l) k = fold apply_event (filter (\<lambda>e. balance_key e = k) es) (lg_accounts l k)" for es l k
    by (induction es arbitrary: l) (auto simp: apply_to_account_def)
  have acc: "account_at st2 k = fold apply_event (filter (\<lambda>e. balance_key e = k) (rs @ [c])) (account_at st k)" for k
    using arg_cong [OF l, of "\<lambda>l. lg_accounts l k"] unfolding ap by (simp add: ledger_of_def)
  have c: "amount c = in_amount inp" "balance_key c = in_balance_key inp"
    using e2 g2 by (auto simp: charge_standard_def Let_def event_frames balance_key_def in_balance_key_def
        split: prod.splits sum.splits)
  have z: "e \<in> set rs \<Longrightarrow> amount e = 0" for e
    using e1 g1 by (auto simp: charge_reservation_def Let_def event_frames split: prod.splits sum.splits if_splits)
  show thesis by (rule that [OF e1 [unfolded g1(2)] e2 [unfolded g2(2)] g2(1) acc c z])
qed

lemma emit_charge_total:
  assumes "store_good inv st" and "charge_hold st (account_at st (in_balance_key inp)) inp ho now = (hold, ex)"
    and g: "charge_guard (account_at st (in_balance_key inp)) inp hold now = None"
    and t: "\<And>t. in_transfer_to inp = Some t \<Longrightarrow> t \<noteq> in_account inp \<and> in_amount inp \<noteq> i64_min"
  shows "\<exists>r st'. emit_charge_locked B sha en inp ho now st = (Done r, st') \<and> emitted_events r \<noteq> []"
proof -
  obtain rs st1 c st2 where p: "charge_reservation B en inp hold ex now st = (Inr rs, st1)"
    "charge_standard B en inp now st1 = (Inr c, st2)" "store_good inv st2" using charge_parts [OF assms(1)] by metis
  obtain r3 st3 where e3: "transfer_credit B en inp now st2 = (r3, st3)" by force
  have "r3 \<noteq> Hangs"
    using e3 t by (auto simp: transfer_credit_def Let_def split: option.splits if_splits prod.splits sum.splits)
  moreover have "r3 \<noteq> Failed err" for err using transfer_credit_good [OF p(3) e3] t by auto
  ultimately obtain cs where "r3 = Done cs" by (cases r3) auto
  with assms(2) g p e3 show ?thesis by (simp add: emit_charge_locked_def Let_def)
qed

lemma emit_charge_self_transfer:
  assumes "store_good inv st" and "charge_hold st (account_at st (in_balance_key inp)) inp ho now = (hold, ex)"
    and "charge_guard (account_at st (in_balance_key inp)) inp hold now = None"
    and "in_transfer_to inp = Some (in_account inp)"
  shows "fst (emit_charge_locked B sha en inp ho now st) = Hangs"
proof -
  obtain rs st1 c st2 where p: "charge_reservation B en inp hold ex now st = (Inr rs, st1)"
    "charge_standard B en inp now st1 = (Inr c, st2)" using charge_parts [OF assms(1)] by metis
  with assms show ?thesis by (simp add: emit_charge_locked_def Let_def transfer_credit_def)
qed

lemma emit_charge_min_transfer:
  assumes "store_good inv st" and "charge_hold st (account_at st (in_balance_key inp)) inp ho now = (hold, ex)"
    and "charge_guard (account_at st (in_balance_key inp)) inp hold now = None"
    and "in_transfer_to inp = Some t" "t \<noteq> in_account inp" "in_amount inp = i64_min"
  shows "\<exists>st'. emit_charge_locked B sha en inp ho now st = (Failed (InvalidRequest ''transfer amount overflows i64''), st') \<and>
     batch_tx st' = batch_tx st \<and>
     acct_balance (account_at st' (in_balance_key inp)) = acct_balance (account_at st (in_balance_key inp)) + i64_min"
proof -
  obtain rs st1 c st2 where p: "charge_reservation B en inp hold ex now st = (Inr rs, st1)"
    "charge_standard B en inp now st1 = (Inr c, st2)"
    and acc: "\<And>k. account_at st2 k = fold apply_event (filter (\<lambda>e. balance_key e = k) (rs @ [c])) (account_at st k)"
    and c: "amount c = in_amount inp" "balance_key c = in_balance_key inp" "\<And>e. e \<in> set rs \<Longrightarrow> amount e = 0"
    using charge_parts [OF assms(1)] by metis
  have z: "acct_balance (fold apply_event (filter P rs) a) = acct_balance a" for P a
    using c(3) by (induction rs arbitrary: a) auto
  let ?st3 = "with_account (in_bucket inp, t) id st2"
  have "emit_charge_locked B sha en inp ho now st = (Failed (InvalidRequest ''transfer amount overflows i64''), ?st3)"
    using assms p by (simp add: emit_charge_locked_def Let_def transfer_credit_def checked_abs_def)
  moreover have "batch_tx st2 = batch_tx st"
    using charge_reservation_ledger [OF p(1)] charge_standard_ledger [OF p(2)]
    by (metis fold_apply_log lg_log_of fold_simps(1,2))
  ultimately show ?thesis using acc [of "in_balance_key inp"] c z assms(6) by simp
qed

end

lemma create_charge_done:
  assumes "store_good mem_inv st" and "admitted (mem_backend sha) inp st"
    and "from_input (env_now en 0) inp = Inr (Charge ho)"
    and "charge_hold st (account_at st (in_balance_key inp)) inp ho (env_now en 1) = (hold, ex)"
    and "\<And>t. in_transfer_to inp = Some t \<Longrightarrow> t \<noteq> in_account inp \<and> in_amount inp \<noteq> i64_min"
    and "charge_guard (account_at st (in_balance_key inp)) inp hold (env_now en 1) = None"
  shows "\<exists>r st'. create_local_events (mem_backend sha) sha en inp st = (Done r, st') \<and> emitted_events r \<noteq> []"
proof -
  let ?s = "with_account (in_balance_key inp) id st"
  have h: "charge_hold ?s (account_at ?s (in_balance_key inp)) inp ho (env_now en 1) = (hold, ex)"
    using assms(4) by (simp add: charge_hold_open)
  have "\<exists>r st'. emit_charge_locked (mem_backend sha) sha en inp ho (env_now en 1) ?s = (Done r, st') \<and> emitted_events r \<noteq> []"
    by (rule mem_store.emit_charge_total [OF _ h _ assms(5)]) (use assms(1,6) in simp_all)
  then show ?thesis using create_admitted [OF assms(2,3)] by (simp add: emit_mode_def)
qed

lemma create_charge_refused:
  assumes "admitted B inp st" "from_input (env_now en 0) inp = Inr (Charge ho)"
    and "charge_guard (account_at st (in_balance_key inp)) inp hold (env_now en 1) = Some err"
    and "charge_hold st (account_at st (in_balance_key inp)) inp ho (env_now en 1) = (hold, ex)"
  shows "\<exists>st'. create_local_events B sha en inp st = (Failed err, st') \<and> ledger_of st' = ledger_of st"
proof -
  have "create_local_events B sha en inp st = (Failed err, with_account (in_balance_key inp) id st)"
    using create_admitted [OF assms(1,2), of sha] assms(3,4)
    by (simp add: emit_mode_def emit_charge_locked_def Let_def charge_hold_open)
  then show ?thesis by simp
qed


definition sample_request :: "i64 \<Rightarrow> local_create_input" where
  "sample_request amt = legacy ''b'' ''a'' amt None 100 ''k'' False"

lemma sample_request_facts:
  "in_bucket (sample_request x) = ''b''" "in_account (sample_request x) = ''a''" "in_amount (sample_request x) = x"
  "in_transfer_to (sample_request x) = None" "in_max_overdraft (sample_request x) = 100"
  "in_balance_key (sample_request x) = (''b'', ''a'')" "from_input now (sample_request x) = Inr (Charge None)"
  "admitted (mem_backend sha) (sample_request x) (fresh_node n)"
  "charge_hold (fresh_node n) a (sample_request x) None now = (0, 0)"
  by (simp_all add: sample_request_def legacy_def in_balance_key_def from_input_def explicit_hold_def admitted_def
      is_reserved_bucket_name_def META_BUCKET_def BILLING_BUCKET_PREFIX_def charge_hold_def Let_def saturating_sub_def)

lemma sample_negative: "(- 30 :: i64) <s 0"
  by code_simp

lemma sample_guard: "charge_guard account_new (sample_request (- 30)) 0 now = None"
  by (simp add: charge_guard_def sample_request_facts Let_def in_floor_def)


text \<open>C3. Overdraft safety: a new debit that is charged leaves the available balance, with the hold it
  places already withheld, at or above minus the overdraft limit, as a signed number; the balance moves by
  exactly the amount. The limit must fit in an \<open>i64\<close>, and a hold that is placed must be live and have a
  fresh id.\<close>

theorem overdraft_safety:
  assumes "create_local_events B sha en inp st = (Done r, st')" and "emitted_events r \<noteq> []"
    and "from_input (env_now en 0) inp = Inr (Charge ho)" and "in_amount inp <s 0"
    and "charge_hold st (account_at st (in_balance_key inp)) inp ho (env_now en 1) = (hold, ex)"
    and "hold > 0 \<longrightarrow> ex > env_now en 1 \<and> env_id en 0 |\<notin>| released (account_at st (in_balance_key inp)) \<and>
           fmlookup (reservations (account_at st (in_balance_key inp))) (env_id en 0) = None"
    and "in_max_overdraft inp < 9223372036854775808"
  shows "- uint (in_max_overdraft inp) \<le> sint (available_balance (account_at st' (in_balance_key inp)) (env_now en 1)) \<and>
     acct_balance (account_at st' (in_balance_key inp)) = acct_balance (account_at st (in_balance_key inp)) + in_amount inp"
proof -
  let ?a = "account_at st (in_balance_key inp)"
  note ca = charge_account [OF assms(1-3) refl assms(5)]
  have "in_floor inp \<le>s available_balance ?a (env_now en 1) + in_amount inp - hold"
    using ca(3) assms(4,6) by (auto simp: charge_guard_def Let_def signed_less_sint signed_le_sint split: if_splits)
  moreover have "sint (in_floor inp) = - uint (in_max_overdraft inp)"
    using assms(7) by (simp add: in_floor_def sint_uminus_small)
  ultimately show ?thesis using ca(1,2) assms(6) by (simp add: signed_le_sint)
qed

theorem overdraft_safety_witness:
  "\<exists>r st'. create_local_events (mem_backend no_hash) no_hash (sample_env 5 ''e'') (sample_request (- 30)) (fresh_node ''n'') = (Done r, st') \<and>
     - 100 \<le> sint (available_balance (account_at st' (''b'', ''a'')) 5) \<and> acct_balance (account_at st' (''b'', ''a'')) = - 30"
proof -
  let ?inp = "sample_request (- 30)" and ?en = "sample_env 5 ''e''"
  obtain r st' where c: "create_local_events (mem_backend no_hash) no_hash ?en ?inp (fresh_node ''n'') = (Done r, st')" "emitted_events r \<noteq> []"
    using create_charge_done [of "fresh_node ''n''" no_hash ?inp ?en None 0 0]
    by (auto simp: sample_request_facts fresh_node_good sample_guard)
  from overdraft_safety [OF c, of None 0 0] have
    "- uint (100 :: u64) \<le> sint (available_balance (account_at st' (''b'', ''a'')) (env_now ?en 1)) \<and>
     acct_balance (account_at st' (''b'', ''a'')) = acct_balance account_new + - 30"
    by (simp add: sample_request_facts sample_negative)
  with c show ?thesis by (simp add: sample_env_def account_new_def)
qed

subsection \<open>Transfers\<close>

lemma balance_after_create:
  "create_local_events B sha en inp st = (Done r, st') \<Longrightarrow>
   acct_balance (account_at st' k) = acct_balance (account_at st k) +
     sum_list (map amount (filter (\<lambda>e. balance_key e = k) (emitted_events r)))"
  by (simp add: account_after_create fold_apply_balance)

text \<open>C25. A transfer debits one account and credits the other: the sender moves by the amount, the receiver
  by its absolute value, no other account moves, and for a debit the sum of the two is unchanged.\<close>

theorem transfer_conserves:
  assumes "create_local_events B sha en inp st = (Done r, st')" and "emitted_events r \<noteq> []"
    and "from_input (env_now en 0) inp = Inr (Charge ho)" and "in_transfer_to inp = Some t"
    and "in_amount inp <s 0"
  shows "acct_balance (account_at st' (in_bucket inp, in_account inp)) =
           acct_balance (account_at st (in_bucket inp, in_account inp)) + in_amount inp \<and>
     acct_balance (account_at st' (in_bucket inp, t)) = acct_balance (account_at st (in_bucket inp, t)) - in_amount inp \<and>
     t \<noteq> in_account inp \<and>
     (\<forall>k. k \<noteq> (in_bucket inp, in_account inp) \<and> k \<noteq> (in_bucket inp, t) \<longrightarrow> account_at st' k = account_at st k)"
proof -
  let ?s = "with_account (in_balance_key inp) id st"
  have em: "emit_charge_locked B sha en inp ho (env_now en 1) ?s = (Done r, st')"
    using create_emits [OF assms(1,2)] assms(3) by (auto simp: emit_mode_def)
  obtain hold ex where h: "charge_hold ?s (account_at ?s (in_balance_key inp)) inp ho (env_now en 1) = (hold, ex)" by force
  obtain rs c e where sh: "emitted_events r = rs @ [c, e]" "amount c = in_amount inp" "balance_key c = in_balance_key inp"
    "\<forall>x\<in>set rs. amount x = 0 \<and> balance_key x = in_balance_key inp" "t \<noteq> in_account inp" "balance_key e = (in_bucket inp, t)"
    "checked_abs (in_amount inp) = Some (amount e)"
  proof (rule charge_shape [OF em h])
    fix rs c cs
    assume 1: "emitted_events r = rs @ [c] @ cs" "amount c = in_amount inp" "balance_key c = in_balance_key inp"
      and 2: "rs = [] \<and> hold = 0 \<or> (\<exists>e. rs = [e] \<and> hold > 0 \<and> etype e = ReservationCreate \<and> amount e = 0 \<and> hold_amount e = hold \<and>
       hold_expires_at_unix_ms e = ex \<and> event_id e = env_id en 0 \<and> balance_key e = in_balance_key inp)"
      and 3: "case in_transfer_to inp of None \<Rightarrow> cs = []
     | Some t \<Rightarrow> \<exists>e. cs = [e] \<and> t \<noteq> in_account inp \<and> balance_key e = (in_bucket inp, t) \<and> etype e = Standard \<and>
         hold_amount e = 0 \<and> checked_abs (in_amount inp) = Some (amount e)"
    from 3 assms(4) obtain e where "cs = [e]" "t \<noteq> in_account inp" "balance_key e = (in_bucket inp, t)"
      "checked_abs (in_amount inp) = Some (amount e)" by auto
    moreover have "\<forall>x\<in>set rs. amount x = 0 \<and> balance_key x = in_balance_key inp" using 2 by auto
    ultimately show thesis using 1 by (intro that [of rs c e]) auto
  qed
  have abs: "amount e = - in_amount inp" using sh(7) assms(5) by (auto simp: checked_abs_def split: if_splits)
  have z: "sum_list (map amount (filter P rs)) = 0" for P using sh(4) by (induction rs) auto
  have k: "filter (\<lambda>e. balance_key e = k) rs = []" if "k \<noteq> in_balance_key inp" for k
    using sh(4) that by (auto simp: filter_empty_conv)
  have "account_at st' k = account_at st k" if "k \<noteq> (in_bucket inp, in_account inp)" "k \<noteq> (in_bucket inp, t)" for k
    using sh k that by (simp add: account_after_create [OF assms(1)] in_balance_key_def)
  moreover have "acct_balance (account_at st' (in_bucket inp, in_account inp)) =
      acct_balance (account_at st (in_bucket inp, in_account inp)) + in_amount inp \<and>
      acct_balance (account_at st' (in_bucket inp, t)) = acct_balance (account_at st (in_bucket inp, t)) - in_amount inp"
    using sh abs z z [of "\<lambda>_. True"] by (auto simp: balance_after_create [OF assms(1)] in_balance_key_def)
  ultimately show ?thesis using sh(5) by blast
qed

definition sample_transfer :: "i64 \<Rightarrow> string \<Rightarrow> local_create_input" where
  "sample_transfer x t = (sample_request x)\<lparr>in_transfer_to := Some t\<rparr>"

lemma sample_transfer_facts:
  "in_bucket (sample_transfer x t) = ''b''" "in_account (sample_transfer x t) = ''a''" "in_amount (sample_transfer x t) = x"
  "in_transfer_to (sample_transfer x t) = Some t" "in_max_overdraft (sample_transfer x t) = 100"
  "in_balance_key (sample_transfer x t) = (''b'', ''a'')" "from_input now (sample_transfer x t) = Inr (Charge None)"
  "admitted (mem_backend sha) (sample_transfer x t) (fresh_node n)"
  "charge_hold (fresh_node n) a (sample_transfer x t) None now = (0, 0)"
  by (simp_all add: sample_transfer_def sample_request_def legacy_def in_balance_key_def from_input_def explicit_hold_def admitted_def
      is_reserved_bucket_name_def META_BUCKET_def BILLING_BUCKET_PREFIX_def charge_hold_def Let_def saturating_sub_def)

lemma sample_transfer_guard: "charge_guard account_new (sample_transfer (- 30) t) 0 now = None"
  by (simp add: charge_guard_def sample_transfer_facts Let_def in_floor_def)

theorem transfer_conserves_witness:
  "\<exists>r st'. create_local_events (mem_backend no_hash) no_hash (sample_env 5 ''e'') (sample_transfer (- 30) ''c'') (fresh_node ''n'') = (Done r, st') \<and>
     acct_balance (account_at st' (''b'', ''a'')) = - 30 \<and> acct_balance (account_at st' (''b'', ''c'')) = 30"
proof -
  let ?inp = "sample_transfer (- 30) ''c''" and ?en = "sample_env 5 ''e''"
  have n: "(- 30 :: i64) \<noteq> i64_min" by (simp add: i64_min_def)
  obtain r st' where c: "create_local_events (mem_backend no_hash) no_hash ?en ?inp (fresh_node ''n'') = (Done r, st')" "emitted_events r \<noteq> []"
    using create_charge_done [of "fresh_node ''n''" no_hash ?inp ?en None 0 0] n
    by (auto simp: sample_transfer_facts fresh_node_good sample_transfer_guard)
  from transfer_conserves [OF c, of None "''c''"] c show ?thesis
    by (auto simp: sample_transfer_facts sample_negative account_new_def)
qed



text \<open>C33. A transfer of \<open>i64::MIN\<close> that passes the guard is rejected only after the debit: the sender's
  balance in memory has moved, and the log has no event for it.\<close>

theorem min_transfer_debits_on_error:
  assumes "store_good mem_inv st" and "admitted (mem_backend sha) inp st"
    and "from_input (env_now en 0) inp = Inr (Charge ho)"
    and "charge_hold st (account_at st (in_balance_key inp)) inp ho (env_now en 1) = (hold, ex)"
    and "charge_guard (account_at st (in_balance_key inp)) inp hold (env_now en 1) = None"
    and "in_transfer_to inp = Some t" and "t \<noteq> in_account inp" and "in_amount inp = i64_min"
  shows "\<exists>st'. create_local_events (mem_backend sha) sha en inp st = (Failed (InvalidRequest ''transfer amount overflows i64''), st') \<and>
     batch_tx st' = batch_tx st \<and>
     acct_balance (account_at st' (in_balance_key inp)) = acct_balance (account_at st (in_balance_key inp)) + i64_min"
proof -
  let ?s = "with_account (in_balance_key inp) id st"
  have "\<exists>st'. emit_charge_locked (mem_backend sha) sha en inp ho (env_now en 1) ?s =
      (Failed (InvalidRequest ''transfer amount overflows i64''), st') \<and> batch_tx st' = batch_tx ?s \<and>
      acct_balance (account_at st' (in_balance_key inp)) = acct_balance (account_at ?s (in_balance_key inp)) + i64_min"
    by (rule mem_store.emit_charge_min_transfer [where hold = hold and ex = ex]) (use assms in \<open>simp_all add: charge_hold_open\<close>)
  then show ?thesis using create_admitted [OF assms(2,3)] by (simp add: emit_mode_def)
qed

theorem min_transfer_debits_on_error_witness:
  "\<exists>st'. create_local_events (mem_backend no_hash) no_hash (sample_env 5 ''e'')
       ((sample_transfer i64_min ''c'')\<lparr>in_max_overdraft := 9223372036854775808\<rparr>) (fresh_node ''n'') =
       (Failed (InvalidRequest ''transfer amount overflows i64''), st') \<and> batch_tx st' = [] \<and>
     acct_balance (account_at st' (''b'', ''a'')) = i64_min"
proof -
  let ?inp = "(sample_transfer i64_min ''c'')\<lparr>in_max_overdraft := 9223372036854775808\<rparr>" and ?en = "sample_env 5 ''e''"
  have f: "from_input (env_now ?en 0) ?inp = Inr (Charge None)" "admitted (mem_backend no_hash) ?inp (fresh_node ''n'')"
    "charge_hold (fresh_node ''n'') account_new ?inp None (env_now ?en 1) = (0, 0)" "in_balance_key ?inp = (''b'', ''a'')"
    by (simp_all add: sample_transfer_def sample_request_def legacy_def in_balance_key_def from_input_def explicit_hold_def admitted_def
        is_reserved_bucket_name_def META_BUCKET_def BILLING_BUCKET_PREFIX_def charge_hold_def Let_def saturating_sub_def in_idem_key_def)
  have g: "charge_guard account_new ?inp 0 (env_now ?en 1) = None"
    by (simp add: charge_guard_def sample_transfer_def in_floor_def Let_def) (simp add: i64_min_def sample_request_def legacy_def)
  show ?thesis
    using min_transfer_debits_on_error [of "fresh_node ''n''" no_hash ?inp ?en None 0 0 "''c''"] f g
    by (simp add: fresh_node_good account_new_def sample_transfer_facts)
qed

end
