(* ===== verification/Holds.thy ===== *)
theory Holds
  imports Guarantees
begin

section \<open>Reservations: reserve, settle and release\<close>

text \<open>
  The life of a reservation through \<open>create_local_events\<close>: a reserve withholds its amount, a settle
  charges at most what was reserved and frees the rest, a release gives everything back, and a
  reservation ends only once. The last part is the retry of a request under the same nonce.
\<close>

subsection \<open>The shape of what is emitted\<close>

lemma reserve_shape:
  assumes "emit_reserve_locked B sha en inp now st = (Done r, st')"
    and "in_hold_amount inp = Some hold" and "in_hold_expires_at_unix_ms inp = Some ex"
  obtains e where "emitted_events r = [e]" "primary_event r = e" "etype e = ReservationCreate" "amount e = 0"
    "balance_key e = in_balance_key inp" "event_id e = env_id en 0" "hold_amount e = hold" "hold_expires_at_unix_ms e = ex"
    "\<not> available_balance (account_at st (in_balance_key inp)) now - hold <s in_floor inp"
  using assms
  by (auto simp: emit_reserve_locked_def Let_def balance_key_def in_balance_key_def event_frames
      split: if_splits prod.splits sum.splits)

lemma settle_shape:
  assumes "emit_settle_locked B sha en inp rid now st = (Done r, st')"
  obtains res c l where "find_reservation (account_at st (in_balance_key inp)) rid now = Inr res"
    "unsigned_abs (in_amount inp) \<le> rs_amount res"
    "emitted_events r = [c, l]" "primary_event r = c" "etype c = Standard" "hold_amount c = 0" "amount c = in_amount inp"
    "balance_key c = in_balance_key inp" "etype l = HoldRelease" "amount l = 0" "void_ref l = Some rid"
    "balance_key l = in_balance_key inp"
proof -
  obtain res where res: "find_reservation (account_at st (in_balance_key inp)) rid now = Inr res"
      "unsigned_abs (in_amount inp) \<le> rs_amount res"
    using assms by (auto simp: emit_settle_locked_def Let_def not_le split: sum.splits if_splits)
  let ?a = "account_at st (in_balance_key inp)"
  obtain pos1 st1 pos2 st2 where
    al: "allocate_or_fail B (in_bucket inp) (acct_balance ?a) (available_balance ?a now) st = (Inr pos1, st1)"
    "allocate_or_fail B (in_bucket inp) (acct_balance ?a) (available_balance ?a now) st1 = (Inr pos2, st2)"
    using assms by (auto simp: emit_settle_locked_def Let_def split: prod.splits sum.splits if_splits)
  have "emitted_events r = [settle_charge_event en st2 pos1 inp now, settle_release_event en st2 pos2 inp rid now]"
    "primary_event r = settle_charge_event en st2 pos1 inp now"
    using assms al res(1) by (auto simp: emit_settle_locked_def Let_def split: if_splits)
  with res show thesis
    by (intro that [of res "settle_charge_event en st2 pos1 inp now" "settle_release_event en st2 pos2 inp rid now"])
      (simp_all add: balance_key_def in_balance_key_def event_frames)
qed

lemma release_shape:
  assumes "emit_release_locked B sha en inp rid now st = (Done r, st')"
  obtains res e where "find_reservation (account_at st (in_balance_key inp)) rid now = Inr res"
    "emitted_events r = [e]" "primary_event r = e" "etype e = HoldRelease" "amount e = 0" "void_ref e = Some rid"
    "balance_key e = in_balance_key inp"
  using assms
  by (auto simp: emit_release_locked_def Let_def balance_key_def in_balance_key_def event_frames
      split: prod.splits sum.splits)

lemma find_reservation_Inr:
  "find_reservation a rid now = Inr res \<longleftrightarrow>
     fmlookup (reservations a) rid = Some res \<and> rid |\<notin>| released a \<and> rs_expires_at_unix_ms res > now"
  by (auto simp: find_reservation_def not_le split: option.splits)

lemma apply_release_event:
  assumes "etype e = HoldRelease" "amount e = 0" "void_ref e = Some rid"
  shows "apply_event e a = apply_release rid (count_event 0 a)"
  using assms by (simp add: apply_event_def release_of_def track_reservation_def has_hold_def)

lemma released_apply_release [simp]: "rid |\<in>| released (apply_release rid a)"
  by (simp add: apply_release_def)

lemma apply_release_frame [simp]:
  "acct_balance (apply_release i a) = acct_balance a" "reservations (apply_release i a) = reservations a"
  by (simp_all add: apply_release_def)

lemma count_event_frame [simp]:
  "acct_balance (count_event x a) = acct_balance a + x" "reservations (count_event x a) = reservations a"
  "released (count_event x a) = released a"
  by (simp_all add: count_event_def)

text \<open>Once released, a reservation is refused to every later settle and release.\<close>

lemma released_refused:
  assumes "fmlookup (reservations (account_at st (in_balance_key inp))) rid = Some res"
    and "rid |\<in>| released (account_at st (in_balance_key inp))"
    and "admitted B inp st" and "from_input (env_now en 0) inp \<in> {Inr (Settle rid), Inr (Release rid)}"
  shows "fst (create_local_events B sha en inp st) = Failed (ReservationAlreadyReleased rid)"
  using assms create_admitted [OF assms(3), of en _ sha]
  by (auto simp: emit_mode_def emit_settle_locked_def emit_release_locked_def Let_def find_reservation_def)

subsection \<open>Settle\<close>

text \<open>C23. A settle charges at most the reserved amount and ends the reservation: the balance moves by the
  amount, the available balance by the amount plus everything that was withheld, and any later settle or
  release of the same reservation that reaches the account is refused as already released.\<close>

theorem settle_ends_reservation:
  assumes "create_local_events B sha en inp st = (Done r, st')" and "emitted_events r \<noteq> []"
    and "from_input (env_now en 0) inp = Inr (Settle rid)"
  shows "\<exists>res. fmlookup (reservations (account_at st (in_balance_key inp))) rid = Some res \<and>
     unsigned_abs (in_amount inp) \<le> rs_amount res \<and>
     acct_balance (account_at st' (in_balance_key inp)) = acct_balance (account_at st (in_balance_key inp)) + in_amount inp \<and>
     available_balance (account_at st' (in_balance_key inp)) (env_now en 1) =
       available_balance (account_at st (in_balance_key inp)) (env_now en 1) + in_amount inp + rs_amount res \<and>
     (\<forall>en2 inp2. in_balance_key inp2 = in_balance_key inp \<and> admitted B inp2 st' \<and>
        from_input (env_now en2 0) inp2 \<in> {Inr (Settle rid), Inr (Release rid)} \<longrightarrow>
        fst (create_local_events B sha en2 inp2 st') = Failed (ReservationAlreadyReleased rid))"
proof -
  let ?k = "in_balance_key inp" and ?now = "env_now en 1"
  let ?a = "account_at st ?k"
  have em: "emit_settle_locked B sha en inp rid ?now (with_account ?k id st) = (Done r, st')"
    using create_emits [OF assms(1,2)] assms(3) by (auto simp: emit_mode_def)
  obtain res c l where sh: "find_reservation (account_at (with_account ?k id st) ?k) rid ?now = Inr res"
    "unsigned_abs (in_amount inp) \<le> rs_amount res"
    "emitted_events r = [c, l]" "primary_event r = c" "etype c = Standard" "hold_amount c = 0" "amount c = in_amount inp"
    "balance_key c = ?k" "etype l = HoldRelease" "amount l = 0" "void_ref l = Some rid" "balance_key l = ?k"
    by (rule settle_shape [OF em])
  have res: "fmlookup (reservations ?a) rid = Some res" "rid |\<notin>| released ?a" "rs_expires_at_unix_ms res > ?now"
    using sh(1) by (simp_all add: find_reservation_Inr)
  let ?b = "count_event 0 (count_event (in_amount inp) ?a)"
  have acc: "account_at st' ?k = apply_release rid ?b"
    using account_after_create [OF assms(1), of ?k] sh apply_event_plain [of c ?a] by (simp add: apply_release_event)
  have "active_hold_total (apply_release rid ?b) ?now = active_hold_total ?b ?now - rs_amount res"
    by (rule active_hold_total_release) (use res in simp_all)
  then have av: "available_balance (account_at st' ?k) ?now = available_balance ?a ?now + in_amount inp + rs_amount res"
    by (simp add: acc available_balance_def)
  have "\<forall>en2 inp2. in_balance_key inp2 = ?k \<and> admitted B inp2 st' \<and>
      from_input (env_now en2 0) inp2 \<in> {Inr (Settle rid), Inr (Release rid)} \<longrightarrow>
      fst (create_local_events B sha en2 inp2 st') = Failed (ReservationAlreadyReleased rid)"
    using released_refused [of st' _ rid res B] res(1) by (simp add: acc)
  with res(1) sh(2) av show ?thesis by (auto simp: acc)
qed

subsection \<open>Reserve and release\<close>

lemma reserve_account:
  assumes "create_local_events B sha en inp st = (Done r, st')" and "emitted_events r \<noteq> []"
    and "from_input (env_now en 0) inp = Inr Reserve"
    and "in_hold_amount inp = Some hold" "in_hold_expires_at_unix_ms inp = Some ex"
    and a: "a = account_at st (in_balance_key inp)"
    and "fmlookup (reservations a) (env_id en 0) = None" "env_id en 0 |\<notin>| released a"
  shows "event_id (primary_event r) = env_id en 0"
    and "acct_balance (account_at st' (in_balance_key inp)) = acct_balance a"
    and "released (account_at st' (in_balance_key inp)) = released a"
    and "\<exists>res. fmlookup (reservations (account_at st' (in_balance_key inp))) (env_id en 0) = Some res \<and>
           rs_amount res = hold \<and> rs_expires_at_unix_ms res = ex"
    and "t < ex \<Longrightarrow> active_hold_total (account_at st' (in_balance_key inp)) t = active_hold_total a t + hold"
    and "\<not> available_balance a (env_now en 1) - hold <s in_floor inp"
proof -
  let ?k = "in_balance_key inp" and ?now = "env_now en 1"
  have em: "emit_reserve_locked B sha en inp ?now (with_account ?k id st) = (Done r, st')"
    using create_emits [OF assms(1,2)] assms(3) by (auto simp: emit_mode_def)
  obtain e where sh: "emitted_events r = [e]" "primary_event r = e" "etype e = ReservationCreate" "amount e = 0"
    "balance_key e = ?k" "event_id e = env_id en 0" "hold_amount e = hold" "hold_expires_at_unix_ms e = ex"
    "\<not> available_balance (account_at (with_account ?k id st) ?k) ?now - hold <s in_floor inp"
    by (rule reserve_shape [OF em assms(4,5)])
  have "hold > 0" "ex > env_now en 0" using from_input_sound [OF assms(3)] assms(4,5) by (auto simp: mode_sound_def)
  then have hh: "has_hold e" using sh by (auto simp: has_hold_def intro: order_le_less_trans)
  have ev: "apply_event e a = track_reservation e (count_event 0 a)"
    using sh by (simp add: apply_event_def release_of_def split: option.splits)
  have acc: "account_at st' ?k = track_reservation e (count_event 0 a)"
    using account_after_create [OF assms(1), of ?k] sh ev by (simp add: a)
  show "event_id (primary_event r) = env_id en 0" using sh by simp
  show "acct_balance (account_at st' ?k) = acct_balance a" "released (account_at st' ?k) = released a"
    by (simp_all add: acc track_reservation_def)
  show "\<exists>res. fmlookup (reservations (account_at st' ?k)) (env_id en 0) = Some res \<and> rs_amount res = hold \<and> rs_expires_at_unix_ms res = ex"
    using hh sh by (simp add: acc track_reservation_def)
  show "active_hold_total (account_at st' ?k) t = active_hold_total a t + hold" if "t < ex"
    using active_hold_total_track [of e "count_event 0 a" t] hh sh that assms(7,8) by (simp add: acc)
  show "\<not> available_balance a ?now - hold <s in_floor inp" using sh(9) by (simp add: a)
qed

lemma release_account:
  assumes "create_local_events B sha en inp st = (Done r, st')" and "emitted_events r \<noteq> []"
    and "from_input (env_now en 0) inp = Inr (Release rid)"
    and a: "a = account_at st (in_balance_key inp)" and res: "fmlookup (reservations a) rid = Some res"
  shows "acct_balance (account_at st' (in_balance_key inp)) = acct_balance a"
    and "rid |\<in>| released (account_at st' (in_balance_key inp))"
    and "t < rs_expires_at_unix_ms res \<Longrightarrow>
         active_hold_total (account_at st' (in_balance_key inp)) t = active_hold_total a t - rs_amount res"
proof -
  let ?k = "in_balance_key inp" and ?now = "env_now en 1"
  have em: "emit_release_locked B sha en inp rid ?now (with_account ?k id st) = (Done r, st')"
    using create_emits [OF assms(1,2)] assms(3) by (auto simp: emit_mode_def)
  obtain res' e where sh: "find_reservation (account_at (with_account ?k id st) ?k) rid ?now = Inr res'"
    "emitted_events r = [e]" "primary_event r = e" "etype e = HoldRelease" "amount e = 0" "void_ref e = Some rid"
    "balance_key e = ?k"
    by (rule release_shape [OF em])
  have acc: "account_at st' ?k = apply_release rid (count_event 0 a)"
    using account_after_create [OF assms(1), of ?k] sh by (simp add: apply_release_event a)
  show "acct_balance (account_at st' ?k) = acct_balance a" "rid |\<in>| released (account_at st' ?k)" by (simp_all add: acc)
  show "active_hold_total (account_at st' ?k) t = active_hold_total a t - rs_amount res" if "t < rs_expires_at_unix_ms res"
    using active_hold_total_release [of "count_event 0 a" rid res t] res sh(1) that by (simp add: acc find_reservation_Inr a)
qed

text \<open>C24. Reserve and release are a round trip: the reserve withholds exactly its amount from the available
  balance, and the release of that reservation gives exactly it back, at every time before the expiry; the
  balance itself never moves, and the reserve was within the overdraft limit.\<close>

theorem reserve_release_roundtrip:
  assumes "create_local_events B sha en inp st = (Done r, st1)" and "emitted_events r \<noteq> []"
    and "from_input (env_now en 0) inp = Inr Reserve"
    and "in_hold_amount inp = Some hold" and "in_hold_expires_at_unix_ms inp = Some ex"
    and "fmlookup (reservations (account_at st (in_balance_key inp))) (env_id en 0) = None"
    and "env_id en 0 |\<notin>| released (account_at st (in_balance_key inp))"
    and "create_local_events B sha en2 inp2 st1 = (Done r2, st2)" and "emitted_events r2 \<noteq> []"
    and "from_input (env_now en2 0) inp2 = Inr (Release (event_id (primary_event r)))"
    and "in_balance_key inp2 = in_balance_key inp" and "t < ex"
  shows "available_balance (account_at st1 (in_balance_key inp)) t = available_balance (account_at st (in_balance_key inp)) t - hold \<and>
     available_balance (account_at st2 (in_balance_key inp)) t = available_balance (account_at st (in_balance_key inp)) t \<and>
     acct_balance (account_at st2 (in_balance_key inp)) = acct_balance (account_at st (in_balance_key inp)) \<and>
     in_floor inp \<le>s available_balance (account_at st (in_balance_key inp)) (env_now en 1) - hold"
proof -
  let ?k = "in_balance_key inp"
  note ra = reserve_account [OF assms(1-5) refl assms(6,7)]
  obtain res where res: "fmlookup (reservations (account_at st1 ?k)) (env_id en 0) = Some res" "rs_amount res = hold"
    "rs_expires_at_unix_ms res = ex" using ra(4) by blast
  note rl = release_account [OF assms(8,9) assms(10) [unfolded ra(1)] refl, unfolded assms(11), OF res(1)]
  show ?thesis
    using ra(2,5,6) rl(1,3) res(2,3) assms(12) by (simp add: available_balance_def signed_less_sint signed_le_sint)
qed

subsection \<open>What a create leaves in the store and the cache\<close>

lemma flush_cache [simp]: "idempotency_cache (flush_local_events B sha es st) = idempotency_cache st"
proof -
  have "idempotency_cache (record_new_local_event B sha e st) = idempotency_cache st" for e and st :: "'a shared_state"
    by (simp add: record_new_local_event_def count_and_send_def update_origin_tracking_def store_event_buffer_def)
  then show ?thesis unfolding flush_local_events_def by (induction es arbitrary: st) simp_all
qed

lemma allocate_in_frame:
  assumes "allocate_in B b st = (r, st')"
  shows "idempotency_cache st' = idempotency_cache st" and "deleted_buckets st' = deleted_buckets st"
  using assms by (cases "allocate B (node_id st) (bucket_allocators st) (storage st) b"; fastforce simp: allocate_in_def)+

lemma allocate_or_fail_frame:
  assumes "allocate_or_fail B b x y st = (r, st')"
  shows "idempotency_cache st' = idempotency_cache st" and "deleted_buckets st' = deleted_buckets st"
  using assms by (auto simp: allocate_or_fail_def dest: allocate_in_frame split: prod.splits option.splits)

lemma flush_deleted [simp]: "deleted_buckets (flush_local_events B sha es st) = deleted_buckets st"
proof -
  have "deleted_buckets (record_new_local_event B sha e st) = deleted_buckets st" for e and st :: "'a shared_state"
    by (simp add: record_new_local_event_def count_and_send_def update_origin_tracking_def store_event_buffer_def)
  then show ?thesis unfolding flush_local_events_def by (induction es arbitrary: st) simp_all
qed

lemma cache_event_cache [simp]: "idempotency_cache (cache_event k e st) = fmupd k e (idempotency_cache st)"
  by (simp add: cache_event_def)

text \<open>After a create that returns, the cache answers the same request with the same event.\<close>

lemma charge_cached:
  assumes "emit_charge_locked B sha en inp ho now st = (Done r, st')"
  shows "fmlookup (idempotency_cache st') (in_idem_key inp) = Some (primary_event r)"
proof -
  let ?a = "account_at st (in_balance_key inp)"
  obtain hold ex where h: "charge_hold st ?a inp ho now = (hold, ex)" by force
  obtain rs st1 where r1: "charge_reservation B en inp hold ex now st = (Inr rs, st1)"
    using assms h by (auto simp: emit_charge_locked_def Let_def split: option.splits prod.splits sum.splits)
  obtain c st2 where r2: "charge_standard B en inp now st1 = (Inr c, st2)"
    using assms h r1 by (auto simp: emit_charge_locked_def Let_def split: option.splits prod.splits sum.splits)
  obtain cs st3 where r3: "transfer_credit B en inp now st2 = (Done cs, st3)"
    using assms h r1 r2 by (auto simp: emit_charge_locked_def Let_def split: option.splits prod.splits outcome.splits)
  have res: "primary_event r = c" "st' = flush_local_events B sha (rs @ [c] @ cs) st3"
    using assms h r1 r2 r3 by (auto simp: emit_charge_locked_def Let_def split: option.splits)
  have "fmlookup (idempotency_cache st2) (in_idem_key inp) = Some c"
    using r2 by (auto simp: charge_standard_def Let_def split: prod.splits sum.splits)
  moreover have "fmlookup (idempotency_cache st3) (in_idem_key inp) = fmlookup (idempotency_cache st2) (in_idem_key inp)"
    using r3 by (auto simp: transfer_credit_def Let_def in_idem_key_def dest: allocate_or_fail_frame(1)
        split: option.splits if_splits prod.splits sum.splits)
  ultimately show ?thesis by (simp add: res)
qed

lemma create_cached:
  assumes "create_local_events B sha en inp st = (Done r, st')"
  shows "fmlookup (idempotency_cache st') (in_idem_key inp) = Some (primary_event r)"
proof (cases "emitted_events r = []")
  case True
  obtain mode where mode: "from_input (env_now en 0) inp = Inr mode"
    using assms by (auto simp: create_local_events_def split: if_splits sum.splits)
  have "emit_mode B sha en inp mode (env_now en 1) (with_account (in_balance_key inp) id st) \<noteq> (Done r, st')"
    using emit_mode_ledger [of B sha en inp mode "env_now en 1" _ r st'] True by blast
  with assms mode show ?thesis
    by (auto simp: create_local_events_def Let_def split: if_splits option.splits list.splits)
next
  case False
  then obtain mode where mode: "from_input (env_now en 0) inp = Inr mode"
    and em: "emit_mode B sha en inp mode (env_now en 1) (with_account (in_balance_key inp) id st) = (Done r, st')"
    by (rule create_emits [OF assms])
  note sound = from_input_sound [OF mode]
  show ?thesis
  proof (cases mode)
    case (Charge ho)
    with em charge_cached show ?thesis by (simp add: emit_mode_def)
  next
    case Reserve
    with em sound show ?thesis
      by (auto simp: emit_mode_def emit_reserve_locked_def Let_def mode_sound_def in_idem_key_def
          split: if_splits prod.splits sum.splits)
  next
    case (Settle rid)
    with sound have "in_amount inp \<noteq> 0" by (auto simp: mode_sound_def)
    with em Settle show ?thesis
      by (auto simp: emit_mode_def emit_settle_locked_def Let_def in_idem_key_def split: if_splits prod.splits sum.splits)
  next
    case (Release rid)
    with em sound show ?thesis
      by (auto simp: emit_mode_def emit_release_locked_def Let_def mode_sound_def in_idem_key_def
          split: if_splits prod.splits sum.splits)
  qed
qed

text \<open>C8. A retry is idempotent: once a create has returned, the same request, sent again at any later time while
  it is still well formed, returns the same event, emits nothing and leaves the log, every account and every
  chain as they are.\<close>

theorem retry_is_idempotent:
  assumes "create_local_events B sha en inp st = (Done r, st')"
    and "from_input (env_now en2 0) inp = Inr mode"
  shows "\<exists>st2. create_local_events B sha en2 inp st' = (Done \<lparr>primary_event = primary_event r, emitted_events = []\<rparr>, st2) \<and>
     ledger_of st2 = ledger_of st' \<and> idempotency_cache st2 = idempotency_cache st'"
proof -
  have d: "in_bucket inp \<notin> lg_deleted (ledger_of st')"
    using create_done_ledger(1,3) [OF assms(1)] by simp
  have "\<not> (\<not> in_allow_reserved_bucket inp \<and> is_reserved_bucket_name (in_bucket inp))"
    using assms(1) by (auto simp: create_local_events_def)
  then have "create_local_events B sha en2 inp st' =
      (Done \<lparr>primary_event = primary_event r, emitted_events = []\<rparr>, with_account (in_balance_key inp) id st')"
    using d assms(2) create_cached [OF assms(1)]
    by (auto simp: create_local_events_def Let_def ledger_of_def fmlookup_dom'_iff)
  then show ?thesis by simp
qed

theorem retry_is_idempotent_witness:
  "\<exists>r st' st2. create_local_events (mem_backend no_hash) no_hash (sample_env 5 ''e'') (sample_request (- 30)) (fresh_node ''n'') = (Done r, st') \<and>
     create_local_events (mem_backend no_hash) no_hash (sample_env 9 ''f'') (sample_request (- 30)) st' =
       (Done \<lparr>primary_event = primary_event r, emitted_events = []\<rparr>, st2) \<and> ledger_of st2 = ledger_of st'"
proof -
  let ?inp = "sample_request (- 30)" and ?en = "sample_env 5 ''e''"
  obtain r st' where c: "create_local_events (mem_backend no_hash) no_hash ?en ?inp (fresh_node ''n'') = (Done r, st')"
    using create_charge_done [of "fresh_node ''n''" no_hash ?inp ?en None 0 0]
    by (auto simp: sample_request_facts fresh_node_good sample_guard)
  from retry_is_idempotent [OF c sample_request_facts(7)] c show ?thesis by blast
qed

subsection \<open>Progress on the in-memory store\<close>

context node_store
begin

lemma emit_reserve_total:
  assumes "store_good inv st" and "in_hold_amount inp = Some hold" "in_hold_expires_at_unix_ms inp = Some ex"
    and "\<not> available_balance (account_at st (in_balance_key inp)) now - hold <s in_floor inp"
  shows "\<exists>r st'. emit_reserve_locked B sha en inp now st = (Done r, st') \<and> emitted_events r \<noteq> []"
proof -
  let ?a = "account_at st (in_balance_key inp)"
  obtain rr st1 where al: "allocate_or_fail B (in_bucket inp) (acct_balance ?a) (available_balance ?a now) st = (rr, st1)" by force
  with good_allocate_or_fail [OF assms(1)] obtain pos where "rr = Inr pos" by blast
  with al assms show ?thesis by (simp add: emit_reserve_locked_def Let_def)
qed

lemma emit_settle_total:
  assumes "store_good inv st" and "find_reservation (account_at st (in_balance_key inp)) rid now = Inr res"
    and "unsigned_abs (in_amount inp) \<le> rs_amount res"
  shows "\<exists>r st'. emit_settle_locked B sha en inp rid now st = (Done r, st') \<and> emitted_events r \<noteq> []"
proof -
  let ?a = "account_at st (in_balance_key inp)"
  obtain r1 st1 where al1: "allocate_or_fail B (in_bucket inp) (acct_balance ?a) (available_balance ?a now) st = (r1, st1)" by force
  with good_allocate_or_fail [OF assms(1)] obtain pos1 where g1: "store_good inv st1" "r1 = Inr pos1" by blast
  obtain r2 st2 where al2: "allocate_or_fail B (in_bucket inp) (acct_balance ?a) (available_balance ?a now) st1 = (r2, st2)" by force
  with good_allocate_or_fail [OF g1(1)] obtain pos2 where "r2 = Inr pos2" by blast
  with al1 al2 g1(2) assms(2,3) show ?thesis by (simp add: emit_settle_locked_def Let_def not_less del: node_id_simps)
qed

lemma emit_release_total:
  assumes "store_good inv st" and "find_reservation (account_at st (in_balance_key inp)) rid now = Inr res"
  shows "\<exists>r st'. emit_release_locked B sha en inp rid now st = (Done r, st') \<and> emitted_events r \<noteq> []"
proof -
  let ?a = "account_at st (in_balance_key inp)"
  obtain rr st1 where al: "allocate_or_fail B (in_bucket inp) (acct_balance ?a) (available_balance ?a now) st = (rr, st1)" by force
  with good_allocate_or_fail [OF assms(1)] obtain pos where "rr = Inr pos" by blast
  with al assms show ?thesis by (simp add: emit_release_locked_def Let_def)
qed

end

lemma create_settle_done:
  assumes "store_good mem_inv st" and "admitted (mem_backend sha) inp st"
    and "from_input (env_now en 0) inp = Inr (Settle rid)"
    and "find_reservation (account_at st (in_balance_key inp)) rid (env_now en 1) = Inr res"
    and "unsigned_abs (in_amount inp) \<le> rs_amount res"
  shows "\<exists>r st'. create_local_events (mem_backend sha) sha en inp st = (Done r, st') \<and> emitted_events r \<noteq> []"
proof -
  have "\<exists>r st'. emit_settle_locked (mem_backend sha) sha en inp rid (env_now en 1) (with_account (in_balance_key inp) id st) = (Done r, st') \<and>
      emitted_events r \<noteq> []"
    by (rule mem_store.emit_settle_total [where res = res]) (use assms in simp_all)
  then show ?thesis using create_admitted [OF assms(2,3)] by (simp add: emit_mode_def)
qed

text \<open>A node that holds one live reservation of 50.\<close>

definition reserved_node :: "mem_storage shared_state" where
  "reserved_node = with_account (''b'', ''a'') (\<lambda>_. account_new\<lparr>acct_balance := 80,
     reservations := fmupd ''r'' \<lparr>rs_origin_node_id = ''n'', rs_amount = 50, rs_expires_at_unix_ms = 1000\<rparr> fmempty\<rparr>) (fresh_node ''n'')"

definition sample_settle :: local_create_input where
  "sample_settle = (sample_request (- 30))\<lparr>in_settle_reservation := Some ''r''\<rparr>"

lemma sample_settle_facts:
  "store_good mem_inv reserved_node" "admitted (mem_backend sha) sample_settle reserved_node"
  "from_input now sample_settle = Inr (Settle ''r'')" "in_balance_key sample_settle = (''b'', ''a'')"
  "in_amount sample_settle = - 30"
  "account_at reserved_node (''b'', ''a'') = account_new\<lparr>acct_balance := 80,
     reservations := fmupd ''r'' \<lparr>rs_origin_node_id = ''n'', rs_amount = 50, rs_expires_at_unix_ms = 1000\<rparr> fmempty\<rparr>"
proof -
  show "store_good mem_inv reserved_node" by (simp add: reserved_node_def fresh_node_good)
  show "from_input now sample_settle = Inr (Settle ''r'')" "in_balance_key sample_settle = (''b'', ''a'')"
    "in_amount sample_settle = - 30"
    using sample_negative
    by (simp_all add: sample_settle_def sample_request_def legacy_def from_input_def explicit_hold_def in_balance_key_def Let_def)
  show "admitted (mem_backend sha) sample_settle reserved_node"
    using sample_request_facts(8) [of sha "- 30" "''n''"]
    by (simp add: admitted_def sample_settle_def reserved_node_def with_account_def in_idem_key_def)
  show "account_at reserved_node (''b'', ''a'') = account_new\<lparr>acct_balance := 80,
     reservations := fmupd ''r'' \<lparr>rs_origin_node_id = ''n'', rs_amount = 50, rs_expires_at_unix_ms = 1000\<rparr> fmempty\<rparr>"
    by (simp add: reserved_node_def account_at_def with_account_def)
qed

theorem settle_ends_reservation_witness:
  "\<exists>r st'. create_local_events (mem_backend no_hash) no_hash (sample_env 5 ''e'') sample_settle reserved_node = (Done r, st') \<and>
     acct_balance (account_at st' (''b'', ''a'')) = 50 \<and> available_balance (account_at st' (''b'', ''a'')) 5 = 50"
proof -
  let ?en = "sample_env 5 ''e''" and ?a = "account_at reserved_node (''b'', ''a'')"
  have f: "find_reservation ?a ''r'' (env_now ?en 1) = Inr \<lparr>rs_origin_node_id = ''n'', rs_amount = 50, rs_expires_at_unix_ms = 1000\<rparr>"
    by (simp add: sample_settle_facts find_reservation_Inr sample_env_def account_new_def)
  have u: "unsigned_abs (- 30) \<le> 50" by code_simp
  obtain r st' where c: "create_local_events (mem_backend no_hash) no_hash ?en sample_settle reserved_node = (Done r, st')" "emitted_events r \<noteq> []"
    using create_settle_done [where sha = no_hash and en = ?en, OF sample_settle_facts(1-3), unfolded sample_settle_facts(4), OF f] u
    by (auto simp: sample_settle_facts)
  have "available_balance ?a 5 = 30"
    by (simp add: sample_settle_facts available_balance_def active_hold_total_sum fm_sum_upd_fresh hold_weight_def account_new_def)
  with settle_ends_reservation [OF c, of "''r''"] c show ?thesis
    by (auto simp: sample_settle_facts sample_env_def)
qed

subsection \<open>Creates do not write events to the store\<close>

lemma mem_bump_events: "be_bump_bucket_epoch (mem_backend sha) s b n = (r, s') \<Longrightarrow> ms_events s' = ms_events s"
  by (auto simp: mem_backend_def mem_bump_bucket_epoch_def Let_def split: option.splits if_splits)

lemma mem_allocate_events:
  assumes "allocate (mem_backend sha) n m s b = (r, m', s')"
  shows "ms_events s' = ms_events s"
proof -
  obtain a m1 s1 where o: "open_allocator (mem_backend sha) n m s b = (a, m1, s1)" by (metis prod_cases3)
  have 1: "ms_events s1 = ms_events s"
    using o by (auto simp: open_allocator_def Let_def dest: mem_bump_events split: option.splits prod.splits)
  show ?thesis
  proof (cases a)
    case None
    with assms o 1 show ?thesis by (simp add: allocate_def)
  next
    case (Some x)
    obtain a2 m2 s2 where l: "lazy_bump (mem_backend sha) n m1 s1 b x = (a2, m2, s2)" by (metis prod_cases3)
    have "ms_events s2 = ms_events s1"
      using l by (auto simp: lazy_bump_def Let_def dest: mem_bump_events split: option.splits prod.splits if_splits)
    with assms o l Some 1 show ?thesis by (cases a2) (auto simp: allocate_def)
  qed
qed

lemma mem_allocate_in_events:
  "allocate_in (mem_backend sha) b st = (r, st') \<Longrightarrow> ms_events (storage st') = ms_events (storage st)"
  by (cases "allocate (mem_backend sha) (node_id st) (bucket_allocators st) (storage st) b")
    (auto simp: allocate_in_def dest: mem_allocate_events)

lemma mem_allocate_or_fail_events:
  "allocate_or_fail (mem_backend sha) b x y st = (r, st') \<Longrightarrow> ms_events (storage st') = ms_events (storage st)"
  by (auto simp: allocate_or_fail_def dest: mem_allocate_in_events split: prod.splits option.splits)

lemma mem_advance_events [simp]: "ms_events (storage (advance_head (mem_backend sha) sha' ek q st)) = ms_events (storage st)"
  by (simp add: advance_head_def Let_def drain_pending_def update_digest_def prune_closed mem_backend_def mem_save_digest_def
      split: prod.splits option.splits)

lemma mem_flush_events [simp]: "ms_events (storage (flush_local_events (mem_backend sha) sha' es st)) = ms_events (storage st)"
proof -
  have "ms_events (storage (record_new_local_event (mem_backend sha) sha' e st)) = ms_events (storage st)" for e st
    by (simp add: record_new_local_event_def count_and_send_def update_origin_tracking_def) (simp add: store_event_buffer_def)
  then show ?thesis unfolding flush_local_events_def by (induction es arbitrary: st) simp_all
qed

lemma storage_cache_event [simp]: "storage (cache_event k e st) = storage st"
  by (simp add: cache_event_def)

lemma deleted_frames [simp]:
  "deleted_buckets (cache_event k e st) = deleted_buckets st" "deleted_buckets (with_account bk f st) = deleted_buckets st"
  by (simp_all add: cache_event_def with_account_def)

lemma reserve_frame:
  assumes "emit_reserve_locked (mem_backend sha) sha' en inp now st = (Done r, st')"
  shows "ms_events (storage st') = ms_events (storage st)" and "deleted_buckets st' = deleted_buckets st"
    and "idempotency_cache st' = fmupd (in_idempotency_nonce inp, in_bucket inp, in_account inp, 0) (primary_event r) (idempotency_cache st)"
proof -
  let ?a = "account_at st (in_balance_key inp)"
  obtain pos st1 where al: "allocate_or_fail (mem_backend sha) (in_bucket inp) (acct_balance ?a) (available_balance ?a now) st = (Inr pos, st1)"
    using assms by (auto simp: emit_reserve_locked_def Let_def split: prod.splits sum.splits if_splits)
  note fr = mem_allocate_or_fail_events [OF al] allocate_or_fail_frame [OF al]
  show "ms_events (storage st') = ms_events (storage st)" "deleted_buckets st' = deleted_buckets st"
    "idempotency_cache st' = fmupd (in_idempotency_nonce inp, in_bucket inp, in_account inp, 0) (primary_event r) (idempotency_cache st)"
    using assms al fr by (auto simp: emit_reserve_locked_def Let_def split: if_splits)
qed

definition sample_reserve :: local_create_input where
  "sample_reserve = (sample_request 0)\<lparr>in_hold_amount := Some 40, in_hold_expires_at_unix_ms := Some 1000\<rparr>"

definition sample_release :: "string \<Rightarrow> local_create_input" where
  "sample_release rid = (sample_request 0)\<lparr>in_idempotency_nonce := ''l'', in_release_reservation := Some rid\<rparr>"

lemma sample_reserve_facts:
  "from_input 5 sample_reserve = Inr Reserve" "in_balance_key sample_reserve = (''b'', ''a'')"
  "in_hold_amount sample_reserve = Some 40" "in_hold_expires_at_unix_ms sample_reserve = Some 1000"
  "admitted (mem_backend sha) sample_reserve (fresh_node n)" "\<not> available_balance account_new 5 - 40 <s in_floor sample_reserve"
  "from_input 6 (sample_release rid) = Inr (Release rid)" "in_balance_key (sample_release rid) = (''b'', ''a'')"
  by (simp_all add: sample_reserve_def sample_release_def sample_request_def legacy_def from_input_def explicit_hold_def
      in_balance_key_def in_floor_def admitted_def is_reserved_bucket_name_def META_BUCKET_def BILLING_BUCKET_PREFIX_def Let_def)

lemma sample_reserve_done:
  obtains r st1 where "create_local_events (mem_backend no_hash) no_hash (sample_env 5 ''e'') sample_reserve (fresh_node ''n'') = (Done r, st1)"
    "emitted_events r \<noteq> []" "store_good mem_inv st1" "admitted (mem_backend no_hash) (sample_release rid) st1"
proof -
  let ?en = "sample_env 5 ''e''" and ?st = "with_account (''b'', ''a'') id (fresh_node ''n'')"
  have cr: "create_local_events (mem_backend no_hash) no_hash ?en sample_reserve (fresh_node ''n'') =
      emit_reserve_locked (mem_backend no_hash) no_hash ?en sample_reserve 5 ?st"
    using create_admitted [OF sample_reserve_facts(5) [of no_hash "''n''"], of ?en Reserve no_hash]
    by (simp add: sample_reserve_facts sample_env_def emit_mode_def)
  have "\<exists>r st'. emit_reserve_locked (mem_backend no_hash) no_hash ?en sample_reserve 5 ?st = (Done r, st') \<and> emitted_events r \<noteq> []"
    by (rule mem_store.emit_reserve_total) (use sample_reserve_facts in \<open>simp_all add: fresh_node_good\<close>)
  then obtain r st1 where c: "emit_reserve_locked (mem_backend no_hash) no_hash ?en sample_reserve 5 ?st = (Done r, st1)" "emitted_events r \<noteq> []"
    by blast
  have g: "store_good mem_inv st1"
    using mem_store.create_good [OF fresh_node_good cr [unfolded c(1)]] by simp
  have "admitted (mem_backend no_hash) (sample_release rid) st1"
    using reserve_frame [OF c(1)]
    by (simp add: admitted_def sample_release_def sample_reserve_def sample_request_def legacy_def in_idem_key_def is_reserved_bucket_name_def
        META_BUCKET_def BILLING_BUCKET_PREFIX_def mem_backend_def mem_find_by_idempotency_key_def mem_new_def)
  with c g cr show thesis by (intro that) auto
qed

theorem reserve_release_roundtrip_witness:
  "\<exists>r st1 r2 st2. create_local_events (mem_backend no_hash) no_hash (sample_env 5 ''e'') sample_reserve (fresh_node ''n'') = (Done r, st1) \<and>
     create_local_events (mem_backend no_hash) no_hash (sample_env 6 ''f'') (sample_release (event_id (primary_event r))) st1 = (Done r2, st2) \<and>
     available_balance (account_at st1 (''b'', ''a'')) 7 = - 40 \<and> available_balance (account_at st2 (''b'', ''a'')) 7 = 0"
proof -
  let ?en = "sample_env 5 ''e''" and ?en2 = "sample_env 6 ''f''" and ?i = "env_id (sample_env 5 ''e'') 0"
  obtain r st1 where c: "create_local_events (mem_backend no_hash) no_hash ?en sample_reserve (fresh_node ''n'') = (Done r, st1)" "emitted_events r \<noteq> []"
    and g: "store_good mem_inv st1" "admitted (mem_backend no_hash) (sample_release ?i) st1"
    by (rule sample_reserve_done)
  have mode: "from_input (env_now ?en 0) sample_reserve = Inr Reserve" by (simp add: sample_env_def sample_reserve_facts)
  have fresh: "fmlookup (reservations (account_at (fresh_node ''n'') (in_balance_key sample_reserve))) ?i = None"
    "?i |\<notin>| released (account_at (fresh_node ''n'') (in_balance_key sample_reserve))" by (simp_all add: account_new_def)
  note ra = reserve_account [OF c mode sample_reserve_facts(3,4) refl fresh, unfolded sample_reserve_facts(2)]
  obtain res where "fmlookup (reservations (account_at st1 (''b'', ''a''))) ?i = Some res" "rs_expires_at_unix_ms res = 1000"
    using ra(4) by blast
  then have f: "find_reservation (account_at st1 (''b'', ''a'')) ?i (env_now ?en2 1) = Inr res"
    using ra(3) by (simp add: find_reservation_Inr sample_env_def account_new_def)
  have mode2: "from_input (env_now ?en2 0) (sample_release ?i) = Inr (Release ?i)"
    by (simp add: sample_env_def sample_reserve_facts)
  have "\<exists>r st'. emit_release_locked (mem_backend no_hash) no_hash ?en2 (sample_release ?i) ?i (env_now ?en2 1)
      (with_account (''b'', ''a'') id st1) = (Done r, st') \<and> emitted_events r \<noteq> []"
    by (rule mem_store.emit_release_total [where res = res]) (use g f in \<open>simp_all add: sample_reserve_facts\<close>)
  then obtain r2 st2 where c2: "create_local_events (mem_backend no_hash) no_hash ?en2 (sample_release ?i) st1 = (Done r2, st2)" "emitted_events r2 \<noteq> []"
    using create_admitted [OF g(2) mode2, of no_hash] by (auto simp: emit_mode_def sample_reserve_facts)
  from reserve_release_roundtrip [OF c mode sample_reserve_facts(3,4) fresh c2, of 7] mode2
  show ?thesis using c c2 by (auto simp: ra(1) sample_reserve_facts)
qed

end
