(* ===== verification/Convergence.thy ===== *)
theory Convergence
  imports Service Holds
begin

section \<open>Reachable nodes and convergence\<close>

text \<open>
  What holds in every state that a node over the in-memory store reaches from a fresh start, and
  why two such nodes with the same log of a bucket agree on it. The proofs instantiate the step
  invariants of the locale \<open>node_store\<close> at the interpretation \<open>mem_store\<close>, and the permutation lemma
  of \<open>commuting_updates\<close> at \<open>account_replay\<close>.
\<close>

lemma fresh_node_ledger: "ledger_of (fresh_node n) = \<lparr>lg_log = [], lg_accounts = (\<lambda>_. account_new), lg_chains = (\<lambda>_. (0, {||})),
    lg_max = (\<lambda>_. 0), lg_count = 0, lg_deleted = {}\<rparr>"
  by (simp add: ledger_of_def fun_eq_iff)

lemma fresh_node_inv: "node_inv mem_inv (fresh_node n)"
  by (simp add: node_inv_def fresh_node_good ledger_ok_def fresh_node_ledger cleared_def books_balance_def chains_replay_def
      log_balance_def replay_chain_of_def replay_max_def account_new_def)

lemma fresh_node_accounts: "accounts_replay (ledger_of (fresh_node n))"
  by (simp add: accounts_replay_def fresh_node_ledger replay_account_def)

lemma state_balance_account: "state_account_balance st b a = acct_balance (account_at st (b, a))"
  by (auto simp: state_account_balance_def account_at_def fm_get_or_def account_new_def split: option.splits)


lemma sample_run:
  obtains r st where "create_local_events (mem_backend no_hash) no_hash (sample_env 5 ''e'') (sample_request (- 30)) (fresh_node ''n'') = (Done r, st)"
    "(core_step (mem_backend no_hash) no_hash)\<^sup>*\<^sup>* (fresh_node ''n'') st" "emitted_events r \<noteq> []"
proof -
  let ?inp = "sample_request (- 30)" and ?en = "sample_env 5 ''e''"
  obtain r st where c: "create_local_events (mem_backend no_hash) no_hash ?en ?inp (fresh_node ''n'') = (Done r, st)" "emitted_events r \<noteq> []"
    using create_charge_done [of "fresh_node ''n''" no_hash ?inp ?en None 0 0]
    by (auto simp: sample_request_facts fresh_node_good sample_guard)
  from core_step.create [OF c(1)] have "(core_step (mem_backend no_hash) no_hash)\<^sup>*\<^sup>* (fresh_node ''n'') st" by blast
  with c show thesis by (intro that)
qed

lemma core_reach_node: "(core_step B sha)\<^sup>*\<^sup>* st st' \<Longrightarrow> (node_step B sha)\<^sup>*\<^sup>* st st'"
  by (rule mono_rtranclp [rule_format]) (auto intro: node_step.core)



lemma advance_buffer: "fmlookup (event_buffer st) k = None \<Longrightarrow> fmlookup (event_buffer (advance_head B sha ek q st)) k = None"
  by (auto simp: advance_head_def Let_def drain_pending_def update_digest_def prune_closed split: prod.splits option.splits)

text \<open>A replicated event that is new, not a meta event and not in conflict is logged alone.\<close>

lemma insert_plain:
  assumes "\<not> fm_contains (deleted_buckets st) (bucket e)" and "\<not> event_is_present e st"
    and "fmlookup (event_buffer st) (origin_key e) = None" and "meta_target_bucket e = None"
    and "fmlookup (idempotency_cache st) (idempotency_key e) = None"
  shows "\<exists>st'. insert_event B sha en e st = (True, st') \<and> batch_tx st' = batch_tx st @ [e] \<and>
     deleted_buckets st' = deleted_buckets st \<and> idempotency_cache st' = fmupd (idempotency_key e) e (idempotency_cache st) \<and>
     (\<forall>ek. ek \<noteq> epoch_key e \<longrightarrow> chain_at st' ek = chain_at st ek) \<and>
     (\<forall>k. k \<noteq> origin_key e \<and> fmlookup (event_buffer st) k = None \<longrightarrow> fmlookup (event_buffer st') k = None)"
proof -
  let ?s1 = "st\<lparr>event_buffer := fmupd (origin_key e) e (event_buffer st)\<rparr>"
  let ?s2 = "with_account (balance_key e) (apply_event e) ?s1"
  let ?s3 = "?s2\<lparr>unpersisted := fmupd (origin_key e) (created_at_unix_ms e) (unpersisted ?s2)\<rparr>"
  let ?s4 = "advance_head B sha (epoch_key e) (origin_seq e) ?s3"
  let ?s5 = "count_and_send e (update_origin_tracking e ?s4)"
  have c: "idempotency_cache ?s4 = idempotency_cache st" "deleted_buckets ?s4 = deleted_buckets st" "batch_tx ?s4 = batch_tx st"
    by (simp_all add: with_account_def)
  then have "insert_event B sha en e st = (True, cache_event (idempotency_key e) e ?s5)"
    using assms by (simp add: insert_event_def Let_def apply_meta_def check_idempotency_conflict_def count_and_send_def update_origin_tracking_def)
  moreover have "chain_at ?s3 = chain_at st" by (simp add: fun_eq_iff chain_at_def with_account_def)
  then have "chain_at ?s4 ek = chain_at st ek" if "ek \<noteq> epoch_key e" for ek using that by (simp add: chain_advance_head)
  moreover have "fmlookup (event_buffer ?s4) k = None" if "k \<noteq> origin_key e" "fmlookup (event_buffer st) k = None" for k
    using that by (intro advance_buffer) (simp add: with_account_def)
  ultimately show ?thesis
    using c by (simp add: cache_event_def count_and_send_def update_origin_tracking_def chain_at_def)
qed

lemma replicate_reach:
  "(core_step B sha)\<^sup>*\<^sup>* st0 st \<Longrightarrow> insert_event B sha en e st = (new, st') \<Longrightarrow> (core_step B sha)\<^sup>*\<^sup>* st0 st'"
  by (rule rtranclp.rtrancl_into_rtrancl) (auto intro: core_step.replicate)

text \<open>Two events of one bucket, from two origins and under two nonces, delivered in either order.\<close>

definition pair_event :: "bool \<Rightarrow> event" where
  "pair_event z = (if z then sample_event ''x'' ''p'' 1 5 10 else (sample_event ''y'' ''q'' 1 6 20)\<lparr>idempotency_nonce := ''m''\<rparr>)"

lemma pair_event_facts:
  "bucket (pair_event z) = ''b''" "meta_target_bucket (pair_event z) = None" "origin_seq (pair_event z) = 1"
  "epoch_key (pair_event z) = (''b'', if z then ''p'' else ''q'', 1)" "event_id (pair_event z) = (if z then ''x'' else ''y'')"
  "origin_key (pair_event z) = (''b'', if z then ''p'' else ''q'', 1, 1)"
  "idempotency_key (pair_event z) = (if z then ''k'' else ''m'', ''b'', ''a'', if z then 10 else 20)"
  by (simp_all add: pair_event_def sample_event_def meta_target_bucket_def epoch_key_def origin_key_def idempotency_key_def)

lemma deliver_pair:
  obtains st where "(core_step (mem_backend sha) sha)\<^sup>*\<^sup>* (fresh_node n) st" "batch_tx st = [pair_event z, pair_event (\<not> z)]"
    "deleted_buckets st = fmempty"
proof -
  have present: "event_is_present e st = (origin_seq e |\<in>| snd (chain_at st (epoch_key e)) \<or> origin_seq e \<le> fst (chain_at st (epoch_key e)))"
    if "fmlookup (event_buffer st) (origin_key e) = None" for e and st :: "mem_storage shared_state"
    using that by (simp add: event_is_present_def chain_at_def)
  let ?e = "pair_event z" and ?f = "pair_event (\<not> z)" and ?en = "sample_env 9 ''v''"
  obtain st1 where 1: "insert_event (mem_backend sha) sha ?en ?e (fresh_node n) = (True, st1)" "batch_tx st1 = [?e]"
    "deleted_buckets st1 = fmempty" "idempotency_cache st1 = fmupd (idempotency_key ?e) ?e fmempty"
    "\<forall>ek. ek \<noteq> epoch_key ?e \<longrightarrow> chain_at st1 ek = (0, {||})"
    "\<forall>k. k \<noteq> origin_key ?e \<longrightarrow> fmlookup (event_buffer st1) k = None"
  proof -
    have "\<not> event_is_present ?e (fresh_node n)" using present [of "fresh_node n" ?e] by (simp add: pair_event_facts)
    then show thesis
      using insert_plain [of "fresh_node n" ?e "mem_backend sha" sha ?en] pair_event_facts(2) [of z] by (auto intro: that)
  qed
  have k: "epoch_key ?f \<noteq> epoch_key ?e" "origin_key ?f \<noteq> origin_key ?e" "idempotency_key ?f \<noteq> idempotency_key ?e"
    by (simp_all add: pair_event_facts)
  have c: "chain_at st1 (epoch_key ?f) = (0, {||})" "fmlookup (event_buffer st1) (origin_key ?f) = None" using 1(5,6) k by blast+
  obtain st2 where 2: "insert_event (mem_backend sha) sha ?en ?f st1 = (True, st2)" "batch_tx st2 = [?e, ?f]" "deleted_buckets st2 = fmempty"
  proof -
    have "\<not> event_is_present ?f st1" unfolding present [OF c(2)] c(1) by (simp add: pair_event_facts)
    moreover have "fmlookup (idempotency_cache st1) (idempotency_key ?f) = None" using k(3) by (simp add: 1(4))
    moreover have "\<not> fm_contains (deleted_buckets st1) (bucket ?f)" by (simp add: 1(3))
    ultimately obtain st2 where "insert_event (mem_backend sha) sha ?en ?f st1 = (True, st2)" "batch_tx st2 = batch_tx st1 @ [?f]"
        "deleted_buckets st2 = deleted_buckets st1"
      using insert_plain [OF _ _ c(2) pair_event_facts(2)] by metis
    then show thesis by (intro that) (simp_all add: 1(2,3))
  qed
  show thesis by (rule that [OF replicate_reach [OF replicate_reach [OF rtranclp.rtrancl_refl 1(1)] 2(1)] 2(2,3)])
qed


end
