(* ===== verification/Delivery.thy ===== *)
theory Delivery
  imports Convergence
begin

section \<open>The log, delivery, conflicts and deletion\<close>

text \<open>
  The effect of each operation of a node on its log: creates and replicated events refine the
  abstract ledger, a second delivery changes nothing, conflicting duplicates are voided, and the
  deletion of a bucket is final.
\<close>

subsection \<open>The log\<close>

text \<open>The log only grows: along any run from a state that satisfies the invariant, what was logged stays, in
  its order, and a deleted bucket stays deleted.\<close>

theorem log_append_only:
  assumes "(node_step (mem_backend sha) sha)\<^sup>*\<^sup>* (fresh_node n) st" and "(node_step (mem_backend sha) sha)\<^sup>*\<^sup>* st st'"
  shows "prefix (batch_tx st) (batch_tx st') \<and> fmdom' (deleted_buckets st) \<subseteq> fmdom' (deleted_buckets st')"
  using mem_store.reachable_log [OF assms(2) mem_store.reachable_inv [OF assms(1) fresh_node_inv]] by (auto simp: prefix_def)

theorem log_append_only_witness:
  "\<exists>st. (node_step (mem_backend no_hash) no_hash)\<^sup>*\<^sup>* (fresh_node ''n'') st \<and> batch_tx st \<noteq> [] \<and>
     prefix (batch_tx (fresh_node ''n'')) (batch_tx st)"
proof -
  obtain st where st: "(core_step (mem_backend no_hash) no_hash)\<^sup>*\<^sup>* (fresh_node ''n'') st" "batch_tx st = [pair_event True, pair_event (\<not> True)]"
    by (rule deliver_pair)
  from log_append_only [OF rtranclp.rtrancl_refl core_reach_node [OF st(1)]] core_reach_node [OF st(1)] st(2) show ?thesis
    by (intro exI [of _ st]) simp
qed

subsection \<open>Refinement of the ledger by each operation\<close>

lemma create_hangs:
  assumes "create_local_events B sha en inp st = (Hangs, st')"
  shows "in_transfer_to inp = Some (in_account inp)"
proof -
  have t: "in_transfer_to inp = Some (in_account inp)" if "transfer_credit B en inp now s = (Hangs, s')" for now s s'
    using that by (auto simp: transfer_credit_def Let_def split: option.splits if_splits prod.splits sum.splits)
  have c: "in_transfer_to inp = Some (in_account inp)" if "emit_charge_locked B sha en inp ho now s = (Hangs, s')" for ho now s s'
    using that by (auto simp: emit_charge_locked_def Let_def dest: t split: option.splits prod.splits sum.splits outcome.splits)
  have n: "fst (emit_reserve_locked B sha en inp now s) \<noteq> Hangs" "fst (emit_release_locked B sha en inp rid now s) \<noteq> Hangs"
      "fst (emit_settle_locked B sha en inp rid now s) \<noteq> Hangs" for now s rid
    by (simp_all add: emit_reserve_locked_def emit_release_locked_def emit_settle_locked_def Let_def split: prod.splits sum.splits)
  obtain mode where mode: "from_input (env_now en 0) inp = Inr mode"
    using assms by (auto simp: create_local_events_def split: if_splits sum.splits)
  have "emit_mode B sha en inp mode (env_now en 1) (with_account (in_balance_key inp) id st) = (Hangs, st')"
    using assms mode by (auto simp: create_local_events_def Let_def split: if_splits option.splits list.splits)
  then show ?thesis using c n by (cases mode) (auto simp: emit_mode_def dest: arg_cong [of _ _ fst])
qed



text \<open>C5. A replicated event is either refused with the state untouched, or the ledger clears the bucket that a
  delete names and accepts the event, followed by this node's own corrections of the same account: none, or a void of
  the opposite amount and possibly a release.\<close>

theorem insert_refines_ledger:
  assumes "cache_ok st" and "insert_event B sha en e st = (new, st')"
  shows "if new
     then \<exists>cs. ledger_of st' = fold accept_event (e # cs) (clear_target e (ledger_of st)) \<and> (cs = [] \<or> sum_list (map amount cs) = - amount e) \<and>
       (\<forall>c\<in>set cs. etype c \<in> {Void, HoldRelease} \<and> balance_key c = balance_key e \<and> origin_node_id c = node_id st) \<and>
       \<not> fm_contains (deleted_buckets st) (bucket e) \<and> \<not> event_is_present e st
     else st' = st"
proof (cases new)
  case True
  have "insert_event B sha en e st = (True, st')" using assms(2) True by simp
  then obtain cs where "ledger_of st' = fold accept_event (e # cs) (clear_target e (ledger_of st))"
    "corrections_of st e cs" "cs = [] \<or> sum_list (map amount cs) = - amount e"
    "bucket e \<notin> lg_deleted (ledger_of st)" "\<not> event_is_present e st"
    using assms(1) by (rule insert_done_ledger)
  with True show ?thesis by (auto simp: corrections_of_def ledger_of_def fmlookup_dom'_iff)
next
  case False
  with assms(2) show ?thesis by (auto simp: insert_event_def Let_def split: if_splits)
qed

theorem insert_refines_ledger_witness:
  "\<exists>st' cs. insert_event (mem_backend no_hash) no_hash (sample_env 9 ''v'') (pair_event True) (fresh_node ''n'') = (True, st') \<and>
     ledger_of st' = fold accept_event (pair_event True # cs) (ledger_of (fresh_node ''n''))"
proof -
  let ?e = "pair_event True"
  have "\<not> event_is_present ?e (fresh_node ''n'')" by (simp add: event_is_present_def pair_event_facts)
  then obtain st' where i: "insert_event (mem_backend no_hash) no_hash (sample_env 9 ''v'') ?e (fresh_node ''n'') = (True, st')"
    using insert_plain [of "fresh_node ''n''" ?e "mem_backend no_hash" no_hash "sample_env 9 ''v''"] pair_event_facts(2) by auto
  have "cache_ok (fresh_node ''n'')" by (simp add: cache_ok_def)
  from insert_refines_ledger [OF this i] i show ?thesis by (auto simp: clear_target_def pair_event_facts)
qed

subsection \<open>Duplicate delivery\<close>

text \<open>An event that waits to be persisted stays in the buffer.\<close>

definition retained :: "origin_key \<Rightarrow> 's shared_state \<Rightarrow> bool" where
  "retained k st \<longleftrightarrow> fm_contains (event_buffer st) k \<and> fm_contains (unpersisted st) k"

lemma retained_advance: "retained k st \<Longrightarrow> retained k (advance_head B sha ek q st)"
  by (auto simp: retained_def advance_head_def Let_def drain_pending_def update_digest_def prune_closed split: prod.splits option.splits)

lemma retained_correction: "retained k st \<Longrightarrow> retained k (apply_correction_event B sha e st)"
proof -
  assume "retained k st"
  then have "retained k (with_account (balance_key e) (\<lambda>a. release_of e (count_event (amount e) a)) (store_event_buffer e st))"
    by (auto simp: retained_def with_account_def store_event_buffer_def)
  from retained_advance [OF this, of B sha "epoch_key e" "origin_seq e"] show ?thesis
    by (simp add: retained_def apply_correction_event_def Let_def update_origin_tracking_def cache_event_def)
qed

lemma retained_allocate_in: "retained k st \<Longrightarrow> allocate_in B b st = (r, st') \<Longrightarrow> retained k st'"
  by (cases "allocate B (node_id st) (bucket_allocators st) (storage st) b") (auto simp: retained_def allocate_in_def)

lemma retained_conflict: "retained k st \<Longrightarrow> retained k (check_idempotency_conflict B sha en e st)"
proof -
  have c: "retained k (cache_event i x s) = retained k s" for i x and s :: "'a shared_state" by (simp add: retained_def cache_event_def)
  have rel: "retained k (release_loser_hold B sha en w l s)" if "retained k s" for w l s
    using that by (auto simp: release_loser_hold_def intro!: retained_correction dest: retained_allocate_in split: prod.splits option.splits)
  have void: "retained k (void_loser B sha en w l s)" if "retained k s" for w l s
    using that by (auto simp: void_loser_def Let_def intro!: retained_correction rel dest: retained_allocate_in split: prod.splits option.splits)
  show "retained k st \<Longrightarrow> ?thesis"
    by (auto simp: check_idempotency_conflict_def c intro!: void split: option.splits prod.splits)
qed

lemma insert_retains:
  assumes "insert_event B sha en e st = (True, st')"
  shows "retained (origin_key e) st'"
proof -
  let ?s1 = "apply_meta B e (st\<lparr>event_buffer := fmupd (origin_key e) e (event_buffer st)\<rparr>)"
  let ?s2 = "with_account (balance_key e) (apply_event e) ?s1"
  let ?s3 = "?s2\<lparr>unpersisted := fmupd (origin_key e) (created_at_unix_ms e) (unpersisted ?s2)\<rparr>"
  let ?s5 = "count_and_send e (update_origin_tracking e (advance_head B sha (epoch_key e) (origin_seq e) ?s3))"
  have st': "st' = check_idempotency_conflict B sha en e ?s5"
    using assms by (auto simp: insert_event_def Let_def split: if_splits)
  have "fm_contains (event_buffer ?s1) (origin_key e)"
    by (auto simp: apply_meta_def apply_bucket_delete_cascade_def meta_target_bucket_def origin_key_def split: option.splits if_splits)
  then have "retained (origin_key e) ?s3" by (simp add: retained_def with_account_def)
  then have "retained (origin_key e) (advance_head B sha (epoch_key e) (origin_seq e) ?s3)" by (rule retained_advance)
  then have "retained (origin_key e) ?s5" by (simp add: retained_def count_and_send_def update_origin_tracking_def)
  then show ?thesis unfolding st' by (rule retained_conflict)
qed


subsection \<open>Conflicts\<close>

context node_store
begin

lemma void_loser_acts:
  assumes "store_good inv st"
    and "\<not> fm_contains (idempotency_cache st) (''void:'' @ event_id l, bucket l, account l, - amount l)"
    and "be_find_by_idempotency_key B (storage st) (''void:'' @ event_id l) (bucket l) (account l) (- amount l) = Some []"
  obtains v cs where "ledger_of (void_loser B sha en w l st) = fold accept_event (v # cs) (ledger_of st)"
    "etype v = Void" "amount v = - amount l" "void_ref v = Some (event_id l)" "balance_key v = balance_key l"
    "\<forall>c\<in>set cs. amount c = 0"
proof -
  obtain pos st1 where al: "allocate_in B (bucket l) st = (Some pos, st1)" using good_allocate_in [OF assms(1)] by metis
  let ?v = "void_event en (node_id st1) pos w l"
  let ?s = "apply_correction_event B sha ?v st1"
  have eq: "void_loser B sha en w l st = release_loser_hold B sha en w l ?s"
    using assms(2,3) al by (simp add: void_loser_def Let_def)
  obtain cs where cs: "ledger_of (release_loser_hold B sha en w l ?s) = fold accept_event cs (ledger_of ?s)"
    "\<forall>c\<in>set cs. amount c = 0" using release_loser_ledger by blast
  have "ledger_of ?s = accept_event ?v (ledger_of st)" using al by (simp add: ledger_correction event_frames)
  with cs show thesis by (intro that [of ?v cs]) (auto simp: eq event_frames balance_key_def)
qed

end

lemma cache_correction: "idempotency_cache (apply_correction_event B sha e st) = fmupd (idempotency_key e) e (idempotency_cache st)"
  by (simp add: apply_correction_event_def Let_def update_origin_tracking_def cache_event_def with_account_def store_event_buffer_def)

text \<open>The corrections cache only their own nonces.\<close>

lemma void_loser_cache:
  assumes "fmlookup (idempotency_cache st) k = Some x"
    and "\<not> fm_contains (idempotency_cache st) (''void:'' @ event_id l, bucket l, account l, - amount l)"
  shows "fmlookup (idempotency_cache (void_loser B sha en w l st)) k = Some x"
proof -
  have al: "idempotency_cache s' = idempotency_cache s" if "allocate_in B b s = (r, s')" for b s r s'
    using allocate_in_frame(1) [OF that] .
  have rel: "fmlookup (idempotency_cache (release_loser_hold B sha en w l s)) k = Some x" if "fmlookup (idempotency_cache s) k = Some x" for s
  proof (cases "has_hold l \<and> \<not> fm_contains (idempotency_cache s) (''release:'' @ event_id l, bucket l, account l, 0)")
    case True
    then have ne: "k \<noteq> (''release:'' @ event_id l, bucket l, account l, 0)" using that by auto
    show ?thesis
      using True that ne
      by (auto simp: release_loser_hold_def cache_correction idempotency_key_def event_frames dest!: al split: prod.splits option.splits)
  next
    case False
    with that show ?thesis by (auto simp: release_loser_hold_def)
  qed
  have ne: "k \<noteq> (''void:'' @ event_id l, bucket l, account l, - amount l)" using assms by auto
  show ?thesis
    using assms(1) ne
    by (auto simp: void_loser_def Let_def cache_correction idempotency_key_def event_frames dest!: al intro!: rel split: prod.splits option.splits)
qed

text \<open>C7. Conflicting duplicates charge once: when a replicated event carries the idempotency key of another event
  that the node has already counted, and the loser has not been voided yet, the node accepts it and voids the loser, so that the
  balance of the account stays what it was; the cache then holds the winner.\<close>

theorem conflict_charges_once:
  assumes "store_good mem_inv st" and "insert_event (mem_backend sha) sha en e st = (True, st')"
    and "fmlookup (idempotency_cache st) (idempotency_key e) = Some x" and "event_id x \<noteq> event_id e"
    and "idempotency_winner x e = (w, l)" and "etype e \<noteq> BucketDelete"
    and "\<not> fm_contains (idempotency_cache st) (''void:'' @ event_id l, bucket e, account e, - amount e)"
    and "mem_find_by_idempotency_key (storage st) (''void:'' @ event_id l) (bucket e) (account e) (- amount e) = []"
  shows "acct_balance (account_at st' (balance_key e)) = acct_balance (account_at st (balance_key e)) \<and>
     fmlookup (idempotency_cache st') (idempotency_key e) = Some w \<and>
     (\<exists>v\<in>set (batch_tx st'). etype v = Void \<and> void_ref v = Some (event_id l) \<and> amount v = - amount e)"
proof -
  let ?B = "mem_backend sha"
  let ?s2 = "with_account (balance_key e) (apply_event e) (st\<lparr>event_buffer := fmupd (origin_key e) e (event_buffer st)\<rparr>)"
  let ?s3 = "?s2\<lparr>unpersisted := fmupd (origin_key e) (created_at_unix_ms e) (unpersisted ?s2)\<rparr>"
  let ?s5 = "count_and_send e (update_origin_tracking e (advance_head ?B sha (epoch_key e) (origin_seq e) ?s3))"
  let ?c = "cache_event (idempotency_key e) w ?s5"
  have meta: "apply_meta ?B e s = s" for s using assms(6) by (simp add: apply_meta_def meta_target_bucket_def)
  have cache5: "idempotency_cache ?s5 = idempotency_cache st"
    by (simp add: count_and_send_def update_origin_tracking_def with_account_def)
  have st': "st' = void_loser ?B sha en w l ?c"
    using assms(2-5) cache5 by (auto simp: insert_event_def Let_def meta check_idempotency_conflict_def split: if_splits)
  have kx: "idempotency_key x = idempotency_key e" using assms(1,3) by (auto simp: store_good_def dest: cache_okD)
  have wl: "w \<in> {x, e}" "l \<in> {x, e}" using assms(5) by (auto simp: idempotency_winner_cases split: if_splits)
  then have l: "bucket l = bucket e" "account l = account e" "amount l = amount e" and kw: "idempotency_key w = idempotency_key e"
    using kx by (auto simp: idempotency_key_def)
  have ne: "idempotency_key e \<noteq> (''void:'' @ event_id l, bucket e, account e, - amount e)" using assms(3,7) by auto
  have g3: "store_good mem_inv ?s3" using assms(1) by simp
  have g: "store_good mem_inv ?c"
    using mem_store.good_advance_head [OF g3] kw by (intro store_good_cache) simp_all
  have nv: "\<not> fm_contains (idempotency_cache ?c) (''void:'' @ event_id l, bucket l, account l, - amount l)"
    using assms(7) ne by (simp add: cache5 l)
  have "ms_events (storage ?c) = ms_events (storage st)"
    by (simp add: count_and_send_def update_origin_tracking_def)
  then have f: "be_find_by_idempotency_key ?B (storage ?c) (''void:'' @ event_id l) (bucket l) (account l) (- amount l) = Some []"
    using assms(8) by (simp add: mem_backend_def mem_find_by_idempotency_key_def l)
  obtain v cs where v: "ledger_of st' = fold accept_event (v # cs) (ledger_of ?c)" "etype v = Void" "amount v = - amount l"
    "void_ref v = Some (event_id l)" "balance_key v = balance_key l" "\<forall>c\<in>set cs. amount c = 0"
    unfolding st' by (rule mem_store.void_loser_acts [OF g nv f])
  have s2: "ledger_of ?s2 = apply_to_account e (ledger_of (st\<lparr>event_buffer := fmupd (origin_key e) e (event_buffer st)\<rparr>))"
    by (rule ledger_apply) simp_all
  have frames: "ledger_of (s\<lparr>event_buffer := m\<rparr>) = ledger_of s" "ledger_of (s\<lparr>unpersisted := u\<rparr>) = ledger_of s" for m u and s :: "mem_storage shared_state"
    by (simp_all add: ledger_of_def account_at_def [abs_def] chain_at_def [abs_def])
  have l5: "ledger_of ?c = accept_event e (ledger_of st)"
    by (simp only: ledger_cache ledger_advance_send frames s2 accept_event_def)
  have "sum_list (map amount (filter P cs)) = 0" for P using v(6) by (induction cs) auto
  moreover have l': "ledger_of st' = fold accept_event (e # v # cs) (ledger_of st)" using v(1) unfolding l5 by simp
  moreover have "balance_key v = balance_key e" "amount v = - amount e" using v(3,5) l by (simp_all add: balance_key_def)
  ultimately have "acct_balance (lg_accounts (ledger_of st') (balance_key e)) = acct_balance (lg_accounts (ledger_of st) (balance_key e))"
    unfolding l' fold_accept_account fold_apply_balance by simp
  then have "acct_balance (account_at st' (balance_key e)) = acct_balance (account_at st (balance_key e))" by (simp add: ledger_of_def)
  moreover have "fmlookup (idempotency_cache st') (idempotency_key e) = Some w"
    unfolding st' by (rule void_loser_cache) (use nv in simp_all)
  moreover have "v \<in> set (batch_tx st')" using arg_cong [OF l', of lg_log] by (simp only: fold_accept_log lg_log_of) simp
  ultimately show ?thesis using v l by auto
qed

definition rival_event :: "bool \<Rightarrow> event" where
  "rival_event z = (if z then sample_event ''x'' ''p'' 1 5 10 else sample_event ''y'' ''q'' 1 6 10)"

lemma rival_event_facts:
  "bucket (rival_event z) = ''b''" "account (rival_event z) = ''a''" "amount (rival_event z) = 10" "etype (rival_event z) = Standard"
  "meta_target_bucket (rival_event z) = None" "origin_seq (rival_event z) = 1"
  "epoch_key (rival_event z) = (''b'', if z then ''p'' else ''q'', 1)" "event_id (rival_event z) = (if z then ''x'' else ''y'')"
  "origin_key (rival_event z) = (''b'', if z then ''p'' else ''q'', 1, 1)" "idempotency_key (rival_event z) = (''k'', ''b'', ''a'', 10)"
  "idempotency_winner (rival_event True) (rival_event False) = (rival_event True, rival_event False)"
  by (simp_all add: rival_event_def sample_event_def meta_target_bucket_def epoch_key_def origin_key_def idempotency_key_def
      idempotency_winner_def)

theorem conflict_charges_once_witness:
  "\<exists>st st'. insert_event (mem_backend no_hash) no_hash (sample_env 9 ''v'') (rival_event True) (fresh_node ''n'') = (True, st) \<and>
     insert_event (mem_backend no_hash) no_hash (sample_env 9 ''v'') (rival_event False) st = (True, st') \<and>
     acct_balance (account_at st' (''b'', ''a'')) = acct_balance (account_at st (''b'', ''a''))"
proof -
  let ?B = "mem_backend no_hash" and ?en = "sample_env 9 ''v''" and ?e = "rival_event True" and ?f = "rival_event False"
  have p0: "\<not> event_is_present ?e (fresh_node ''n'')" by (simp add: event_is_present_def rival_event_facts)
  obtain st where 1: "insert_event ?B no_hash ?en ?e (fresh_node ''n'') = (True, st)" "deleted_buckets st = fmempty"
    "idempotency_cache st = fmupd (''k'', ''b'', ''a'', 10) ?e fmempty"
    "\<forall>ek. ek \<noteq> epoch_key ?e \<longrightarrow> chain_at st ek = (0, {||})" "\<forall>k. k \<noteq> origin_key ?e \<longrightarrow> fmlookup (event_buffer st) k = None"
    using insert_plain [of "fresh_node ''n''" ?e ?B no_hash ?en] p0 rival_event_facts(5,10) by auto
  have c: "chain_at st (epoch_key ?f) = (0, {||})" "fmlookup (event_buffer st) (origin_key ?f) = None"
    using 1(4,5) by (simp_all add: rival_event_facts)
  then have p: "\<not> event_is_present ?f st" by (simp add: event_is_present_def chain_at_def rival_event_facts)
  obtain st' where 2: "insert_event ?B no_hash ?en ?f st = (True, st')"
    using p c(2) 1(2) by (simp add: insert_event_def Let_def)
  have g: "store_good mem_inv st" by (rule mem_store.good_insert [OF fresh_node_good 1(1)])
  have "ms_events (storage st) = fmempty"
    using 1(1) p0 by (auto simp: insert_event_def Let_def apply_meta_def rival_event_facts check_idempotency_conflict_def
        count_and_send_def update_origin_tracking_def mem_new_def)
  then have "mem_find_by_idempotency_key (storage st) (''void:'' @ event_id ?f) (bucket ?f) (account ?f) (- amount ?f) = []"
    by (simp add: mem_find_by_idempotency_key_def)
  then have "acct_balance (account_at st' (balance_key ?f)) = acct_balance (account_at st (balance_key ?f))"
    using conflict_charges_once [OF g 2, of ?e ?e ?f] 1(3) by (simp add: rival_event_facts)
  then have "acct_balance (account_at st' (''b'', ''a'')) = acct_balance (account_at st (''b'', ''a''))"
    by (simp add: balance_key_def rival_event_facts)
  with 1(1) 2 show ?thesis by blast
qed

subsection \<open>Deletion\<close>


lemma delete_total:
  assumes "store_good mem_inv st" and "\<not> is_reserved_bucket_name target" and "\<not> fm_contains (deleted_buckets st) target"
  obtains d st' where "create_meta_bucket_delete (mem_backend sha) sha en target reason st = (Inr d, st')"
proof -
  obtain pos st1 where al: "allocate_in (mem_backend sha) META_BUCKET st = (Some pos, st1)"
    using mem_store.good_allocate_in [OF assms(1)] by metis
  have "target \<noteq> META_BUCKET" using assms(2) by auto
  with al assms(2,3) that show thesis by (simp add: create_meta_bucket_delete_def Let_def)
qed


end
