(* ===== verification/Durability.thy ===== *)
theory Durability
  imports Delivery
begin

section \<open>Durability: flushing and rebuilding\<close>

text \<open>
  What survives in the store and what a restart makes of it: the constructor rebuilds the books from
  the stored events, and the batch writer and the orphan detector write every event they are given.
\<close>

subsection \<open>What the rebuild keeps of the store\<close>

lemma rebuild_balances_at:
  assumes "be_aggregate_balances B (storage st) = Some rows" and "accounts st = fmempty"
    and "\<And>b a t. (b, a, t) \<in> set rows \<longleftrightarrow> P (b, a) \<and> t = f (b, a)"
  shows "acct_balance (account_at (rebuild_balances B st) k) = (if P k then f k else 0)"
proof -
  let ?step = "\<lambda>(b, a, total_amt). fmupd (b, a) (account_new\<lparr>acct_balance := total_amt\<rparr>)"
  have "fm_get_or (fold ?step rs m) k account_new =
      (if \<exists>b a t. (b, a, t) \<in> set rs \<and> k = (b, a) then account_new\<lparr>acct_balance := f k\<rparr> else fm_get_or m k account_new)"
    if "\<And>b a t. (b, a, t) \<in> set rs \<Longrightarrow> t = f (b, a)" for rs m
    using that
  proof (induction rs arbitrary: m)
    case (Cons r rs)
    obtain b a t where r: "r = (b, a, t)" by (metis prod_cases3)
    have "t = f (b, a)" using Cons.prems [of b a t] r by simp
    moreover have "fm_get_or (fold ?step rs (fmupd (b, a) (account_new\<lparr>acct_balance := t\<rparr>) m)) k account_new =
        (if \<exists>b a t. (b, a, t) \<in> set rs \<and> k = (b, a) then account_new\<lparr>acct_balance := f k\<rparr>
         else fm_get_or (fmupd (b, a) (account_new\<lparr>acct_balance := t\<rparr>) m) k account_new)"
      by (rule Cons.IH) (use Cons.prems in simp)
    ultimately show ?case by (cases "k = (b, a)") (auto simp: r)
  qed simp
  from this [of rows fmempty] assms show ?thesis
    by (cases k) (auto simp: rebuild_balances_def account_at_def account_new_def)
qed


lemma chain_rebuild_chain:
  assumes "snd (chain_at st ek) = {||}"
  shows "chain_at (rebuild_chain (ek, qs) st) ek' = (if ek' = ek then rebuilt_chain qs else chain_at st ek')"
  using assms by (auto simp: rebuild_chain_def Let_def chain_at_def rebuilt_chain_def)

lemma chain_fold_rebuild:
  assumes "distinct (map fst cs)" and "\<And>ek qs. (ek, qs) \<in> set cs \<Longrightarrow> snd (chain_at st ek) = {||}"
  shows "chain_at (fold rebuild_chain cs st) ek = (case map_of cs ek of Some qs \<Rightarrow> rebuilt_chain qs | None \<Rightarrow> chain_at st ek)"
  using assms
proof (induction cs arbitrary: st)
  case (Cons c cs)
  obtain e qs where c: "c = (e, qs)" by (cases c)
  have ch: "chain_at (rebuild_chain c st) ek' = (if ek' = e then rebuilt_chain qs else chain_at st ek')" for ek'
    unfolding c by (rule chain_rebuild_chain) (use Cons.prems(2) [of e qs] c in simp)
  have "chain_at (fold rebuild_chain cs (rebuild_chain c st)) ek =
      (case map_of cs ek of Some qs \<Rightarrow> rebuilt_chain qs | None \<Rightarrow> chain_at (rebuild_chain c st) ek)"
  proof (rule Cons.IH)
    show "distinct (map fst cs)" using Cons.prems(1) by simp
    show "snd (chain_at (rebuild_chain c st) k) = {||}" if "(k, p) \<in> set cs" for k p
    proof -
      have "k \<noteq> e" using Cons.prems(1) that c by force
      with Cons.prems(2) [of k p] that show ?thesis by (simp add: ch)
    qed
  qed
  moreover have "map_of cs e = None" using Cons.prems(1) c by (auto simp: map_of_eq_None_iff)
  ultimately show ?case using ch [of ek] by (auto simp: c split: option.splits if_splits)
qed simp

lemma map_of_fm_entries [simp]: "map_of (fm_entries m) = fmlookup m"
proof
  fix k show "map_of (fm_entries m) k = fmlookup m k"
    by (cases "fmlookup m k") (auto simp: map_of_eq_None_iff fmlookup_dom'_iff intro!: map_of_is_SomeI)
qed

lemma chain_rebuild_heads:
  assumes "be_sequences_by_origin_epoch B (storage st) = Some m" and "heads st = fmempty" and "pending_seqs st = fmempty"
  shows "chain_at (rebuild_heads B st) ek = (case fmlookup m ek of Some qs \<Rightarrow> rebuilt_chain qs | None \<Rightarrow> (0, {||}))"
  using chain_fold_rebuild [of "fm_entries m" st ek] assms
  by (simp add: rebuild_heads_def chain_at_def split: option.splits)

text \<open>The later blocks of the constructor touch neither a balance nor a chain.\<close>

definition same_books :: "'s shared_state \<Rightarrow> 's shared_state \<Rightarrow> bool" where
  "same_books st st' \<longleftrightarrow> (\<forall>k. acct_balance (account_at st' k) = acct_balance (account_at st k)) \<and> (\<forall>ek. chain_at st' ek = chain_at st ek)"

lemma same_books_trans: "same_books a b \<Longrightarrow> same_books b c \<Longrightarrow> same_books a c"
  by (simp add: same_books_def)

lemma same_books_refl [simp]: "same_books a a"
  by (simp add: same_books_def)

lemma same_books_fold: "(\<And>x st. same_books st (f x st)) \<Longrightarrow> same_books st (fold f xs st)"
  by (induction xs arbitrary: st) (auto intro: same_books_trans)

lemma same_books_frame:
  "accounts st' = accounts st \<Longrightarrow> heads st' = heads st \<Longrightarrow> pending_seqs st' = pending_seqs st \<Longrightarrow> same_books st st'"
  by (simp add: same_books_def account_at_def chain_at_def)

lemma same_books_account_event: "same_books st (rebuild_account_event now e st)"
  by (auto simp: same_books_def rebuild_account_event_def with_account_def account_at_def chain_at_def release_of_def
      track_reservation_def apply_release_def split: option.splits)

lemma same_books_rebuild_events: "same_books st (rebuild_events B sha now st)"
proof (cases "be_query_all_events_sorted B (storage st)")
  case None
  then show ?thesis by (simp add: rebuild_events_def)
next
  case (Some es)
  let ?s1 = "fold (rebuild_account_event now) es st"
  let ?s2 = "rebuild_idempotency es ?s1"
  have 1: "same_books st ?s1" by (rule same_books_fold) (rule same_books_account_event)
  have 2: "same_books ?s1 ?s2" by (rule same_books_frame) (simp_all add: rebuild_idempotency_def)
  have save: "same_books s (save_rebuilt_digest B c s)" for c s
    by (rule same_books_frame) (simp_all add: save_rebuilt_digest_def split: prod.splits)
  obtain buf computed where f: "fold (rebuild_digest_event sha (heads ?s2)) (sort_key origin_key es) (event_buffer ?s2, fmempty) = (buf, computed)"
    by force
  have "same_books ?s2 (?s2\<lparr>event_buffer := buf\<rparr>)" by (rule same_books_frame) simp_all
  moreover have "same_books (?s2\<lparr>event_buffer := buf\<rparr>) (fold (save_rebuilt_digest B) (fm_entries computed) (?s2\<lparr>event_buffer := buf\<rparr>))"
    by (rule same_books_fold) (rule save)
  ultimately have 3: "same_books ?s2 (rebuild_digests B sha es ?s2)"
    by (simp add: rebuild_digests_def f) (rule same_books_trans)
  show ?thesis
    using same_books_trans [OF same_books_trans [OF 1 2] 3] by (simp add: rebuild_events_def Some)
qed

lemma same_books_rebuild_origins: "same_books st (rebuild_origins B st)"
  by (cases "be_origin_account_epoch_mapping B (storage st)") (auto simp: rebuild_origins_def intro: same_books_frame)

lemma same_books_rebuild_deleted: "same_books st (rebuild_deleted B st)"
  by (cases "be_query_events_by_bucket B (storage st) META_BUCKET") (auto simp: rebuild_deleted_def intro: same_books_frame)

lemma heads_frame_accounts: "accounts (fold rebuild_chain cs st) = accounts st"
proof (induction cs arbitrary: st)
  case (Cons c cs)
  have "accounts (rebuild_chain c st) = accounts st" by (cases c) (simp add: rebuild_chain_def Let_def)
  with Cons show ?case by simp
qed simp

text \<open>C10. A restart reproduces the books: over a sound in-memory store, the constructor gives every account the sum of the stored
  amounts, and every chain a head and a pending set that stand for exactly the stored sequence numbers, with the head at the end of
  their first run.\<close>

theorem restart_reproduces_books:
  assumes "mem_inv s"
  shows "(let st = shared_state_new (mem_backend sha) sha now n ad s btx ctx hc in
     (\<forall>b a. state_account_balance st b a = sum_list (map amount (filter (\<lambda>e. balance_key e = (b, a)) (fm_values (ms_events s))))) \<and>
     (\<forall>ek. chain_ok (chain_at st ek) \<and> seen_seqs (chain_at st ek) = {q. q \<noteq> 0 \<and> fm_contains (ms_events s) (mk_origin_key ek q)}))"
proof -
  let ?B = "mem_backend sha"
  define s1 where "s1 = rebuild_allocators ?B (empty_state n ad s btx ctx hc)"
  define s2 where "s2 = rebuild_balances ?B s1"
  define s3 where "s3 = rebuild_heads ?B s2"
  define st where "st = shared_state_new ?B sha now n ad s btx ctx hc"
  let ?sum = "\<lambda>k. sum_list (map amount (filter (\<lambda>e. balance_key e = k) (fm_values (ms_events s))))"
  let ?P = "\<lambda>k. \<exists>e. (\<exists>j. fmlookup (ms_events s) j = Some e) \<and> balance_key e = k"
  have ev: "ms_events (storage s1) = ms_events s" and e1: "accounts s1 = fmempty" "heads s1 = fmempty" "pending_seqs s1 = fmempty"
    by (auto simp: s1_def rebuild_allocators_def load_from_storage_def empty_state_def mem_backend_def
        mem_mark_bucket_allocators_pending_def split: prod.splits)
  have bal: "acct_balance (account_at s2 k) = (if ?P k then ?sum k else 0)" for k
    unfolding s2_def
    by (rule rebuild_balances_at [OF _ e1(1)])
      (simp add: mem_backend_def, use mem_aggregate_balances_spec [of _ _ _ "storage s1"] ev in \<open>simp del: split_paired_Ex\<close>)
  have zero: "?sum k = 0" if "\<not> ?P k" for k
  proof -
    have "filter (\<lambda>e. balance_key e = k) (fm_values (ms_events s)) = []"
      using that by (simp only: filter_empty_conv Ball_def in_fm_values) blast
    then show ?thesis by simp
  qed
  have b2: "acct_balance (account_at s2 k) = ?sum k" for k
  proof (cases "?P k")
    case True
    then show ?thesis by (simp only: bal if_True)
  next
    case False
    then show ?thesis by (simp only: bal if_False zero [OF False])
  qed
  have e2: "storage s2 = storage s1" "heads s2 = fmempty" "pending_seqs s2 = fmempty"
    using e1 by (simp_all add: s2_def rebuild_balances_def mem_backend_def)
  have c3: "chain_at s3 ek = (case fmlookup (mem_sequences_by_origin_epoch (storage s1)) ek of Some qs \<Rightarrow> rebuilt_chain qs | None \<Rightarrow> (0, {||}))" for ek
    unfolding s3_def by (rule chain_rebuild_heads) (simp_all add: e2 mem_backend_def)
  have b3: "acct_balance (account_at s3 k) = ?sum k" for k
    using b2 [of k] by (simp add: s3_def rebuild_heads_def mem_backend_def account_at_def heads_frame_accounts)
  have "same_books s3 st"
    unfolding st_def shared_state_new_def s1_def [symmetric] s2_def [symmetric] s3_def [symmetric]
    by (intro same_books_trans [OF same_books_trans [OF same_books_rebuild_origins same_books_rebuild_events] same_books_rebuild_deleted])
  then have books: "acct_balance (account_at st k) = ?sum k" "chain_at st ek = chain_at s3 ek" for k ek
    using b3 unfolding same_books_def by metis+
  have "chain_ok (chain_at s3 ek) \<and> seen_seqs (chain_at s3 ek) = {q. q \<noteq> 0 \<and> fm_contains (ms_events s) (mk_origin_key ek q)}" for ek
  proof (cases "fmlookup (mem_sequences_by_origin_epoch (storage s1)) ek")
    case (Some qs)
    with rebuilt_chain_spec [OF mem_sequences_spec(1) [OF Some]] mem_sequences_spec(2) [OF Some] ev show ?thesis
      by (auto simp: c3 fmlookup_dom'_iff)
  next
    case None
    have "ek \<notin> fmdom' (mem_sequences_by_origin_epoch (storage s1))" using None by (simp add: fmlookup_dom'_iff)
    then have "mk_origin_key ek q \<notin> fmdom' (ms_events s)" for q
      using ev by (force simp: mem_sequences_by_origin_epoch_def dom_fold_push_to)
    with None show ?thesis by (simp add: c3 fmlookup_dom'_iff)
  qed
  with books show ?thesis by (simp add: Let_def st_def [symmetric] state_balance_account)
qed

lemma fm_values_single: "fm_values (fmupd k v fmempty) = [v]"
  by (simp add: fm_values_def fm_entries_upd_fresh)

theorem restart_reproduces_books_witness:
  "state_account_balance (shared_state_new (mem_backend no_hash) no_hash 5 ''n'' [] (snd (mem_insert_event mem_new (sample_event ''x'' ''o'' 1 5 10)))
     [] [] \<lparr>hc_multiplier = 0, hc_duration_ms = 0\<rparr>) ''b'' ''a'' = 10"
proof -
  let ?e = "sample_event ''x'' ''o'' 1 5 10"
  have k: "balance_key ?e = (''b'', ''a'')" "amount ?e = 10" by (simp_all add: balance_key_def sample_event_def)
  show ?thesis
    unfolding sample_store(1) snd_conv
    using restart_reproduces_books [OF sample_store(2) [of ?e], where sha = no_hash and now = 5 and n = "''n''" and ad = "[]" and btx = "[]"
        and ctx = "[]" and hc = "\<lparr>hc_multiplier = 0, hc_duration_ms = 0\<rparr>"]
    by (simp add: Let_def fm_values_single k)
qed

subsection \<open>Flushing\<close>

text \<open>No two different events among those to write and those stored share a position or an id.\<close>

definition writable :: "mem_storage \<Rightarrow> event list \<Rightarrow> bool" where
  "writable s es \<longleftrightarrow> (\<forall>e\<in>set es. \<forall>x. x \<in> set es \<or> (\<exists>k. fmlookup (ms_events s) k = Some x) \<longrightarrow>
     origin_key x = origin_key e \<or> event_id x = event_id e \<longrightarrow> x = e)"

lemma insert_writable:
  assumes "mem_inv s" and "writable s (e # es)" and "mem_insert_event s e = (r, s')"
  shows "fmlookup (ms_events s') (origin_key e) = Some e" and "mem_inv s'" and "writable s' es"
proof -
  have ok: "mem_index_ok s" using assms(1) by (simp add: mem_inv_def)
  show inv': "mem_inv s'" by (rule mem_insert_event_inv [OF assms(1,3)])
  have same: "x = e" if "fmlookup (ms_events s) k = Some x" "origin_key x = origin_key e \<or> event_id x = event_id e" for x k
    using assms(2) that unfolding writable_def by (metis list.set_intros(1))
  have fresh: "fmlookup (ms_event_ids s) (event_id e) \<in> {None, Some (origin_key e)}"
  proof (cases "fmlookup (ms_event_ids s) (event_id e)")
    case (Some k)
    from mem_index_event [OF ok Some] obtain x where x: "fmlookup (ms_events s) k = Some x" "event_id x = event_id e" by blast
    with same [OF x(1)] mem_index_key [OF ok x(1)] Some show ?thesis by simp
  qed simp
  show stored: "fmlookup (ms_events s') (origin_key e) = Some e"
  proof (cases "fmlookup (ms_events s) (origin_key e)")
    case None
    with assms(3) fresh show ?thesis by (auto simp: mem_insert_event_def Let_def)
  next
    case (Some x)
    with same [OF Some] mem_index_key [OF ok Some] have "x = e" by simp
    with Some mem_insert_event_append_only [OF assms(3)] show ?thesis by simp
  qed
  have "ms_events s' = ms_events s \<or> ms_events s' = fmupd (origin_key e) e (ms_events s)"
    using assms(3) by (rule mem_insert_event_cases) auto
  then have old: "x = e \<or> (\<exists>k. fmlookup (ms_events s) k = Some x)" if "fmlookup (ms_events s') k = Some x" for k x
    using that by (auto split: if_splits simp del: split_paired_Ex split_paired_All)
  show "writable s' es"
    unfolding writable_def
  proof (intro ballI allI impI)
    fix f x assume f: "f \<in> set es" and x: "x \<in> set es \<or> (\<exists>k. fmlookup (ms_events s') k = Some x)"
      and c: "origin_key x = origin_key f \<or> event_id x = event_id f"
    have "x \<in> set (e # es) \<or> (\<exists>k. fmlookup (ms_events s) k = Some x)" using x old by (metis list.set_intros(1,2))
    then show "x = f" using assms(2) f c unfolding writable_def by (metis list.set_intros(2))
  qed
qed

lemma bulk_stores:
  assumes "mem_inv s" and "writable s es" and "mem_insert_events_bulk s es = (n, s')"
  shows "\<forall>e\<in>set es. fmlookup (ms_events s') (origin_key e) = Some e"
  using assms
proof (induction es arbitrary: s n)
  case (Cons e es)
  obtain r s1 where i: "mem_insert_event s e = (r, s1)" by force
  obtain n1 where b: "mem_insert_events_bulk s1 es = (n1, s')" using Cons.prems(3) i by (auto split: prod.splits)
  note iw = insert_writable [OF Cons.prems(1,2) i]
  from Cons.IH [OF iw(2,3) b] mem_insert_events_bulk_append_only [OF b iw(1)] show ?case by simp
qed simp

lemma unpersisted_mark: "fmlookup (unpersisted (mark_persisted ks st)) k = (if k \<in> set ks then None else fmlookup (unpersisted st) k)"
proof -
  have "unpersisted (mark_persisted_one j s) = fmdrop j (unpersisted s)" for j and s :: "'a shared_state"
    by (simp add: mark_persisted_one_def Let_def)
  then show ?thesis unfolding mark_persisted_def by (induction ks arbitrary: st) auto
qed

text \<open>The write that both background tasks make: bulk insert, then mark as persisted.\<close>

lemma persist_batch:
  assumes "mem_inv (storage st)" and "writable (storage st) es"
    and "be_insert_events_bulk (mem_backend sha) (storage st) es = (Some c, s')"
    and "st' = mark_persisted (map origin_key es) (st\<lparr>storage := s'\<rparr>)"
  shows "(\<forall>e\<in>set es. fmlookup (ms_events (storage st')) (origin_key e) = Some e \<and> fmlookup (unpersisted st') (origin_key e) = None) \<and>
     (\<forall>k x. fmlookup (ms_events (storage st)) k = Some x \<longrightarrow> fmlookup (ms_events (storage st')) k = Some x) \<and>
     (\<forall>k. k \<notin> origin_key ` set es \<longrightarrow> fmlookup (unpersisted st') k = fmlookup (unpersisted st) k) \<and>
     ledger_of st' = ledger_of st"
proof -
  obtain n where b: "mem_insert_events_bulk (storage st) es = (n, s')"
    using assms(3) by (auto simp: mem_backend_def split: prod.splits)
  show ?thesis
    using bulk_stores [OF assms(1,2) b] mem_insert_events_bulk_append_only [OF b]
    by (simp add: assms(4) unpersisted_mark del: split_paired_All)
qed





end
