(* ===== verification/Service_Guarantees.thy ===== *)
theory Service_Guarantees
  imports Delivery
begin

text \<open>
  What the RPC handlers of theory \<open>Service\<close> promise to a client: phase gating, the answers to a create,
  and the request metrics around a turn of the RPC task.
\<close>

section \<open>Properties of the service\<close>

text \<open>C30. Writes are gated by the phase: before the node is ready and once it is shutting down, a create is refused without touching the
  node or the transport, as it is at any time for a reserved bucket without permission or an oversized note.\<close>

theorem create_event_gated:
  assumes "get_phase (shared app) \<noteq> Ready \<or> (\<not> req_allow_reserved_bucket req \<and> is_reserved_bucket_name (req_bucket req)) \<or>
     (\<exists>note. req_note req = Some note \<and> chars_count note > MAX_EVENT_NOTE_CHARS)"
  shows "\<exists>err. create_event B N sha en req app = (Failed err, app) \<and> err_code err \<in> {ServiceUnavailable, InvalidInput}"
  using assms
  by (auto simp: create_event_def validate_event_note_def get_phase_def invalid_input_def service_unavailable_def
      split: option.splits node_phase.splits)


definition is_write :: "node_rpc_request \<Rightarrow> bool" where
  "is_write req \<longleftrightarrow> (\<exists>r. req = RqCreateEvent r) \<or> (\<exists>b reason. req = RqDeleteBucket b reason)"

lemma create_event_metrics: "metrics (snd (create_event B N sha en req app)) = metrics app"
  by (auto simp: create_event_def create_event_done_def Let_def split: sum.splits node_phase.splits prod.splits outcome.splits)

lemma delete_bucket_metrics: "metrics (snd (delete_bucket B N sha dbg en b reason app)) = metrics app"
  by (auto simp: delete_bucket_def split: sum.splits prod.splits)

lemma outcome_map_snd: "snd (outcome_map f p) = snd p"
  by (cases p; cases "fst p") (auto simp: outcome_map_def)

lemma handle_rpc_metrics: "metrics (snd (handle_rpc B N sha dbg serr en req app)) = metrics app"
  by (cases req) (auto simp: create_event_metrics delete_bucket_metrics outcome_map_snd split: sum.splits)

lemma handle_rpc_read: "\<not> is_write req \<Longrightarrow> snd (handle_rpc B N sha dbg serr en req app) = app"
  by (cases req) (auto simp: is_write_def split: sum.splits)

text \<open>A turn of the RPC task that returns keeps the books of its requests: the number in flight is what it was, one more request is
  completed, and it counts as failed exactly for an unavailable or internal error; a read changes nothing else of the node.\<close>

theorem rpc_turn_books:
  assumes "rpc_turn B N sha dbg serr en req app = (res, app')" and "res \<noteq> Hangs"
  shows "inflight_requests (metrics app') = inflight_requests (metrics app) \<and>
     completed_requests (metrics app') = completed_requests (metrics app) + 1 \<and>
     failed_requests (metrics app') = failed_requests (metrics app) +
       (case res of Failed err \<Rightarrow> if err_code err \<in> {ServiceUnavailable, Internal} then 1 else 0 | _ \<Rightarrow> 0) \<and>
     (\<not> is_write req \<longrightarrow> app'\<lparr>metrics := metrics app\<rparr> = app)"
proof -
  let ?a = "app\<lparr>metrics := on_request_start (metrics app)\<rparr>"
  obtain r1 a1 where h: "handle_rpc B N sha dbg serr en req ?a = (r1, a1)" by force
  have m: "metrics a1 = on_request_start (metrics app)" using handle_rpc_metrics [of B N sha dbg serr en req ?a] h by simp
  have rd: "\<not> is_write req \<Longrightarrow> a1 = ?a" using handle_rpc_read [of req B N sha dbg serr en ?a] h by simp
  from assms h show ?thesis
    by (cases r1) (auto simp: rpc_turn_def m rd on_request_start_def on_request_finish_def counts_as_failed_def)
qed


definition sample_app :: "u8 \<Rightarrow> (mem_storage, in_memory_bus) app_state" where
  "sample_app ph = \<lparr>shared = (fresh_node ''n'')\<lparr>phase := ph\<rparr>, transport = \<lparr>bus_sent = [], bus_peer_count = 2\<rparr>,
     metrics = \<lparr>inflight_requests = 0, completed_requests = 4, failed_requests = 1\<rparr>\<rparr>"

definition sample_create :: create_event_request where
  "sample_create = \<lparr>req_bucket = ''b'', req_account = ''a'', req_amount = - 30, req_note = None, req_idempotency_nonce = ''k'',
     req_max_overdraft = Some 100, req_min_acks = None, req_ack_timeout_ms = None, req_hold_amount = None,
     req_hold_expires_at_unix_ms = None, req_settle_reservation = None, req_release_reservation = None, req_skip_hold = None,
     req_allow_reserved_bucket = False, req_transfer_to = None\<rparr>"

lemma sample_app_facts:
  "get_phase (shared (sample_app 1)) = Ready" "get_phase (shared (sample_app 0)) = Warming"
  "input_of_request sample_create = sample_request (- 30)"
  "validate_event_note (req_note sample_create) = Inr ()" "\<not> is_reserved_bucket_name (req_bucket sample_create)"
  by (simp_all add: sample_app_def sample_create_def get_phase_def phase_from_u8_def input_of_request_def sample_request_def legacy_def
      validate_event_note_def is_reserved_bucket_name_def META_BUCKET_def BILLING_BUCKET_PREFIX_def)

lemma sample_app_create:
  obtains r st where "create_local_events (mem_backend no_hash) no_hash (sample_env 5 ''e'') (sample_request (- 30)) (shared (sample_app 1)) = (Done r, st)"
    "emitted_events r \<noteq> []"
proof -
  let ?st = "shared (sample_app 1)" and ?inp = "sample_request (- 30)"
  have a: "account_at ?st k = account_new" "store_good mem_inv ?st" for k
    using fresh_node_good [of "''n''"] by (simp_all add: sample_app_def account_at_def)
  have "admitted (mem_backend no_hash) ?inp ?st"
    using sample_request_facts(8) [of no_hash "- 30" "''n''"] by (simp add: admitted_def sample_app_def)
  moreover have "charge_hold ?st account_new ?inp None 5 = (0, 0)"
    by (simp add: charge_hold_def sample_app_def sample_request_def legacy_def Let_def saturating_sub_def)
  ultimately show thesis
    using create_charge_done [of ?st no_hash ?inp "sample_env 5 ''e''" None 0 0] a sample_guard
    by (auto simp: sample_request_facts sample_env_def intro: that)
qed

theorem create_event_gated_witness:
  "\<exists>err. create_event (mem_backend no_hash) bus_broadcaster no_hash (sample_env 5 ''e'') sample_create (sample_app 0) = (Failed err, sample_app 0)"
  using create_event_gated [of "sample_app 0" sample_create "mem_backend no_hash" bus_broadcaster no_hash "sample_env 5 ''e''"]
  by (auto simp: sample_app_facts)


theorem rpc_turn_books_witness:
  "\<exists>res app. rpc_turn (mem_backend no_hash) bus_broadcaster no_hash (\<lambda>_. []) [] (sample_env 5 ''e'') RqHeads (sample_app 1) = (Done res, app) \<and>
     completed_requests (metrics app) = 5 \<and> inflight_requests (metrics app) = 0"
proof -
  obtain res app where t: "rpc_turn (mem_backend no_hash) bus_broadcaster no_hash (\<lambda>_. []) [] (sample_env 5 ''e'') RqHeads (sample_app 1) = (Done res, app)"
    by (simp add: rpc_turn_def)
  from rpc_turn_books [OF t] t show ?thesis by (simp add: sample_app_def)
qed

end
