(* ===== verification/Mesh_Client.thy ===== *)
theory Mesh_Client
  imports Wire
begin

section \<open>The mesh client (\<open>libs/broadcast/src/mesh_client.rs\<close>)\<close>

text \<open>
  The client a gateway uses to find nodes and send them requests: the peer table, the
  orderings that choose a node, the request loop with failover, the event loop, and the peer
  cache. Types of libp2p are type variables: \<open>'p\<close> a peer id, \<open>'a\<close> an address, \<open>'r\<close> the id of an outbound
  request. Their texts are the record \<open>libp2p_text\<close>. A \<open>Duration\<close> is a number of
  nanoseconds. The swarm is represented by the actions requested of it. One sort
  reads the clock once (the code reads it in every comparison).
\<close>

subsection \<open>Orderings and durations\<close>

datatype ordering = Less | Equal | Greater

definition cmp :: "'k::linorder \<Rightarrow> 'k \<Rightarrow> ordering" where
  "cmp x y = (if x < y then Less else if x = y then Equal else Greater)"

fun then_with :: "ordering \<Rightarrow> ordering \<Rightarrow> ordering" where
  "then_with Equal o2 = o2"
| "then_with o1 _ = o1"

fun insort_by :: "('n \<Rightarrow> 'n \<Rightarrow> ordering) \<Rightarrow> 'n \<Rightarrow> 'n list \<Rightarrow> 'n list" where
  "insort_by c x [] = [x]"
| "insort_by c x (y # ys) = (if c x y = Greater then y # insort_by c x ys else x # y # ys)"

definition sort_by :: "('n \<Rightarrow> 'n \<Rightarrow> ordering) \<Rightarrow> 'n list \<Rightarrow> 'n list" where
  "sort_by c xs = foldr (insort_by c) xs []"

type_synonym duration = nat

definition from_millis :: "u64 \<Rightarrow> duration" where
  "from_millis ms = unat ms * 1000000"

definition from_secs :: "u64 \<Rightarrow> duration" where
  "from_secs s = unat s * 1000000000"

definition duration_max :: duration where
  "duration_max = (2 ^ 64 - 1) * 1000000000 + 999999999"

definition duration_ms :: "duration \<Rightarrow> u64" where
  "duration_ms d = word_of_nat (d div 1000000)"

subsection \<open>Records\<close>

record ('p, 'a) libp2p_text =
  parse_peer_id :: "string \<Rightarrow> string + 'p"
  peer_id_string :: "'p \<Rightarrow> string"
  parse_multiaddr :: "string \<Rightarrow> 'a option"
  multiaddr_string :: "'a \<Rightarrow> string"

record 'a mesh_client_config =
  bootstrap_peers :: "'a list"
  psk :: "u8 list option"
  identity_seed :: string
  request_timeout :: duration
  health_interval :: duration
  peer_ttl :: duration
  health_ttl :: duration
  cooldown :: duration
  cache_flush_interval :: duration
  cache_path :: "string option"
  top_k :: usize
  max_sync_gap :: u64

definition mesh_client_config_new :: "'a list \<Rightarrow> 'a mesh_client_config" where
  "mesh_client_config_new peers0 =
     \<lparr>bootstrap_peers = peers0, psk = None, identity_seed = [], request_timeout = from_secs 5,
      health_interval = from_secs 1, peer_ttl = from_secs 20, health_ttl = from_secs 15,
      cooldown = from_secs 2, cache_flush_interval = from_secs 2, cache_path = None,
      top_k = 3, max_sync_gap = 64\<rparr>"

record 'a mesh_node =
  mn_node_id :: string
  mn_peer_id :: string
  mn_advertise_addr :: "string option"
  mn_ping_rtt :: "duration option"
  mn_listen_addrs :: "'a list"
  mn_last_discovered_at_unix_ms :: u64
  mn_last_health_at_unix_ms :: "u64 option"
  mn_health :: "health_response option"
  mn_failure_count :: u32
  mn_cooldown_until_unix_ms :: u64

record 'a peer_record =
  pr_node_id :: "string option"
  pr_peer_id :: string
  pr_advertise_addr :: "string option"
  pr_ping_rtt :: "duration option"
  pr_listen_addrs :: "'a list"
  pr_last_discovered_at_unix_ms :: u64
  pr_last_health_at_unix_ms :: "u64 option"
  pr_health :: "health_response option"
  pr_failure_count :: u32
  pr_cooldown_until_unix_ms :: u64

record cached_peer_record =
  cpr_node_id :: "string option"
  cpr_peer_id :: string
  cpr_advertise_addr :: "string option"
  cpr_ping_rtt_ms :: "u64 option"
  cpr_listen_addrs :: "string list"
  cpr_last_discovered_at_unix_ms :: u64
  cpr_last_health_at_unix_ms :: "u64 option"
  cpr_health :: "health_response option"
  cpr_failure_count :: u32
  cpr_cooldown_until_unix_ms :: u64

record member_info =
  mi_peer_id :: string
  mi_node_id :: string
  mi_advertise_addr :: "string option"
  mi_listen_addrs :: "string list"

type_synonym 'a peer_table = "(string, 'a peer_record) fmap"
type_synonym node_rpc_result = "node_rpc_error + node_rpc_response"

definition into_node :: "'a peer_record \<Rightarrow> string \<Rightarrow> 'a mesh_node" where
  "into_node r nid =
     \<lparr>mn_node_id = nid, mn_peer_id = pr_peer_id r, mn_advertise_addr = pr_advertise_addr r,
      mn_ping_rtt = pr_ping_rtt r, mn_listen_addrs = pr_listen_addrs r,
      mn_last_discovered_at_unix_ms = pr_last_discovered_at_unix_ms r,
      mn_last_health_at_unix_ms = pr_last_health_at_unix_ms r, mn_health = pr_health r,
      mn_failure_count = pr_failure_count r, mn_cooldown_until_unix_ms = pr_cooldown_until_unix_ms r\<rparr>"

subsection \<open>Choosing a node\<close>

definition health_rank :: "'a mesh_node \<Rightarrow> u8 \<times> u8 \<times> u64 \<times> u64 \<times> u64" where
  "health_rank n =
     (case mn_health n of
        Some h \<Rightarrow> (if hr_ready h then 0 else 1, if hr_overloaded h then 1 else 0,
                   hr_sync_gap h, hr_inflight_requests h, hr_failed_requests h)
      | None \<Rightarrow> (2, 1, - 1, - 1, - 1))"

definition rtt_or_max :: "'a mesh_node \<Rightarrow> duration" where
  "rtt_or_max n = (case mn_ping_rtt n of Some d \<Rightarrow> d | None \<Rightarrow> duration_max)"

definition preferred_health :: "'a mesh_client_config \<Rightarrow> u64 \<Rightarrow> 'a mesh_node \<Rightarrow> bool" where
  "preferred_health cfg now_ms n =
     (case mn_health n of
        None \<Rightarrow> False
      | Some h \<Rightarrow>
          if \<not> (hr_ready h \<and> \<not> hr_overloaded h \<and> hr_sync_gap h \<le> max_sync_gap cfg) then False
          else (case mn_last_health_at_unix_ms n of
                  Some t \<Rightarrow> saturating_sub now_ms t \<le> duration_ms (health_ttl cfg)
                | None \<Rightarrow> False))"

definition compare_for_list :: "'a mesh_node \<Rightarrow> 'a mesh_node \<Rightarrow> ordering" where
  "compare_for_list l r =
     then_with (then_with (cmp (rtt_or_max l) (rtt_or_max r)) (cmp (health_rank l) (health_rank r)))
       (cmp (mn_node_id l) (mn_node_id r))"

definition compare_for_selection ::
  "'a mesh_client_config \<Rightarrow> u64 \<Rightarrow> 'a mesh_node \<Rightarrow> 'a mesh_node \<Rightarrow> ordering" where
  "compare_for_selection cfg now_ms l r =
     then_with (then_with (then_with (then_with
       (cmp (preferred_health cfg now_ms r) (preferred_health cfg now_ms l))
       (cmp (rtt_or_max l) (rtt_or_max r)))
       (cmp (health_rank l) (health_rank r)))
       (cmp (mn_failure_count l) (mn_failure_count r)))
       (cmp (mn_node_id l) (mn_node_id r))"

definition collect_nodes ::
  "'a mesh_client_config \<Rightarrow> u64 \<Rightarrow> bool \<Rightarrow> 'a peer_table \<Rightarrow> 'a mesh_node list" where
  "collect_nodes cfg now_ms fresh_only peers =
     List.map_filter (\<lambda>(_, r).
       case pr_node_id r of
         None \<Rightarrow> None
       | Some nid \<Rightarrow>
           if pr_cooldown_until_unix_ms r > now_ms then None
           else if fresh_only \<and>
             saturating_sub now_ms (pr_last_discovered_at_unix_ms r) > duration_ms (peer_ttl cfg) then None
           else Some (into_node r nid)) (fm_entries peers)"

definition candidates_of :: "'a mesh_client_config \<Rightarrow> u64 \<Rightarrow> 'a peer_table \<Rightarrow> 'a mesh_node list" where
  "candidates_of cfg now_ms peers =
     (let nodes = collect_nodes cfg now_ms True peers
      in if nodes = [] then collect_nodes cfg now_ms False peers else nodes)"

definition all_nodes :: "'a mesh_client_config \<Rightarrow> u64 \<Rightarrow> 'a peer_table \<Rightarrow> 'a mesh_node list" where
  "all_nodes cfg now_ms peers = sort_by compare_for_list (candidates_of cfg now_ms peers)"

definition shortlist :: "'a mesh_client_config \<Rightarrow> u64 \<Rightarrow> 'a peer_table \<Rightarrow> 'a mesh_node list" where
  "shortlist cfg now_ms peers =
     (let candidates = sort_by compare_for_list (candidates_of cfg now_ms peers)
      in take (min (max (unat (top_k cfg)) 1) (length candidates)) candidates)"

definition best_node ::
  "'a mesh_client_config \<Rightarrow> u64 \<Rightarrow> u64 \<Rightarrow> 'a peer_table \<Rightarrow> 'a mesh_node option" where
  "best_node cfg now_ms sort_ms peers =
     (if candidates_of cfg now_ms peers = [] then None
      else case sort_by (compare_for_selection cfg sort_ms) (shortlist cfg now_ms peers) of
             [] \<Rightarrow> None | n # _ \<Rightarrow> Some n)"

subsection \<open>Sending a request\<close>

definition saturating_inc :: "u32 \<Rightarrow> u32" where
  "saturating_inc n = (if n = - 1 then n else n + 1)"

definition modify_peer :: "string \<Rightarrow> ('a peer_record \<Rightarrow> 'a peer_record) \<Rightarrow> 'a peer_table \<Rightarrow> 'a peer_table" where
  "modify_peer pid f peers =
     (case fmlookup peers pid of None \<Rightarrow> peers | Some r \<Rightarrow> fmupd pid (f r) peers)"

definition mark_failure :: "'a mesh_client_config \<Rightarrow> u64 \<Rightarrow> string \<Rightarrow> 'a peer_table \<Rightarrow> 'a peer_table" where
  "mark_failure cfg now_ms pid =
     modify_peer pid (\<lambda>r. r\<lparr>pr_failure_count := saturating_inc (pr_failure_count r),
                            pr_cooldown_until_unix_ms := now_ms + duration_ms (cooldown cfg)\<rparr>)"

definition mark_success :: "string \<Rightarrow> 'a peer_table \<Rightarrow> 'a peer_table" where
  "mark_success pid = modify_peer pid (\<lambda>r. r\<lparr>pr_failure_count := 0, pr_cooldown_until_unix_ms := 0\<rparr>)"

definition retryable_rpc_error :: "node_rpc_error \<Rightarrow> bool" where
  "retryable_rpc_error e \<longleftrightarrow> err_code e = ServiceUnavailable \<or> err_code e = Internal"

text \<open>
  \<open>ask i p req\<close> is what \<open>request_to\<close> returns for the \<open>i\<close>-th candidate, \<open>clock i\<close> is the time when that
  candidate is marked, and \<open>drift i\<close> is what the event loop does to the peer table in between.
\<close>

type_synonym 'p asker = "nat \<Rightarrow> 'p \<Rightarrow> node_rpc_request \<Rightarrow> string + node_rpc_result"
type_synonym 'a drift = "nat \<Rightarrow> 'a peer_table \<Rightarrow> 'a peer_table"

fun try_nodes ::
  "('p, 'a) libp2p_text \<Rightarrow> 'a mesh_client_config \<Rightarrow> 'p asker \<Rightarrow> 'a drift \<Rightarrow> (nat \<Rightarrow> u64) \<Rightarrow> node_rpc_request \<Rightarrow>
     nat \<Rightarrow> 'a mesh_node list \<Rightarrow> string option \<Rightarrow> 'a peer_table \<Rightarrow>
     (string + 'a mesh_node \<times> node_rpc_result) \<times> 'a peer_table" where
  "try_nodes T cfg ask drift clock req i [] last_err peers =
     (Inl (case last_err of Some e \<Rightarrow> e | None \<Rightarrow> ''all candidate libp2p nodes failed''), peers)"
| "try_nodes T cfg ask drift clock req i (n # ns) last_err peers =
     (case parse_peer_id T (mn_peer_id n) of
        Inl err \<Rightarrow>
          try_nodes T cfg ask drift clock req (Suc i) ns
            (Some (''invalid peer id '' @ mn_peer_id n @ '': '' @ err)) peers
      | Inr p \<Rightarrow>
          (case ask i p req of
             Inr (Inr resp) \<Rightarrow> (Inr (n, Inr resp), mark_success (mn_peer_id n) (drift i peers))
           | Inr (Inl err) \<Rightarrow>
               if retryable_rpc_error err
               then try_nodes T cfg ask drift clock req (Suc i) ns last_err
                      (mark_failure cfg (clock i) (mn_peer_id n) (drift i peers))
               else (Inr (n, Inl err), mark_success (mn_peer_id n) (drift i peers))
           | Inl err \<Rightarrow>
               try_nodes T cfg ask drift clock req (Suc i) ns (Some err)
                 (mark_failure cfg (clock i) (mn_peer_id n) (drift i peers))))"

definition request_order :: "'a mesh_client_config \<Rightarrow> u64 \<Rightarrow> u64 \<Rightarrow> 'a peer_table \<Rightarrow> 'a mesh_node list" where
  "request_order cfg now_ms sort_ms peers =
     sort_by (compare_for_selection cfg sort_ms) (all_nodes cfg now_ms peers)"

definition request_best_with_node ::
  "('p, 'a) libp2p_text \<Rightarrow> 'a mesh_client_config \<Rightarrow> 'p asker \<Rightarrow> 'a drift \<Rightarrow> (nat \<Rightarrow> u64) \<Rightarrow> u64 \<Rightarrow> u64 \<Rightarrow>
     node_rpc_request \<Rightarrow> 'a peer_table \<Rightarrow> (string + 'a mesh_node \<times> node_rpc_result) \<times> 'a peer_table" where
  "request_best_with_node T cfg ask drift clock now_ms sort_ms req peers =
     (if all_nodes cfg now_ms peers = [] then (Inl ''no libp2p nodes discovered'', peers)
      else try_nodes T cfg ask drift clock req 0 (request_order cfg now_ms sort_ms peers) None peers)"

definition request_best ::
  "('p, 'a) libp2p_text \<Rightarrow> 'a mesh_client_config \<Rightarrow> 'p asker \<Rightarrow> 'a drift \<Rightarrow> (nat \<Rightarrow> u64) \<Rightarrow> u64 \<Rightarrow> u64 \<Rightarrow>
     node_rpc_request \<Rightarrow> 'a peer_table \<Rightarrow> (string + node_rpc_result) \<times> 'a peer_table" where
  "request_best T cfg ask drift clock now_ms sort_ms req peers =
     (case request_best_with_node T cfg ask drift clock now_ms sort_ms req peers of
        (Inl e, ps) \<Rightarrow> (Inl e, ps) | (Inr (_, res), ps) \<Rightarrow> (Inr res, ps))"

subsection \<open>Waiting for discovery\<close>

text \<open>
  A waiting loop polls until its condition holds or its deadline has passed. \<open>seen i\<close> is the
  peer table and \<open>clock i\<close> the time at the \<open>i\<close>-th poll, \<open>late i\<close> whether the deadline has passed.
\<close>

partial_function (option) poll_until ::
  "(nat \<Rightarrow> bool) \<Rightarrow> (nat \<Rightarrow> bool) \<Rightarrow> (nat \<Rightarrow> string) \<Rightarrow> nat \<Rightarrow> (string + unit) option" where
  "poll_until holds late msg i =
     (if holds i then Some (Inr ()) else if late i then Some (Inl (msg i)) else poll_until holds late msg (Suc i))"

definition wait_for_min_candidates ::
  "'a mesh_client_config \<Rightarrow> (nat \<Rightarrow> 'a peer_table) \<Rightarrow> (nat \<Rightarrow> u64) \<Rightarrow> (nat \<Rightarrow> bool) \<Rightarrow> usize \<Rightarrow> (string + unit) option" where
  "wait_for_min_candidates cfg seen clock late min_candidates =
     poll_until (\<lambda>i. unat min_candidates \<le> length (all_nodes cfg (clock i) (seen i))) late
       (\<lambda>i. ''timed out waiting for '' @ show_u64 min_candidates @ '' discovered nodes'') 0"

definition pinged_count :: "'a mesh_client_config \<Rightarrow> u64 \<Rightarrow> 'a peer_table \<Rightarrow> nat" where
  "pinged_count cfg now_ms peers = length (filter (\<lambda>n. mn_ping_rtt n \<noteq> None) (all_nodes cfg now_ms peers))"

definition wait_for_min_pinged ::
  "'a mesh_client_config \<Rightarrow> (nat \<Rightarrow> 'a peer_table) \<Rightarrow> (nat \<Rightarrow> u64) \<Rightarrow> (nat \<Rightarrow> bool) \<Rightarrow> usize \<Rightarrow> (string + unit) option" where
  "wait_for_min_pinged cfg seen clock late min_pinged =
     poll_until (\<lambda>i. unat min_pinged \<le> pinged_count cfg (clock i) (seen i)) late
       (\<lambda>i. ''timed out waiting for '' @ show_u64 min_pinged @ '' pinged nodes (have '' @
            show_nat (pinged_count cfg (clock i) (seen i)) @ '')'') 0"

subsection \<open>The peer cache\<close>

fun parse_all :: "('p, 'a) libp2p_text \<Rightarrow> string list \<Rightarrow> 'a list option" where
  "parse_all T [] = Some []"
| "parse_all T (s # ss) =
     (case parse_multiaddr T s of
        None \<Rightarrow> None
      | Some ad \<Rightarrow> (case parse_all T ss of None \<Rightarrow> None | Some ads \<Rightarrow> Some (ad # ads)))"

definition from_cached :: "('p, 'a) libp2p_text \<Rightarrow> cached_peer_record \<Rightarrow> 'a peer_record option" where
  "from_cached T c =
     (case parse_all T (cpr_listen_addrs c) of
        None \<Rightarrow> None
      | Some ads \<Rightarrow> Some
          \<lparr>pr_node_id = cpr_node_id c, pr_peer_id = cpr_peer_id c, pr_advertise_addr = cpr_advertise_addr c,
           pr_ping_rtt = map_option from_millis (cpr_ping_rtt_ms c), pr_listen_addrs = ads,
           pr_last_discovered_at_unix_ms = cpr_last_discovered_at_unix_ms c,
           pr_last_health_at_unix_ms = cpr_last_health_at_unix_ms c, pr_health = cpr_health c,
           pr_failure_count = cpr_failure_count c, pr_cooldown_until_unix_ms = cpr_cooldown_until_unix_ms c\<rparr>)"

definition to_cached :: "('p, 'a) libp2p_text \<Rightarrow> 'a peer_record \<Rightarrow> cached_peer_record" where
  "to_cached T r =
     \<lparr>cpr_node_id = pr_node_id r, cpr_peer_id = pr_peer_id r, cpr_advertise_addr = pr_advertise_addr r,
      cpr_ping_rtt_ms = map_option duration_ms (pr_ping_rtt r),
      cpr_listen_addrs = map (multiaddr_string T) (pr_listen_addrs r),
      cpr_last_discovered_at_unix_ms = pr_last_discovered_at_unix_ms r,
      cpr_last_health_at_unix_ms = pr_last_health_at_unix_ms r, cpr_health = pr_health r,
      cpr_failure_count = pr_failure_count r, cpr_cooldown_until_unix_ms = pr_cooldown_until_unix_ms r\<rparr>"

definition load_entry ::
  "('p, 'a) libp2p_text \<Rightarrow> cached_peer_record \<Rightarrow> 'a list \<times> 'a peer_table \<Rightarrow> 'a list \<times> 'a peer_table" where
  "load_entry T c acc =
     (case from_cached T c of
        None \<Rightarrow> acc
      | Some r \<Rightarrow> (fst acc @ pr_listen_addrs r, fmupd (pr_peer_id r) r (snd acc)))"

text \<open>\<open>read path\<close> is the content of the cache file, if it exists and is well-formed JSON.\<close>

definition load_cache ::
  "('p, 'a) libp2p_text \<Rightarrow> (string \<Rightarrow> cached_peer_record list option) \<Rightarrow> string option \<Rightarrow> 'a peer_table \<Rightarrow>
     'a list \<times> 'a peer_table" where
  "load_cache T read path peers =
     (case path of
        None \<Rightarrow> ([], peers)
      | Some f \<Rightarrow>
          (case read f of None \<Rightarrow> ([], peers) | Some cs \<Rightarrow> fold (load_entry T) cs ([], peers)))"

text \<open>The file that \<open>write_cache\<close> writes, if it writes one.\<close>

definition write_cache ::
  "('p, 'a) libp2p_text \<Rightarrow> 'a mesh_client_config \<Rightarrow> 'a peer_table \<Rightarrow> (string \<times> cached_peer_record list) option" where
  "write_cache T cfg peers =
     (case cache_path cfg of
        None \<Rightarrow> None
      | Some f \<Rightarrow> Some (f, map (\<lambda>(_, r). to_cached T r) (fm_entries peers)))"

subsection \<open>The event loop\<close>

record ('a, 'r, 'c) mesh_state =
  ms_peers :: "'a peer_table"
  ms_dialed_addrs :: "string fset"
  ms_pending_rpc :: "('r, 'c) fmap"
  ms_pending_health :: "('r, string) fmap"

datatype ('p, 'a, 'r, 'c) mesh_action =
    AddAddress 'p 'a
  | Dial 'a
  | SendMembers 'p
  | SendRpc 'r 'p node_rpc_request
  | Reply 'c "string + node_rpc_result"

datatype ('p, 'a, 'r, 'c) mesh_event =
    Request 'p node_rpc_request 'c
  | HealthTick
  | ConnectionEstablished 'p 'a u32
  | IdentifyReceived 'p string "'a list"
  | RoutingUpdated 'p "'a list"
  | PingEvent 'p "duration option"
  | Members "member_info list"
  | Response 'r node_rpc_result
  | OutboundFailure 'r string
  | OtherEvent

definition maybe_dial ::
  "('p, 'a) libp2p_text \<Rightarrow> 'a \<Rightarrow> ('a, 'r, 'c) mesh_state \<Rightarrow> ('a, 'r, 'c) mesh_state \<times> ('p, 'a, 'r, 'c) mesh_action list" where
  "maybe_dial T ad st =
     (if multiaddr_string T ad |\<in>| ms_dialed_addrs st then (st, [])
      else (st\<lparr>ms_dialed_addrs := finsert (multiaddr_string T ad) (ms_dialed_addrs st)\<rparr>, [Dial ad]))"

fun for_each :: "('x \<Rightarrow> 's \<Rightarrow> 's \<times> 'o list) \<Rightarrow> 'x list \<Rightarrow> 's \<Rightarrow> 's \<times> 'o list" where
  "for_each f [] st = (st, [])"
| "for_each f (x # xs) st =
     (case f x st of (st1, o1) \<Rightarrow> (case for_each f xs st1 of (st2, o2) \<Rightarrow> (st2, o1 @ o2)))"

definition add_and_dial ::
  "('p, 'a) libp2p_text \<Rightarrow> 'p \<Rightarrow> 'a \<Rightarrow> ('a, 'r, 'c) mesh_state \<Rightarrow> ('a, 'r, 'c) mesh_state \<times> ('p, 'a, 'r, 'c) mesh_action list" where
  "add_and_dial T p ad st = (case maybe_dial T ad st of (st1, o1) \<Rightarrow> (st1, AddAddress p ad # o1))"

definition merge_listen_addrs :: "'a::linorder list \<Rightarrow> 'a list \<Rightarrow> 'a list" where
  "merge_listen_addrs old new = sort (fold (\<lambda>ad acc. if ad \<in> set acc then acc else acc @ [ad]) new old)"

definition blank_peer :: "string \<Rightarrow> u64 \<Rightarrow> 'a peer_record" where
  "blank_peer pid now_ms =
     \<lparr>pr_node_id = None, pr_peer_id = pid, pr_advertise_addr = None, pr_ping_rtt = None,
      pr_listen_addrs = [], pr_last_discovered_at_unix_ms = now_ms, pr_last_health_at_unix_ms = None,
      pr_health = None, pr_failure_count = 0, pr_cooldown_until_unix_ms = 0\<rparr>"

definition entry_or :: "'a peer_record \<Rightarrow> 'a peer_table \<Rightarrow> 'a peer_record" where
  "entry_or r peers = (case fmlookup peers (pr_peer_id r) of Some old \<Rightarrow> old | None \<Rightarrow> r)"

definition prune_stale :: "'a mesh_client_config \<Rightarrow> u64 \<Rightarrow> 'a peer_table \<Rightarrow> 'a peer_table" where
  "prune_stale cfg now_ms peers =
     fold fmdrop
       (map fst (filter (\<lambda>(_, r). saturating_sub now_ms (pr_last_discovered_at_unix_ms r)
                                    > duration_ms (peer_ttl cfg) * 3) (fm_entries peers))) peers"

definition probe_targets :: "('p, 'a) libp2p_text \<Rightarrow> 'a mesh_client_config \<Rightarrow> u64 \<Rightarrow> 'a peer_table \<Rightarrow> 'p list" where
  "probe_targets T cfg now_ms peers =
     List.map_filter (\<lambda>(_, r).
       if pr_node_id r = None then None
       else if saturating_sub now_ms (pr_last_discovered_at_unix_ms r) > duration_ms (peer_ttl cfg) then None
       else if pr_cooldown_until_unix_ms r > now_ms then None
       else if (case pr_last_health_at_unix_ms r of
                  Some t \<Rightarrow> saturating_sub now_ms t \<ge> duration_ms (health_interval cfg)
                | None \<Rightarrow> True)
       then (case parse_peer_id T (pr_peer_id r) of Inr p \<Rightarrow> Some p | Inl _ \<Rightarrow> None)
       else None) (fm_entries peers)"

definition send_health ::
  "('p, 'a) libp2p_text \<Rightarrow> 'r \<times> 'p \<Rightarrow> ('a, 'r, 'c) mesh_state \<Rightarrow> ('a, 'r, 'c) mesh_state \<times> ('p, 'a, 'r, 'c) mesh_action list" where
  "send_health T rp st =
     (st\<lparr>ms_pending_health := fmupd (fst rp) (peer_id_string T (snd rp)) (ms_pending_health st)\<rparr>,
      [SendRpc (fst rp) (snd rp) RqHealth])"

definition on_identify ::
  "('p, 'a::linorder) libp2p_text \<Rightarrow> u64 \<Rightarrow> 'p \<Rightarrow> string \<Rightarrow> 'a list \<Rightarrow> ('a, 'r, 'c) mesh_state \<Rightarrow>
     ('a, 'r, 'c) mesh_state \<times> ('p, 'a, 'r, 'c) mesh_action list" where
  "on_identify T now_ms p agent addrs st =
     (let pid = peer_id_string T p;
          r0 = entry_or (blank_peer pid now_ms) (ms_peers st);
          r1 = (case parse_agent_version agent of
                  Some m \<Rightarrow> r0\<lparr>pr_node_id := Some (pm_node_id m), pr_advertise_addr := pm_advertise_addr m\<rparr>
                | None \<Rightarrow> r0);
          r2 = r1\<lparr>pr_last_discovered_at_unix_ms := now_ms,
                  pr_listen_addrs := merge_listen_addrs (pr_listen_addrs r1) addrs\<rparr>
      in for_each (add_and_dial T p) addrs (st\<lparr>ms_peers := fmupd pid r2 (ms_peers st)\<rparr>))"

definition on_routing ::
  "('p, 'a::linorder) libp2p_text \<Rightarrow> u64 \<Rightarrow> 'p \<Rightarrow> 'a list \<Rightarrow> ('a, 'r, 'c) mesh_state \<Rightarrow>
     ('a, 'r, 'c) mesh_state \<times> ('p, 'a, 'r, 'c) mesh_action list" where
  "on_routing T now_ms p addrs st =
     (let pid = peer_id_string T p;
          r0 = entry_or (blank_peer pid now_ms) (ms_peers st);
          r1 = r0\<lparr>pr_last_discovered_at_unix_ms := now_ms,
                  pr_listen_addrs := merge_listen_addrs (pr_listen_addrs r0) addrs\<rparr>
      in for_each (maybe_dial T) addrs (st\<lparr>ms_peers := fmupd pid r1 (ms_peers st)\<rparr>))"

definition on_ping ::
  "('p, 'a) libp2p_text \<Rightarrow> u64 \<Rightarrow> 'p \<Rightarrow> duration option \<Rightarrow> 'a peer_table \<Rightarrow> 'a peer_table" where
  "on_ping T now_ms p result peers =
     (case result of
        None \<Rightarrow> peers
      | Some rtt \<Rightarrow> modify_peer (peer_id_string T p)
          (\<lambda>r. r\<lparr>pr_ping_rtt := Some rtt, pr_last_discovered_at_unix_ms := now_ms\<rparr>) peers)"

definition member_addr ::
  "('p, 'a) libp2p_text \<Rightarrow> 'p \<Rightarrow> string \<Rightarrow> ('a, 'r, 'c) mesh_state \<Rightarrow>
     ('a, 'r, 'c) mesh_state \<times> ('p, 'a, 'r, 'c) mesh_action list" where
  "member_addr T p raw st =
     (case parse_multiaddr T raw of
        None \<Rightarrow> (st, [])
      | Some ad \<Rightarrow>
          add_and_dial T p ad
            (st\<lparr>ms_peers := modify_peer (peer_id_string T p) (\<lambda>r.
                 if ad \<in> set (pr_listen_addrs r) then r
                 else r\<lparr>pr_listen_addrs := pr_listen_addrs r @ [ad]\<rparr>) (ms_peers st)\<rparr>))"

definition on_member ::
  "('p, 'a) libp2p_text \<Rightarrow> 'p \<Rightarrow> u64 \<times> member_info \<Rightarrow> ('a, 'r, 'c) mesh_state \<Rightarrow>
     ('a, 'r, 'c) mesh_state \<times> ('p, 'a, 'r, 'c) mesh_action list" where
  "on_member T me tm st =
     (let m = snd tm in
      case parse_peer_id T (mi_peer_id m) of
        Inl _ \<Rightarrow> (st, [])
      | Inr p \<Rightarrow>
          if p = me then (st, [])
          else
            let pid = peer_id_string T p;
                r0 = entry_or (blank_peer pid (fst tm)) (ms_peers st);
                r1 = r0\<lparr>pr_node_id := Some (mi_node_id m), pr_advertise_addr := mi_advertise_addr m,
                        pr_last_discovered_at_unix_ms := fst tm\<rparr>
            in for_each (member_addr T p) (mi_listen_addrs m) (st\<lparr>ms_peers := fmupd pid r1 (ms_peers st)\<rparr>))"

definition apply_rpc_error ::
  "'a mesh_client_config \<Rightarrow> u64 \<Rightarrow> string \<Rightarrow> node_rpc_error \<Rightarrow> 'a peer_table \<Rightarrow> 'a peer_table" where
  "apply_rpc_error cfg now_ms pid err =
     modify_peer pid (\<lambda>r.
       if retryable_rpc_error err
       then r\<lparr>pr_failure_count := saturating_inc (pr_failure_count r),
              pr_cooldown_until_unix_ms := now_ms + duration_ms (cooldown cfg)\<rparr>
       else r\<lparr>pr_cooldown_until_unix_ms := 0\<rparr>)"

definition mark_transport_failure ::
  "'a mesh_client_config \<Rightarrow> u64 \<Rightarrow> string \<Rightarrow> 'a peer_table \<Rightarrow> 'a peer_table" where
  "mark_transport_failure cfg now_ms pid =
     modify_peer pid (\<lambda>r. r\<lparr>pr_failure_count := saturating_inc (pr_failure_count r),
                            pr_cooldown_until_unix_ms := now_ms + duration_ms (cooldown cfg)\<rparr>)"

definition on_health_response ::
  "'a mesh_client_config \<Rightarrow> u64 \<Rightarrow> string \<Rightarrow> node_rpc_result \<Rightarrow> 'a peer_table \<Rightarrow> 'a peer_table" where
  "on_health_response cfg now_ms pid res peers =
     (case res of
        Inr (RsHealth h) \<Rightarrow>
          modify_peer pid (\<lambda>r. r\<lparr>pr_health := Some h, pr_last_health_at_unix_ms := Some now_ms,
                                   pr_cooldown_until_unix_ms := 0\<rparr>) peers
      | Inr _ \<Rightarrow> peers
      | Inl err \<Rightarrow> apply_rpc_error cfg now_ms pid err peers)"

definition on_response ::
  "'a mesh_client_config \<Rightarrow> u64 \<Rightarrow> 'r \<Rightarrow> node_rpc_result \<Rightarrow> ('a, 'r, 'c) mesh_state \<Rightarrow>
     ('a, 'r, 'c) mesh_state \<times> ('p, 'a, 'r, 'c) mesh_action list" where
  "on_response cfg now_ms rid res st =
     (case fmlookup (ms_pending_rpc st) rid of
        Some c \<Rightarrow> (st\<lparr>ms_pending_rpc := fmdrop rid (ms_pending_rpc st)\<rparr>, [Reply c (Inr res)])
      | None \<Rightarrow>
          (case fmlookup (ms_pending_health st) rid of
             None \<Rightarrow> (st, [])
           | Some pid \<Rightarrow>
               (st\<lparr>ms_pending_health := fmdrop rid (ms_pending_health st),
                   ms_peers := on_health_response cfg now_ms pid res (ms_peers st)\<rparr>, [])))"

definition on_outbound_failure ::
  "'a mesh_client_config \<Rightarrow> u64 \<Rightarrow> 'r \<Rightarrow> string \<Rightarrow> ('a, 'r, 'c) mesh_state \<Rightarrow>
     ('a, 'r, 'c) mesh_state \<times> ('p, 'a, 'r, 'c) mesh_action list" where
  "on_outbound_failure cfg now_ms rid err st =
     (case fmlookup (ms_pending_rpc st) rid of
        Some c \<Rightarrow> (st\<lparr>ms_pending_rpc := fmdrop rid (ms_pending_rpc st)\<rparr>,
                   [Reply c (Inl (''client RPC failed: '' @ err))])
      | None \<Rightarrow>
          (case fmlookup (ms_pending_health st) rid of
             None \<Rightarrow> (st, [])
           | Some pid \<Rightarrow>
               (st\<lparr>ms_pending_health := fmdrop rid (ms_pending_health st),
                   ms_peers := mark_transport_failure cfg now_ms pid (ms_peers st)\<rparr>, [])))"

definition on_established ::
  "('p, 'a) libp2p_text \<Rightarrow> 'r \<Rightarrow> 'p \<Rightarrow> 'a \<Rightarrow> u32 \<Rightarrow> ('a, 'r, 'c) mesh_state \<Rightarrow>
     ('a, 'r, 'c) mesh_state \<times> ('p, 'a, 'r, 'c) mesh_action list" where
  "on_established T rid p ad num_established st =
     (if num_established = 1
      then (case send_health T (rid, p) st of (st1, o1) \<Rightarrow> (st1, AddAddress p ad # SendMembers p # o1))
      else (st, [AddAddress p ad]))"

definition on_health_tick ::
  "('p, 'a) libp2p_text \<Rightarrow> 'a mesh_client_config \<Rightarrow> u64 \<Rightarrow> (nat \<Rightarrow> 'r) \<Rightarrow> ('a, 'r, 'c) mesh_state \<Rightarrow>
     ('a, 'r, 'c) mesh_state \<times> ('p, 'a, 'r, 'c) mesh_action list" where
  "on_health_tick T cfg now_ms ids st =
     (let st1 = st\<lparr>ms_peers := prune_stale cfg now_ms (ms_peers st)\<rparr>;
          targets = probe_targets T cfg now_ms (ms_peers st1)
      in for_each (send_health T) (zip (map ids [0 ..< length targets]) targets) st1)"

text \<open>
  One turn of the loop. \<open>ids\<close> are the request ids that libp2p hands out in the turn and \<open>clock\<close>
  the clock readings, both numbered in program order; \<open>me\<close> is the local peer id.
\<close>

fun mesh_step ::
  "('p, 'a::linorder) libp2p_text \<Rightarrow> 'a mesh_client_config \<Rightarrow> 'p \<Rightarrow> (nat \<Rightarrow> u64) \<Rightarrow> (nat \<Rightarrow> 'r) \<Rightarrow>
     ('p, 'a, 'r, 'c) mesh_event \<Rightarrow> ('a, 'r, 'c) mesh_state \<Rightarrow>
     ('a, 'r, 'c) mesh_state \<times> ('p, 'a, 'r, 'c) mesh_action list" where
  "mesh_step T cfg me clock ids (Request p req c) st =
     (st\<lparr>ms_pending_rpc := fmupd (ids 0) c (ms_pending_rpc st)\<rparr>, [SendRpc (ids 0) p req])"
| "mesh_step T cfg me clock ids HealthTick st = on_health_tick T cfg (clock 0) ids st"
| "mesh_step T cfg me clock ids (ConnectionEstablished p ad num) st = on_established T (ids 0) p ad num st"
| "mesh_step T cfg me clock ids (IdentifyReceived p agent addrs) st = on_identify T (clock 0) p agent addrs st"
| "mesh_step T cfg me clock ids (RoutingUpdated p addrs) st = on_routing T (clock 0) p addrs st"
| "mesh_step T cfg me clock ids (PingEvent p result) st =
     (st\<lparr>ms_peers := on_ping T (clock 0) p result (ms_peers st)\<rparr>, [])"
| "mesh_step T cfg me clock ids (Members ms) st =
     for_each (on_member T me) (zip (map clock [0 ..< length ms]) ms) st"
| "mesh_step T cfg me clock ids (Response rid res) st = on_response cfg (clock 0) rid res st"
| "mesh_step T cfg me clock ids (OutboundFailure rid err) st = on_outbound_failure cfg (clock 0) rid err st"
| "mesh_step T cfg me clock ids OtherEvent st = (st, [])"

text \<open>The checks of \<open>MeshClient::start\<close>, the loaded cache and the first dials.\<close>

definition psk_missing :: string where
  "psk_missing =
     ''mesh client requires a cluster_key / PSK '' @ [CHR 0xE2, CHR 0x80, CHR 0x94] @
     '' pass --cluster-key or SHARDD_CLUSTER_KEY. This is the secret half of the libp2p identity.''"

definition seed_missing :: string where
  "seed_missing =
     ''mesh client cache_path is set without identity_seed: cached peer '' @
     ''entries would become invalid on every restart because a random '' @
     ''PeerId would be generated. Either provide identity_seed '' @
     ''(e.g. SHARDD_PUBLIC_EDGE_ID for gateways) or clear cache_path.''"

definition mesh_start ::
  "('p, 'a) libp2p_text \<Rightarrow> (string \<Rightarrow> cached_peer_record list option) \<Rightarrow> 'a mesh_client_config \<Rightarrow>
     string + ('a, 'r, 'c) mesh_state \<times> ('p, 'a, 'r, 'c) mesh_action list" where
  "mesh_start T read cfg =
     (if psk cfg = None then Inl psk_missing
      else if cache_path cfg \<noteq> None \<and> trim (identity_seed cfg) = []
      then Inl seed_missing
      else case load_cache T read (cache_path cfg) fmempty of
        (cached_bootstrap, peers) \<Rightarrow>
          Inr (for_each (maybe_dial T) (bootstrap_peers cfg @ cached_bootstrap)
            \<lparr>ms_peers = peers, ms_dialed_addrs = {||}, ms_pending_rpc = fmempty, ms_pending_health = fmempty\<rparr>))"

end
