(* ===== verification/Mesh_Selection.thy ===== *)
theory Mesh_Selection
  imports Mesh_Client
begin

section \<open>What the mesh client guarantees\<close>

subsection \<open>Sorting by a comparison is sorting by a key\<close>

lemma cmp_neq_Greater [simp]: "cmp x y \<noteq> Greater \<longleftrightarrow> x \<le> y"
  by (auto simp: cmp_def)

lemma cmp_eq_Greater [simp]: "cmp x y = Greater \<longleftrightarrow> y < x"
  by (auto simp: cmp_def)

lemma then_with_cmp: "then_with (cmp a b) (cmp c d) = cmp (a, c) (b, d)"
  by (auto simp: cmp_def less_prod_def)

lemma cmp_swap_bool: "cmp (p :: bool) q = cmp (\<not> q) (\<not> p)"
  by (auto simp: cmp_def)

lemma insort_by_key:
  assumes "\<And>x y. c x y = cmp (f x) (f y)"
  shows "insort_by c x ys = insort_key f x ys"
  by (induction ys) (auto simp: assms)

lemma sort_by_key:
  assumes "\<And>x y. c x y = cmp (f x) (f y)"
  shows "sort_by c xs = sort_key f xs"
  by (simp add: sort_by_def sort_key_def insort_by_key [OF assms] cong: foldr_cong)

definition list_key :: "'a mesh_node \<Rightarrow> (duration \<times> u8 \<times> u8 \<times> u64 \<times> u64 \<times> u64) \<times> string" where
  "list_key n = ((rtt_or_max n, health_rank n), mn_node_id n)"

definition selection_key ::
  "'a mesh_client_config \<Rightarrow> u64 \<Rightarrow> 'a mesh_node \<Rightarrow>
     (((bool \<times> duration) \<times> u8 \<times> u8 \<times> u64 \<times> u64 \<times> u64) \<times> u32) \<times> string" where
  "selection_key cfg now_ms n =
     ((((\<not> preferred_health cfg now_ms n, rtt_or_max n), health_rank n), mn_failure_count n), mn_node_id n)"

lemma compare_for_list_key: "compare_for_list l r = cmp (list_key l) (list_key r)"
  by (simp add: compare_for_list_def list_key_def then_with_cmp)

lemma compare_for_selection_key:
  "compare_for_selection cfg t l r = cmp (selection_key cfg t l) (selection_key cfg t r)"
  by (simp add: compare_for_selection_def selection_key_def then_with_cmp
      cmp_swap_bool [of "preferred_health cfg t r"])

lemma sort_for_list: "sort_by compare_for_list xs = sort_key list_key xs"
  by (rule sort_by_key) (rule compare_for_list_key)

lemma sort_for_selection: "sort_by (compare_for_selection cfg t) xs = sort_key (selection_key cfg t) xs"
  by (rule sort_by_key) (rule compare_for_selection_key)

lemmas sort_keys = sort_for_list sort_for_selection

lemma selection_key_prefers:
  assumes "selection_key cfg t n \<le> selection_key cfg t m" "preferred_health cfg t m"
  shows "preferred_health cfg t n"
  using assms by (auto simp: selection_key_def less_eq_prod_def)

lemma list_key_rtt: "list_key n \<le> list_key m \<Longrightarrow> rtt_or_max n \<le> rtt_or_max m"
  by (auto simp: list_key_def less_eq_prod_def)

subsection \<open>The candidates\<close>

text \<open>A peer may be chosen when it is identified, not cooling down and, if asked, seen recently.\<close>

definition selectable :: "'a mesh_client_config \<Rightarrow> u64 \<Rightarrow> bool \<Rightarrow> 'a peer_record \<Rightarrow> bool" where
  "selectable cfg now_ms fresh_only r \<longleftrightarrow>
     pr_node_id r \<noteq> None \<and> pr_cooldown_until_unix_ms r \<le> now_ms \<and>
     (fresh_only \<longrightarrow> saturating_sub now_ms (pr_last_discovered_at_unix_ms r) \<le> duration_ms (peer_ttl cfg))"

lemma set_map_filter_entries:
  "set (List.map_filter g (fm_entries m)) = {y. \<exists>k v. fmlookup m k = Some v \<and> g (k, v) = Some y}"
  by (fastforce simp: List.map_filter_def image_iff)

lemma set_collect_nodes:
  "set (collect_nodes cfg t fresh peers) =
     {into_node r (the (pr_node_id r)) | k r. fmlookup peers k = Some r \<and> selectable cfg t fresh r}"
proof -
  have "(case pr_node_id r of
           None \<Rightarrow> None
         | Some nid \<Rightarrow>
             if pr_cooldown_until_unix_ms r > t then None
             else if fresh \<and> saturating_sub t (pr_last_discovered_at_unix_ms r) > duration_ms (peer_ttl cfg) then None
             else Some (into_node r nid)) = Some n
        \<longleftrightarrow> selectable cfg t fresh r \<and> n = into_node r (the (pr_node_id r))" for r n
    by (cases "pr_node_id r") (auto simp: selectable_def)
  then show ?thesis unfolding collect_nodes_def set_map_filter_entries by auto
qed

lemma selectable_fresh: "selectable cfg t True r \<Longrightarrow> selectable cfg t False r"
  by (simp add: selectable_def)

definition fresh_if_any :: "'a mesh_client_config \<Rightarrow> u64 \<Rightarrow> 'a peer_table \<Rightarrow> bool" where
  "fresh_if_any cfg t peers \<longleftrightarrow> list_ex (\<lambda>(_, r). selectable cfg t True r) (fm_entries peers)"

lemma fresh_if_any_iff: "fresh_if_any cfg t peers \<longleftrightarrow> (\<exists>k r. fmlookup peers k = Some r \<and> selectable cfg t True r)"
  by (fastforce simp: fresh_if_any_def list_ex_iff simp del: split_paired_Ex)

lemma collect_nodes_empty:
  "collect_nodes cfg t fresh peers = [] \<longleftrightarrow> (\<forall>k r. fmlookup peers k = Some r \<longrightarrow> \<not> selectable cfg t fresh r)"
  using set_collect_nodes [of cfg t fresh peers] by (auto simp flip: set_empty)

lemma set_candidates_of:
  "set (candidates_of cfg t peers) =
     {into_node r (the (pr_node_id r)) | k r. fmlookup peers k = Some r \<and> selectable cfg t (fresh_if_any cfg t peers) r}"
proof (cases "fresh_if_any cfg t peers")
  case True
  then have "collect_nodes cfg t True peers \<noteq> []" by (auto simp: collect_nodes_empty fresh_if_any_iff)
  with True show ?thesis by (simp add: candidates_of_def Let_def set_collect_nodes)
next
  case False
  then have "collect_nodes cfg t True peers = []" by (auto simp: collect_nodes_empty fresh_if_any_iff)
  with False show ?thesis by (simp add: candidates_of_def Let_def set_collect_nodes)
qed

lemma candidates_of_empty:
  "candidates_of cfg t peers = [] \<longleftrightarrow> (\<forall>k r. fmlookup peers k = Some r \<longrightarrow> \<not> selectable cfg t False r)"
  by (auto simp: candidates_of_def Let_def collect_nodes_empty dest: selectable_fresh)

subsection \<open>The best node\<close>

lemma sort_key_Nil_iff [simp]: "sort_key f xs = [] \<longleftrightarrow> xs = []"
  by (metis mset_sort mset_zero_iff)

lemma few_below:
  assumes "i < length xs" "sorted (map f xs)" "\<And>x y. f x \<le> f y \<Longrightarrow> g x \<le> (g y :: 'b::linorder)"
  shows "length (filter (\<lambda>x. g x < g (xs ! i)) xs) \<le> i"
proof -
  have "{j. j < length xs \<and> g (xs ! j) < g (xs ! i)} \<subseteq> {..< i}"
    using assms by (auto simp: sorted_iff_nth_mono not_less [symmetric])
  then have "card {j. j < length xs \<and> g (xs ! j) < g (xs ! i)} \<le> card {..< i}" by (intro card_mono) auto
  then show ?thesis by (simp add: length_filter_conv_card)
qed

lemma shortlist_take:
  "shortlist cfg t peers = take (max (unat (top_k cfg)) 1) (sort_key list_key (candidates_of cfg t peers))"
  by (auto simp: shortlist_def Let_def sort_for_list min_def)

lemma shortlist_close:
  assumes "n \<in> set (shortlist cfg t peers)"
  shows "length (filter (\<lambda>m. rtt_or_max m < rtt_or_max n) (candidates_of cfg t peers)) < max (unat (top_k cfg)) 1"
proof -
  let ?xs = "sort_key list_key (candidates_of cfg t peers)"
  obtain i where i: "i < length ?xs" "i < max (unat (top_k cfg)) 1" "n = ?xs ! i"
    using assms by (auto simp: shortlist_take in_set_conv_nth)
  have "length (filter (\<lambda>m. rtt_or_max m < rtt_or_max n) ?xs) \<le> i"
    unfolding i(3) using i(1) by (rule few_below [where f = list_key]) (auto intro: list_key_rtt)
  moreover have "length (filter P ?xs) = length (filter P (candidates_of cfg t peers))" for P
    by (metis mset_filter mset_sort size_mset)
  ultimately show ?thesis using i(2) by simp
qed

lemma best_node_hd:
  "best_node cfg now_ms sort_ms peers =
     (if candidates_of cfg now_ms peers = [] then None
      else Some (hd (sort_key (selection_key cfg sort_ms) (shortlist cfg now_ms peers))))"
proof (cases "candidates_of cfg now_ms peers = []")
  case False
  then have "shortlist cfg now_ms peers \<noteq> []" by (auto simp: shortlist_take)
  with False show ?thesis
    by (cases "sort_key (selection_key cfg sort_ms) (shortlist cfg now_ms peers)") (auto simp: best_node_def sort_for_selection)
qed (simp add: best_node_def)

lemma hd_sort_key_least: "xs \<noteq> [] \<Longrightarrow> hd (sort_key f xs) \<in> set xs \<and> (\<forall>x \<in> set xs. f (hd (sort_key f xs)) \<le> f x)"
proof -
  assume "xs \<noteq> []"
  then obtain y ys where ys: "sort_key f xs = y # ys" by (cases "sort_key f xs") auto
  have "sorted (map f (sort_key f xs))" by simp
  then have "\<forall>x \<in> set (sort_key f xs). f y \<le> f x" unfolding ys by auto
  then show ?thesis using ys set_sort [of f xs] by auto
qed


subsection \<open>Failover\<close>

text \<open>The final answer of a candidate, or nothing if the next candidate is to be tried.\<close>

definition accepted ::
  "('p, 'a) libp2p_text \<Rightarrow> 'p asker \<Rightarrow> node_rpc_request \<Rightarrow> nat \<Rightarrow> 'a mesh_node \<Rightarrow> node_rpc_result option" where
  "accepted T ask req i n =
     (case parse_peer_id T (mn_peer_id n) of
        Inl _ \<Rightarrow> None
      | Inr p \<Rightarrow>
          (case ask i p req of
             Inl _ \<Rightarrow> None
           | Inr (Inl err) \<Rightarrow> if retryable_rpc_error err then None else Some (Inl err)
           | Inr (Inr resp) \<Rightarrow> Some (Inr resp)))"

lemma try_nodes_accepted:
  "accepted T ask req i n = Some res \<Longrightarrow>
     fst (try_nodes T cfg ask drift clock req i (n # ns) e peers) = Inr (n, res)"
  by (auto simp: accepted_def split: sum.splits if_splits)

lemma try_nodes_next:
  assumes "accepted T ask req i n = None"
  obtains e' peers' where "try_nodes T cfg ask drift clock req i (n # ns) e peers =
     try_nodes T cfg ask drift clock req (Suc i) ns e' peers'"
  using assms that by (auto simp: accepted_def split: sum.splits if_splits)

lemma try_nodes_result:
  "(case fst (try_nodes T cfg ask drift clock req i ns e peers) of
      Inl _ \<Rightarrow> \<forall>j < length ns. accepted T ask req (i + j) (ns ! j) = None
    | Inr (n, res) \<Rightarrow> \<exists>j < length ns. n = ns ! j \<and> accepted T ask req (i + j) n = Some res \<and>
        (\<forall>k < j. accepted T ask req (i + k) (ns ! k) = None))"
proof (induction ns arbitrary: i e peers)
  case (Cons n ns)
  show ?case
  proof (cases "accepted T ask req i n")
    case None
    obtain e' peers' where eq: "try_nodes T cfg ask drift clock req i (n # ns) e peers =
       try_nodes T cfg ask drift clock req (Suc i) ns e' peers'"
      using None by (rule try_nodes_next)
    show ?thesis using Cons.IH [of "Suc i" e' peers'] None unfolding eq
      by (auto simp: All_less_Suc2 Ex_less_Suc2 split: sum.splits)
  next
    case (Some res)
    then show ?thesis
      unfolding try_nodes_accepted [OF Some] by (auto intro: exI [of _ 0])
  qed
qed simp

lemma mset_request_order: "mset (request_order cfg now_ms sort_ms peers) = mset (candidates_of cfg now_ms peers)"
  by (simp add: request_order_def all_nodes_def sort_keys)

lemma all_nodes_empty: "all_nodes cfg t peers = [] \<longleftrightarrow> candidates_of cfg t peers = []"
  by (simp add: all_nodes_def sort_keys)

lemma sorted_request_order:
  "sorted_wrt (\<lambda>l r. compare_for_selection cfg sort_ms l r \<noteq> Greater) (request_order cfg now_ms sort_ms peers)"
proof -
  have "sorted (map (selection_key cfg sort_ms) (request_order cfg now_ms sort_ms peers))"
    by (simp add: request_order_def sort_keys)
  then show ?thesis by (simp add: sorted_map compare_for_selection_key not_less)
qed

text \<open>C17. Failover. \<open>request_best_with_node\<close> tries the candidates in the selection order, each at most once. It
  returns the answer of the first candidate that gives a response or an error that is not retryable; it fails only if
  every candidate failed (a bad peer id, a transport error or a retryable error).
\<close>

theorem request_best_fails_over:
  "let ns = request_order cfg now_ms sort_ms peers in
     mset ns = mset (candidates_of cfg now_ms peers) \<and>
     sorted_wrt (\<lambda>l r. compare_for_selection cfg sort_ms l r \<noteq> Greater) ns \<and>
     (case fst (request_best_with_node T cfg ask drift clock now_ms sort_ms req peers) of
        Inl _ \<Rightarrow> \<forall>j < length ns. accepted T ask req j (ns ! j) = None
      | Inr (n, res) \<Rightarrow> \<exists>j < length ns. n = ns ! j \<and> accepted T ask req j n = Some res \<and>
          (\<forall>k < j. accepted T ask req k (ns ! k) = None))"
proof (cases "candidates_of cfg now_ms peers = []")
  case True
  then have "request_order cfg now_ms sort_ms peers = []"
    using mset_request_order [of cfg now_ms sort_ms peers] by simp
  with True show ?thesis by (simp add: request_best_with_node_def all_nodes_empty)
next
  case False
  then show ?thesis
    using try_nodes_result [where i = 0 and ns = "request_order cfg now_ms sort_ms peers" and e = None and cfg = cfg
        and T = T and ask = ask and drift = drift and clock = clock and req = req and peers = peers]
    by (simp add: request_best_with_node_def all_nodes_empty mset_request_order sorted_request_order Let_def
        split: sum.splits prod.splits)
qed

subsection \<open>Cooling down\<close>

text \<open>The table is keyed by the peer ids of its records.\<close>

definition keyed :: "'a peer_table \<Rightarrow> bool" where
  "keyed peers \<longleftrightarrow> fmpred (\<lambda>k r. pr_peer_id r = k) peers"

lemma keyed_iff: "keyed peers \<longleftrightarrow> (\<forall>k r. fmlookup peers k = Some r \<longrightarrow> pr_peer_id r = k)"
  by (simp add: keyed_def fmpred_iff)

lemma modify_peer_lookup:
  "fmlookup (modify_peer pid f peers) k = (if k = pid then map_option f (fmlookup peers k) else fmlookup peers k)"
  by (auto simp: modify_peer_def split: option.splits)

lemma keyed_modify_peer: "keyed peers \<Longrightarrow> (\<And>r. pr_peer_id (f r) = pr_peer_id r) \<Longrightarrow> keyed (modify_peer pid f peers)"
  by (auto simp: keyed_iff modify_peer_lookup split: if_splits)

lemmas mark_defs = mark_failure_def mark_success_def mark_transport_failure_def apply_rpc_error_def

definition cooled :: "'a mesh_client_config \<Rightarrow> u64 \<Rightarrow> 'a peer_record \<Rightarrow> 'a peer_record" where
  "cooled cfg now_ms r = r\<lparr>pr_failure_count := saturating_inc (pr_failure_count r),
     pr_cooldown_until_unix_ms := now_ms + duration_ms (cooldown cfg)\<rparr>"

lemma mark_failure_cooled: "mark_failure cfg t pid = modify_peer pid (cooled cfg t)"
  by (simp add: mark_failure_def cooled_def [abs_def])

lemma keyed_marks [simp]:
  "keyed peers \<Longrightarrow> keyed (mark_failure cfg t pid peers)"
  "keyed peers \<Longrightarrow> keyed (mark_success pid peers)"
  "keyed peers \<Longrightarrow> keyed (mark_transport_failure cfg t pid peers)"
  "keyed peers \<Longrightarrow> keyed (apply_rpc_error cfg t pid err peers)"
  unfolding mark_defs by (auto intro!: keyed_modify_peer)

lemma keyed_try_nodes: "keyed peers \<Longrightarrow> keyed (snd (try_nodes T cfg ask (\<lambda>_ ps. ps) clock req i ns e peers))"
  by (induction ns arbitrary: i e peers) (auto split: sum.splits)

lemma try_nodes_frame:
  "pid \<notin> mn_peer_id ` set ns \<Longrightarrow>
     fmlookup (snd (try_nodes T cfg ask (\<lambda>_ ps. ps) clock req i ns e peers)) pid = fmlookup peers pid"
  by (induction ns arbitrary: i e peers)
    (auto simp: mark_defs modify_peer_lookup split: sum.splits)

lemma try_nodes_cools:
  assumes "distinct (map mn_peer_id ns)" "j < length ns"
    and "\<forall>k \<le> j. accepted T ask req (i + k) (ns ! k) = None"
    and "parse_peer_id T (mn_peer_id (ns ! j)) = Inr p"
  shows "fmlookup (snd (try_nodes T cfg ask (\<lambda>_ ps. ps) clock req i ns e peers)) (mn_peer_id (ns ! j)) =
     map_option (cooled cfg (clock (i + j))) (fmlookup peers (mn_peer_id (ns ! j)))"
  using assms
proof (induction ns arbitrary: i j e peers)
  case (Cons n ns)
  have acc0: "accepted T ask req i n = None" using Cons.prems(3) by (auto dest: spec [of _ 0])
  show ?case
  proof (cases j)
    case 0
    with Cons.prems acc0 show ?thesis
      by (auto simp: accepted_def try_nodes_frame mark_failure_cooled modify_peer_lookup
          split: sum.splits if_splits)
  next
    case (Suc j')
    have ne: "mn_peer_id (ns ! j') \<noteq> mn_peer_id n" using Cons.prems Suc by (metis distinct.simps(2) image_eqI length_Cons list.set_map list.simps(9) not_less_eq nth_mem)
    have acc: "\<forall>k \<le> j'. accepted T ask req (Suc i + k) (ns ! k) = None"
    proof (intro allI impI)
      fix k assume "k \<le> j'"
      then show "accepted T ask req (Suc i + k) (ns ! k) = None"
        using Cons.prems(3) Suc by (auto dest: spec [of _ "Suc k"])
    qed
    have IH: "fmlookup (snd (try_nodes T cfg ask (\<lambda>_ ps. ps) clock req (Suc i) ns e' ps)) (mn_peer_id (ns ! j')) =
        map_option (cooled cfg (clock (Suc i + j'))) (fmlookup ps (mn_peer_id (ns ! j')))" for e' ps
      using Cons.prems Suc acc by (intro Cons.IH) auto
    from acc0 show ?thesis
      by (auto simp: accepted_def Suc IH mark_defs modify_peer_lookup ne split: sum.splits if_splits)
  qed
qed simp

lemma distinct_map_filter_keys:
  assumes "\<And>k v y. (k, v) \<in> set xs \<Longrightarrow> g (k, v) = Some y \<Longrightarrow> h y = k" "distinct (map fst xs)"
  shows "distinct (map h (List.map_filter g xs))"
proof -
  have "distinct (map h (List.map_filter g xs)) \<and> h ` set (List.map_filter g xs) \<subseteq> fst ` set xs"
    using assms
  proof (induction xs)
    case (Cons x xs)
    have "distinct (map h (List.map_filter g xs)) \<and> h ` set (List.map_filter g xs) \<subseteq> fst ` set xs"
      by (rule Cons.IH) (use Cons.prems in auto)
    then show ?case using Cons.prems(1) [of "fst x" "snd x"] Cons.prems(2)
      by (cases "g x") (auto simp: List.map_filter_simps)
  qed (simp add: List.map_filter_simps)
  then show ?thesis ..
qed

lemma distinct_candidates: "keyed peers \<Longrightarrow> distinct (map mn_peer_id (candidates_of cfg t peers))"
  unfolding candidates_of_def collect_nodes_def Let_def
  by (auto simp: keyed_iff into_node_def intro!: distinct_map_filter_keys split: option.splits if_splits)

lemma distinct_request_order: "keyed peers \<Longrightarrow> distinct (map mn_peer_id (request_order cfg now_ms sort_ms peers))"
  using distinct_candidates [of peers cfg now_ms] mset_request_order [of cfg now_ms sort_ms peers]
  by (metis distinct_map mset_eq_imp_distinct_iff set_mset_mset)

text \<open>
  A failed node rests: in a call that the event loop does not interfere with, every node that was asked and gave
  no final answer gets one more failure and a cooldown from its answer on, and until the cooldown ends it is no
  candidate for another request.
\<close>

theorem failed_node_cools_down:
  assumes "keyed peers" "j < length (request_order cfg now_ms sort_ms peers)" "n = request_order cfg now_ms sort_ms peers ! j"
    and "\<forall>k \<le> j. accepted T ask req k (request_order cfg now_ms sort_ms peers ! k) = None"
    and "parse_peer_id T (mn_peer_id n) = Inr p"
    and "request_best_with_node T cfg ask (\<lambda>_ ps. ps) clock now_ms sort_ms req peers = (res, peers')"
  shows "(\<exists>r. fmlookup peers (mn_peer_id n) = Some r \<and> n = into_node r (mn_node_id n) \<and>
            fmlookup peers' (mn_peer_id n) = Some (cooled cfg (clock j) r)) \<and>
         (\<forall>t < clock j + duration_ms (cooldown cfg). \<forall>m \<in> set (candidates_of cfg t peers'). mn_peer_id m \<noteq> mn_peer_id n)"
proof -
  let ?ns = "request_order cfg now_ms sort_ms peers"
  have "n \<in> set ?ns" using assms by simp
  then have "n \<in> set (candidates_of cfg now_ms peers)"
    using mset_request_order [of cfg now_ms sort_ms peers] by (metis set_mset_mset)
  then obtain r where r: "fmlookup peers (mn_peer_id n) = Some r" "n = into_node r (mn_node_id n)"
    using \<open>keyed peers\<close> by (fastforce simp: set_candidates_of keyed_iff into_node_def)
  have "all_nodes cfg now_ms peers \<noteq> []"
    using \<open>n \<in> set (candidates_of cfg now_ms peers)\<close> by (auto simp: all_nodes_empty)
  then have p': "peers' = snd (try_nodes T cfg ask (\<lambda>_ ps. ps) clock req 0 ?ns None peers)"
    using assms(6) by (simp add: request_best_with_node_def)
  have l: "fmlookup peers' (mn_peer_id n) = Some (cooled cfg (clock j) r)"
    using try_nodes_cools [OF distinct_request_order [OF assms(1)] assms(2), of T ask req 0] assms r
    unfolding p' by simp
  have k': "keyed peers'" unfolding p' using assms(1) by (rule keyed_try_nodes)
  have "mn_peer_id m \<noteq> mn_peer_id n"
    if t: "t < clock j + duration_ms (cooldown cfg)" and m: "m \<in> set (candidates_of cfg t peers')" for t m
  proof
    assume eq: "mn_peer_id m = mn_peer_id n"
    from m k' obtain r' b where "fmlookup peers' (mn_peer_id m) = Some r'" "selectable cfg t b r'"
      by (fastforce simp: set_candidates_of keyed_iff into_node_def)
    with l eq t show False by (auto simp: selectable_def cooled_def)
  qed
  with r l show ?thesis by auto
qed

subsection \<open>Waiting\<close>

lemma poll_until_stops:
  assumes "i \<le> m" "\<And>k. i \<le> k \<Longrightarrow> k < m \<Longrightarrow> \<not> holds k \<and> \<not> late k" "holds m \<or> late m"
  shows "poll_until holds late msg i = Some (if holds m then Inr () else Inl (msg m))"
  using assms
proof (induction i rule: inc_induct)
  case base
  then show ?case by (subst poll_until.simps) auto
next
  case (step i)
  then show ?case by (subst poll_until.simps) auto
qed

lemma poll_until_first:
  assumes "late (n :: nat)"
  obtains m where "m \<le> n" "\<forall>k < m. \<not> holds k \<and> \<not> late k" "holds m \<or> late m"
proof
  let ?m = "LEAST k. holds k \<or> late k"
  show "?m \<le> n" by (rule Least_le) (simp add: assms)
  show "\<forall>k < ?m. \<not> holds k \<and> \<not> late k" by (auto dest: not_less_Least)
  show "holds ?m \<or> late ?m" by (rule LeastI [of _ n]) (simp add: assms)
qed

text \<open>C27. Waiting ends. If the deadline passes, \<open>wait_for_min_candidates\<close> returns at the first poll that sees enough
  candidates or finds the deadline passed: successfully exactly when that poll sees enough candidates.
\<close>

theorem wait_for_min_candidates_returns:
  assumes "late n"
  shows "\<exists>m \<le> n.
     (let enough = (\<lambda>i. unat min_candidates \<le> length (candidates_of cfg (clock i) (seen i))) in
      (\<forall>k < m. \<not> enough k \<and> \<not> late k) \<and> (enough m \<or> late m) \<and>
      wait_for_min_candidates cfg seen clock late min_candidates =
        Some (if enough m then Inr () else Inl (''timed out waiting for '' @ show_u64 min_candidates @ '' discovered nodes'')))"
proof -
  define enough where "enough = (\<lambda>i. unat min_candidates \<le> length (candidates_of cfg (clock i) (seen i)))"
  obtain m where m: "m \<le> n" "\<forall>k < m. \<not> enough k \<and> \<not> late k" "enough m \<or> late m"
    using assms by (rule poll_until_first)
  have "unat min_candidates \<le> length (all_nodes cfg (clock i) (seen i)) \<longleftrightarrow> enough i" for i
    by (simp add: enough_def all_nodes_def sort_keys)
  then have "wait_for_min_candidates cfg seen clock late min_candidates =
      Some (if enough m then Inr () else Inl (''timed out waiting for '' @ show_u64 min_candidates @ '' discovered nodes''))"
    unfolding wait_for_min_candidates_def using m by (subst poll_until_stops [where m = m]) auto
  with m show ?thesis unfolding Let_def enough_def by blast
qed

subsection \<open>A small mesh\<close>

text \<open>Two peers as in the test of the source: the nearer one is overloaded, the other one is healthy.\<close>

definition plain_text :: "(string, string) libp2p_text" where
  "plain_text = \<lparr>parse_peer_id = Inr, peer_id_string = (\<lambda>p. p), parse_multiaddr = Some, multiaddr_string = (\<lambda>ad. ad)\<rparr>"

definition sample_health :: "bool \<Rightarrow> health_response" where
  "sample_health overloaded =
     \<lparr>hr_observed_at_unix_ms = 0, hr_node_id = [], hr_addr = [], hr_ready = True, hr_peer_count = 1, hr_known_nodes = 1,
      hr_sync_gap = 0, hr_sync_gap_per_bucket = fmempty, hr_inflight_requests = 0, hr_completed_requests = 0,
      hr_failed_requests = 0, hr_overloaded = overloaded, hr_event_count = 0, hr_total_balance = 0\<rparr>"

definition sample_peer :: "string \<Rightarrow> u64 \<Rightarrow> bool \<Rightarrow> string peer_record" where
  "sample_peer pid rtt overloaded =
     \<lparr>pr_node_id = Some pid, pr_peer_id = pid, pr_advertise_addr = None, pr_ping_rtt = Some (from_millis rtt),
      pr_listen_addrs = [''/ip4/'' @ pid], pr_last_discovered_at_unix_ms = 0, pr_last_health_at_unix_ms = Some 0,
      pr_health = Some (sample_health overloaded), pr_failure_count = 0, pr_cooldown_until_unix_ms = 0\<rparr>"

definition sample_peers :: "string peer_table" where
  "sample_peers = fmupd ''busy'' (sample_peer ''busy'' 5 True) (fmupd ''calm'' (sample_peer ''calm'' 7 False) fmempty)"

definition sample_config :: "string mesh_client_config" where
  "sample_config = mesh_client_config_new [''/ip4/busy'']"

lemma sample_entries:
  "fm_entries sample_peers = [(''busy'', sample_peer ''busy'' 5 True), (''calm'', sample_peer ''calm'' 7 False)]"
  by (simp add: sample_peers_def fm_entries_upd_fresh)

lemma sample_collect:
  "collect_nodes sample_config 10 True sample_peers =
     [into_node (sample_peer ''busy'' 5 True) ''busy'', into_node (sample_peer ''calm'' 7 False) ''calm'']"
  by (simp add: collect_nodes_def sample_entries List.map_filter_simps sample_peer_def sample_config_def
      mesh_client_config_new_def saturating_sub_def duration_ms_def from_secs_def)

abbreviation busy_node :: "string mesh_node" where
  "busy_node \<equiv> into_node (sample_peer ''busy'' 5 True) ''busy''"

abbreviation calm_node :: "string mesh_node" where
  "calm_node \<equiv> into_node (sample_peer ''calm'' 7 False) ''calm''"

lemma sample_candidates: "candidates_of sample_config 10 sample_peers = [busy_node, calm_node]"
  by (simp add: candidates_of_def Let_def sample_collect)

lemma sample_preferred:
  "\<not> preferred_health sample_config 10 busy_node" "preferred_health sample_config 10 calm_node"
  by (simp_all add: preferred_health_def into_node_def sample_peer_def sample_health_def sample_config_def
      mesh_client_config_new_def saturating_sub_def duration_ms_def from_secs_def)

lemma sample_list_order: "list_key busy_node \<le> list_key calm_node"
  by (simp add: list_key_def rtt_or_max_def into_node_def sample_peer_def from_millis_def less_eq_prod_def)

lemma sample_selection_order: "selection_key sample_config 10 calm_node < selection_key sample_config 10 busy_node"
  by (simp add: selection_key_def sample_preferred less_prod_def)

lemma sample_request_order: "request_order sample_config 10 10 sample_peers = [calm_node, busy_node]"
  using sample_selection_order
  by (simp add: request_order_def all_nodes_def sort_keys sample_candidates sample_list_order not_le)

lemma sample_shortlist: "shortlist sample_config 10 sample_peers = [busy_node, calm_node]"
proof -
  have "top_k sample_config = 3" by (simp add: sample_config_def mesh_client_config_new_def)
  then show ?thesis by (simp add: shortlist_take sample_candidates sample_list_order)
qed

lemma sample_best: "best_node sample_config 10 10 sample_peers = Some calm_node"
  using sample_selection_order by (simp add: best_node_hd sample_candidates sample_shortlist not_le)


text \<open>A mesh in which the healthy node is down: its request fails and the busy node answers.\<close>

definition sample_ask :: "string asker" where
  "sample_ask i p req = (if p = ''calm'' then Inl ''connection refused'' else Inr (Inr (RsHeads fmempty)))"

theorem request_best_fails_over_witness:
  "fst (request_best_with_node plain_text sample_config sample_ask (\<lambda>_ ps. ps) (\<lambda>_. 11) 10 10 RqHeads sample_peers) =
     Inr (busy_node, Inr (RsHeads fmempty)) \<and>
   accepted plain_text sample_ask RqHeads 0 calm_node = None \<and>
   accepted plain_text sample_ask RqHeads 1 busy_node = Some (Inr (RsHeads fmempty))"
proof -
  have a: "accepted plain_text sample_ask RqHeads 0 calm_node = None"
      "accepted plain_text sample_ask RqHeads (Suc 0) busy_node = Some (Inr (RsHeads fmempty))"
    by (simp_all add: accepted_def plain_text_def sample_ask_def into_node_def sample_peer_def)
  show ?thesis
    using request_best_fails_over [where cfg = sample_config and peers = sample_peers and now_ms = 10 and sort_ms = 10
        and T = plain_text and ask = sample_ask and drift = "\<lambda>_ ps. ps" and clock = "\<lambda>_. 11" and req = RqHeads] a
    by (auto simp: Let_def sample_request_order All_less_Suc2 Ex_less_Suc2 less_Suc_eq nth_Cons' split: sum.splits if_splits)
qed

theorem wait_for_min_candidates_returns_witness:
  "wait_for_min_candidates sample_config (\<lambda>i. if i = 0 then fmempty else sample_peers) (\<lambda>_. 10) (\<lambda>i. 3 \<le> i) 2 = Some (Inr ())"
proof -
  have "candidates_of sample_config 10 fmempty = []" by (simp add: candidates_of_empty)
  then show ?thesis
    using wait_for_min_candidates_returns [where cfg = sample_config and n = 3 and min_candidates = 2
        and clock = "\<lambda>_. 10" and late = "\<lambda>i. 3 \<le> i" and seen = "\<lambda>i. if i = 0 then fmempty else sample_peers"]
    by (auto simp: Let_def sample_candidates split: if_splits)
qed

end
