(* ===== verification/Mesh_Loop.thy ===== *)
theory Mesh_Loop
  imports Mesh_Selection
begin

section \<open>The event loop and the cache of the mesh client\<close>

subsection \<open>What a turn of the loop keeps\<close>

text \<open>
  Three accounts are kept along a run: the addresses dialled, the callers that wait for an
  answer, and the keys of the peer table. \<open>turn_ok\<close> says that a state change with its actions
  keeps all three; turns compose.
\<close>

fun dial_text :: "('p, 'a) libp2p_text \<Rightarrow> ('p, 'a, 'r, 'c) mesh_action \<Rightarrow> string option" where
  "dial_text T (Dial ad) = Some (multiaddr_string T ad)"
| "dial_text T _ = None"

definition dials :: "('p, 'a) libp2p_text \<Rightarrow> ('p, 'a, 'r, 'c) mesh_action list \<Rightarrow> string list" where
  "dials T acts = List.map_filter (dial_text T) acts"

fun replies_to :: "'c \<Rightarrow> ('p, 'a, 'r, 'c) mesh_action \<Rightarrow> bool" where
  "replies_to c (Reply c' _) = (c' = c)"
| "replies_to c _ = False"

definition replies :: "'c \<Rightarrow> ('p, 'a, 'r, 'c) mesh_action list \<Rightarrow> nat" where
  "replies c acts = length (filter (replies_to c) acts)"

fun asks_for :: "'c \<Rightarrow> ('p, 'a, 'r, 'c) mesh_event \<Rightarrow> bool" where
  "asks_for c (Request _ _ c') = (c' = c)"
| "asks_for c _ = False"

definition requests :: "'c \<Rightarrow> ('p, 'a, 'r, 'c) mesh_event list \<Rightarrow> nat" where
  "requests c evs = length (filter (asks_for c) evs)"

definition waiting :: "'c \<Rightarrow> ('a, 'r, 'c) mesh_state \<Rightarrow> nat" where
  "waiting c st = card {rid. fmlookup (ms_pending_rpc st) rid = Some c}"

definition turn_ok ::
  "('p, 'a) libp2p_text \<Rightarrow> ('a, 'r, 'c) mesh_state \<Rightarrow> ('a, 'r, 'c) mesh_state \<times> ('p, 'a, 'r, 'c) mesh_action list \<Rightarrow> bool" where
  "turn_ok T st res \<longleftrightarrow>
     distinct (dials T (snd res)) \<and>
     set (dials T (snd res)) \<inter> fset (ms_dialed_addrs st) = {} \<and>
     fset (ms_dialed_addrs (fst res)) = fset (ms_dialed_addrs st) \<union> set (dials T (snd res)) \<and>
     (\<forall>c. waiting c (fst res) + replies c (snd res) = waiting c st) \<and>
     (keyed (ms_peers st) \<longrightarrow> keyed (ms_peers (fst res)))"

lemma dials_simps [simp]:
  "dials T [] = []" "dials T (x # xs) = (case dial_text T x of Some s \<Rightarrow> s # dials T xs | None \<Rightarrow> dials T xs)"
  "dials T (xs @ ys) = dials T xs @ dials T ys"
  by (auto simp: dials_def List.map_filter_def split: option.splits)

lemma replies_simps [simp]:
  "replies c [] = 0" "replies c (x # xs) = (if replies_to c x then Suc (replies c xs) else replies c xs)"
  "replies c (xs @ ys) = replies c xs + replies c ys"
  by (auto simp: replies_def)

lemma requests_simps [simp]:
  "requests c [] = 0" "requests c (evs @ [ev]) = requests c evs + (if asks_for c ev then 1 else 0)"
  by (auto simp: requests_def)

lemma turn_ok_trans:
  assumes "turn_ok T st (st1, o1)" "turn_ok T st1 (st2, o2)"
  shows "turn_ok T st (st2, o1 @ o2)"
proof -
  have "waiting c st2 + (replies c o1 + replies c o2) = waiting c st" for c
  proof -
    have "waiting c st1 + replies c o1 = waiting c st" "waiting c st2 + replies c o2 = waiting c st1"
      using assms by (simp_all add: turn_ok_def)
    then show ?thesis by simp
  qed
  with assms show ?thesis by (auto simp: turn_ok_def)
qed

lemma turn_ok_for_each:
  assumes "\<And>x st. x \<in> set xs \<Longrightarrow> turn_ok T st (f x st)"
  shows "turn_ok T st (for_each f xs st)"
  using assms
proof (induction xs arbitrary: st)
  case Nil
  then show ?case by (simp add: turn_ok_def)
next
  case (Cons x xs)
  obtain st1 o1 st2 o2 where "f x st = (st1, o1)" "for_each f xs st1 = (st2, o2)" by fastforce
  with Cons.prems [of x st] Cons.IH [of st1] Cons.prems show ?case
    by (auto intro: turn_ok_trans)
qed

text \<open>A turn that touches neither the waiting callers nor the dialled addresses.\<close>

lemma turn_ok_quiet:
  assumes "ms_dialed_addrs st' = ms_dialed_addrs st" "ms_pending_rpc st' = ms_pending_rpc st"
    and "dials T acts = []" "\<And>c. replies c acts = 0"
    and "keyed (ms_peers st) \<Longrightarrow> keyed (ms_peers st')"
  shows "turn_ok T st (st', acts)"
  using assms by (simp add: turn_ok_def waiting_def)

lemma turn_ok_update_peers:
  "(keyed (ms_peers st) \<Longrightarrow> keyed ps) \<Longrightarrow> turn_ok T (st\<lparr>ms_peers := ps\<rparr>) res \<Longrightarrow> turn_ok T st res"
  by (auto simp: turn_ok_def waiting_def)

lemma turn_ok_each_peers:
  "(\<And>x st. turn_ok T st (f x st)) \<Longrightarrow> (keyed (ms_peers st) \<Longrightarrow> keyed ps) \<Longrightarrow>
     turn_ok T st (for_each f xs (st\<lparr>ms_peers := ps\<rparr>))"
  by (rule turn_ok_update_peers) (auto intro: turn_ok_for_each)

lemma turn_ok_maybe_dial: "turn_ok T st (maybe_dial T ad st)"
  by (simp add: turn_ok_def maybe_dial_def waiting_def)

lemma turn_ok_add_and_dial: "turn_ok T st (add_and_dial T p ad st)"
  using turn_ok_maybe_dial [of T st ad]
  by (auto simp: add_and_dial_def turn_ok_def split: prod.splits)

lemma turn_ok_send_health: "turn_ok T st (send_health T rp st)"
  unfolding send_health_def by (rule turn_ok_quiet) auto

subsection \<open>The handlers\<close>

lemma keyed_upd: "keyed peers \<Longrightarrow> pr_peer_id r = k \<Longrightarrow> keyed (fmupd k r peers)"
  by (auto simp: keyed_iff)

lemma entry_or_id: "keyed peers \<Longrightarrow> pr_peer_id (entry_or r peers) = pr_peer_id r"
  by (auto simp: entry_or_def keyed_iff split: option.splits)

lemma blank_peer_id [simp]: "pr_peer_id (blank_peer pid t) = pid"
  by (simp add: blank_peer_def)

lemma keyed_fmdrop: "keyed peers \<Longrightarrow> keyed (fmdrop k peers)"
  by (auto simp: keyed_iff)

lemma keyed_fmdrops: "keyed peers \<Longrightarrow> keyed (fold fmdrop ks peers)"
  by (induction ks arbitrary: peers) (simp_all add: keyed_fmdrop)

lemma turn_ok_on_identify: "turn_ok T st (on_identify T t p agent addrs st)"
proof -
  let ?r0 = "entry_or (blank_peer (peer_id_string T p) t) (ms_peers st)"
  define r1 where "r1 = (case parse_agent_version agent of
      Some m \<Rightarrow> ?r0\<lparr>pr_node_id := Some (pm_node_id m), pr_advertise_addr := pm_advertise_addr m\<rparr> | None \<Rightarrow> ?r0)"
  have "pr_peer_id r1 = pr_peer_id ?r0" by (simp add: r1_def split: option.split)
  then have "keyed (ms_peers st) \<Longrightarrow> keyed (fmupd (peer_id_string T p) (r1\<lparr>pr_last_discovered_at_unix_ms := t,
      pr_listen_addrs := merge_listen_addrs (pr_listen_addrs r1) addrs\<rparr>) (ms_peers st))"
    by (intro keyed_upd) (simp_all add: entry_or_id)
  then show ?thesis unfolding on_identify_def Let_def r1_def [symmetric]
    by (rule turn_ok_each_peers [OF turn_ok_add_and_dial])
qed

lemma turn_ok_on_routing: "turn_ok T st (on_routing T t p addrs st)"
  unfolding on_routing_def Let_def
  by (rule turn_ok_each_peers [OF turn_ok_maybe_dial], rule keyed_upd) (simp_all add: entry_or_id)

lemma turn_ok_member_addr: "turn_ok T st (member_addr T p raw st)"
proof (cases "parse_multiaddr T raw")
  case None
  then show ?thesis by (simp add: member_addr_def turn_ok_def)
next
  case (Some ad)
  show ?thesis unfolding member_addr_def Some option.case
    by (rule turn_ok_update_peers [OF _ turn_ok_add_and_dial]) (auto intro!: keyed_modify_peer)
qed

lemma turn_ok_nothing: "turn_ok T st (st, [])"
  by (simp add: turn_ok_def)

lemma turn_ok_on_member: "turn_ok T st (on_member T me tm st)"
proof (cases "parse_peer_id T (mi_peer_id (snd tm))")
  case (Inr p)
  have "keyed (ms_peers st) \<Longrightarrow> keyed (fmupd (peer_id_string T p)
          ((entry_or (blank_peer (peer_id_string T p) (fst tm)) (ms_peers st))
             \<lparr>pr_node_id := Some (mi_node_id (snd tm)), pr_advertise_addr := mi_advertise_addr (snd tm),
              pr_last_discovered_at_unix_ms := fst tm\<rparr>) (ms_peers st))"
    by (rule keyed_upd) (auto simp: entry_or_id)
  with Inr show ?thesis
    by (simp add: on_member_def Let_def turn_ok_nothing turn_ok_each_peers turn_ok_member_addr)
qed (simp add: on_member_def turn_ok_nothing)

lemma turn_ok_on_health_tick: "turn_ok T st (on_health_tick T cfg t ids st)"
  unfolding on_health_tick_def Let_def
  by (rule turn_ok_each_peers) (auto simp: prune_stale_def intro!: keyed_fmdrops turn_ok_send_health)

lemma turn_ok_on_established: "turn_ok T st (on_established T rid p ad num st)"
  by (auto simp: on_established_def send_health_def intro!: turn_ok_quiet)

lemma finite_pending: "finite {rid. fmlookup m rid = Some c}"
  by (rule finite_subset [of _ "fset (fmdom m)"]) (auto intro: fmdomI)

lemma waiting_drop:
  assumes "fmlookup (ms_pending_rpc st) rid = Some c"
  shows "waiting c' (st\<lparr>ms_pending_rpc := fmdrop rid (ms_pending_rpc st)\<rparr>) + (if c = c' then 1 else 0) = waiting c' st"
proof (cases "c = c'")
  case True
  have "{r. fmlookup (fmdrop rid (ms_pending_rpc st)) r = Some c'} = {r. fmlookup (ms_pending_rpc st) r = Some c'} - {rid}"
    by auto
  moreover have "rid \<in> {r. fmlookup (ms_pending_rpc st) r = Some c'}" using assms True by simp
  ultimately show ?thesis
    using True card_Suc_Diff1 [OF finite_pending, of rid "ms_pending_rpc st" c'] by (simp add: waiting_def)
next
  case False
  have "{r. fmlookup (fmdrop rid (ms_pending_rpc st)) r = Some c'} = {r. fmlookup (ms_pending_rpc st) r = Some c'}"
    using assms False by auto
  with False show ?thesis by (simp add: waiting_def)
qed

lemma turn_ok_reply:
  "fmlookup (ms_pending_rpc st) rid = Some c \<Longrightarrow>
     turn_ok T st (st\<lparr>ms_pending_rpc := fmdrop rid (ms_pending_rpc st)\<rparr>, [Reply c ans])"
  using waiting_drop [of st rid c] by (fastforce simp: turn_ok_def split: if_splits)

lemma keyed_on_health_response: "keyed peers \<Longrightarrow> keyed (on_health_response cfg t pid res peers)"
  by (auto simp: on_health_response_def intro!: keyed_modify_peer split: sum.splits node_rpc_response.splits)

lemma turn_ok_on_response: "turn_ok T st (on_response cfg t rid res st)"
  by (auto simp: on_response_def turn_ok_reply intro!: turn_ok_quiet keyed_on_health_response split: option.splits)

lemma turn_ok_on_outbound_failure: "turn_ok T st (on_outbound_failure cfg t rid err st)"
  by (auto simp: on_outbound_failure_def turn_ok_reply intro!: turn_ok_quiet split: option.splits)

lemma turn_ok_on_ping: "turn_ok T st (st\<lparr>ms_peers := on_ping T t p result (ms_peers st)\<rparr>, [])"
  by (rule turn_ok_quiet) (auto simp: on_ping_def intro!: keyed_modify_peer split: option.splits)

lemma mesh_step_turn_ok:
  assumes "\<And>p req c. ev \<noteq> Request p req c"
  shows "turn_ok T st (mesh_step T cfg me clock ids ev st)"
  using assms
  by (cases ev)
    (auto simp: turn_ok_on_health_tick turn_ok_on_established turn_ok_on_identify turn_ok_on_routing turn_ok_on_ping
      turn_ok_on_response turn_ok_on_outbound_failure turn_ok_nothing intro!: turn_ok_for_each turn_ok_on_member)

subsection \<open>Runs\<close>

text \<open>
  A run starts with \<open>mesh_start\<close>. Its steps are turns of the loop, in which libp2p hands out request ids that
  are not in use, and the marks that callers of \<open>request_best\<close> put on peers.
\<close>

inductive mesh_run ::
  "('p, 'a::linorder) libp2p_text \<Rightarrow> (string \<Rightarrow> cached_peer_record list option) \<Rightarrow> 'a mesh_client_config \<Rightarrow> 'p \<Rightarrow>
     ('p, 'a, 'r, 'c) mesh_event list \<Rightarrow> ('p, 'a, 'r, 'c) mesh_action list \<Rightarrow> ('a, 'r, 'c) mesh_state \<Rightarrow> bool"
  for T read cfg me where
  run_start: "mesh_start T read cfg = Inr (st, acts) \<Longrightarrow> mesh_run T read cfg me [] acts st"
| run_turn: "mesh_run T read cfg me evs acts st \<Longrightarrow> (\<And>i. ids i |\<notin>| fmdom (ms_pending_rpc st)) \<Longrightarrow>
     mesh_step T cfg me clock ids ev st = (st', acts') \<Longrightarrow> mesh_run T read cfg me (evs @ [ev]) (acts @ acts') st'"
| run_failure: "mesh_run T read cfg me evs acts st \<Longrightarrow>
     mesh_run T read cfg me evs acts (st\<lparr>ms_peers := mark_failure cfg now_ms pid (ms_peers st)\<rparr>)"
| run_success: "mesh_run T read cfg me evs acts st \<Longrightarrow>
     mesh_run T read cfg me evs acts (st\<lparr>ms_peers := mark_success pid (ms_peers st)\<rparr>)"

definition run_inv ::
  "('p, 'a) libp2p_text \<Rightarrow> ('p, 'a, 'r, 'c) mesh_event list \<Rightarrow> ('p, 'a, 'r, 'c) mesh_action list \<Rightarrow> ('a, 'r, 'c) mesh_state \<Rightarrow> bool" where
  "run_inv T evs acts st \<longleftrightarrow>
     keyed (ms_peers st) \<and> distinct (dials T acts) \<and> set (dials T acts) = fset (ms_dialed_addrs st) \<and>
     (\<forall>c. waiting c st + replies c acts = requests c evs)"

lemma keyed_fmempty [simp]: "keyed fmempty"
  by (simp add: keyed_iff)

lemma keyed_load_entries: "keyed (snd acc) \<Longrightarrow> keyed (snd (fold (load_entry T) cs acc))"
proof (induction cs arbitrary: acc)
  case (Cons x cs)
  have "keyed (snd (load_entry T x acc))"
    using Cons.prems by (auto simp: load_entry_def intro!: keyed_upd split: option.split)
  then show ?case by (simp add: Cons.IH)
qed simp

lemma keyed_load_cache: "keyed (snd (load_cache T read path fmempty))"
  by (simp add: load_cache_def keyed_load_entries split: option.split)

lemma run_inv_start:
  assumes "mesh_start T read cfg = Inr (st, acts)"
  shows "run_inv T [] acts st"
proof -
  obtain addrs peers where lc: "load_cache T read (cache_path cfg) fmempty = (addrs, peers)" by fastforce
  let ?s0 = "\<lparr>ms_peers = peers, ms_dialed_addrs = {||}, ms_pending_rpc = fmempty, ms_pending_health = fmempty\<rparr>"
  have "keyed peers" using keyed_load_cache [of T read "cache_path cfg"] lc by simp
  moreover have "for_each (maybe_dial T) (bootstrap_peers cfg @ addrs) ?s0 = (st, acts)"
    using assms lc by (simp add: mesh_start_def split: if_splits)
  with turn_ok_for_each [where f = "maybe_dial T" and T = T and xs = "bootstrap_peers cfg @ addrs" and st = ?s0]
    turn_ok_maybe_dial
  have "turn_ok T ?s0 (st, acts)" by metis
  ultimately show ?thesis by (auto simp: run_inv_def turn_ok_def waiting_def)
qed

lemma run_inv_turn:
  assumes "run_inv T evs acts st" "turn_ok T st (st', acts')" "\<And>c. \<not> asks_for c ev"
  shows "run_inv T (evs @ [ev]) (acts @ acts') st'"
proof -
  have "waiting c st' + replies c acts' = waiting c st" for c using assms(2) by (simp add: turn_ok_def)
  moreover have "waiting c st + replies c acts = requests c evs" for c using assms(1) by (simp add: run_inv_def)
  ultimately have "waiting c st' + (replies c acts + replies c acts') = requests c evs" for c
    by (metis add.assoc add.commute)
  with assms show ?thesis by (auto simp: run_inv_def turn_ok_def)
qed

lemma waiting_insert:
  assumes "rid |\<notin>| fmdom (ms_pending_rpc st)"
  shows "waiting c' (st\<lparr>ms_pending_rpc := fmupd rid c (ms_pending_rpc st)\<rparr>) = waiting c' st + (if c = c' then 1 else 0)"
proof -
  let ?st = "st\<lparr>ms_pending_rpc := fmupd rid c (ms_pending_rpc st)\<rparr>"
  have "fmlookup (ms_pending_rpc st) rid = None" using assms by (simp add: fmdom_notD)
  then have "fmdrop rid (ms_pending_rpc ?st) = ms_pending_rpc st" by (intro fmap_ext) auto
  then have "?st\<lparr>ms_pending_rpc := fmdrop rid (ms_pending_rpc ?st)\<rparr> = st" by simp
  with waiting_drop [of ?st rid c c'] show ?thesis by simp
qed

lemma run_inv_request:
  assumes "run_inv T evs acts st" "rid |\<notin>| fmdom (ms_pending_rpc st)"
  shows "run_inv T (evs @ [Request p req c]) (acts @ [SendRpc rid p req])
     (st\<lparr>ms_pending_rpc := fmupd rid c (ms_pending_rpc st)\<rparr>)"
  using assms waiting_insert [OF assms(2), of _ c] by (auto simp: run_inv_def)

lemma run_inv_peers: "run_inv T evs acts st \<Longrightarrow> keyed ps \<Longrightarrow> run_inv T evs acts (st\<lparr>ms_peers := ps\<rparr>)"
  by (simp add: run_inv_def waiting_def)

lemma mesh_run_inv: "mesh_run T read cfg me evs acts st \<Longrightarrow> run_inv T evs acts st"
proof (induction rule: mesh_run.induct)
  case (run_turn evs acts st ids clock ev st' acts')
  show ?case
  proof (cases "\<exists>p req c. ev = Request p req c")
    case True
    then show ?thesis using run_turn by (auto intro!: run_inv_request [simplified])
  next
    case False
    then have "turn_ok T st (st', acts')"
      using mesh_step_turn_ok [of ev T st cfg me clock ids] run_turn by auto
    then show ?thesis using run_turn(4) False by (intro run_inv_turn) (auto elim: asks_for.elims)
  qed
qed (auto simp: run_inv_start intro!: run_inv_peers, auto simp: run_inv_def)

text \<open>C19. In every run of the event loop, each address is dialled at most once, the peer table stays keyed by peer id, and
  each caller is answered exactly once: the answers sent on a reply channel and the requests still
  waiting on it add up to the requests made on it.
\<close>

theorem mesh_run_accounts:
  assumes "mesh_run T read cfg me evs acts st"
  shows "distinct (dials T acts) \<and> keyed (ms_peers st) \<and>
         waiting c st + replies c acts = requests c evs"
  using mesh_run_inv [OF assms] by (simp add: run_inv_def)

subsection \<open>The cache\<close>

text \<open>Cached round-trip times have millisecond precision.\<close>

definition ping_in_ms :: "'a peer_record \<Rightarrow> 'a peer_record" where
  "ping_in_ms r = r\<lparr>pr_ping_rtt := map_option (\<lambda>d. from_millis (duration_ms d)) (pr_ping_rtt r)\<rparr>"

lemma parse_all_inverse:
  "(\<And>ad. parse_multiaddr T (multiaddr_string T ad) = Some ad) \<Longrightarrow> parse_all T (map (multiaddr_string T) ads) = Some ads"
  by (induction ads) simp_all

lemma from_to_cached:
  "(\<And>ad. parse_multiaddr T (multiaddr_string T ad) = Some ad) \<Longrightarrow> from_cached T (to_cached T r) = Some (ping_in_ms r)"
  by (simp add: from_cached_def to_cached_def parse_all_inverse ping_in_ms_def option.map_comp comp_def)

lemma load_entries:
  assumes "\<And>ad. parse_multiaddr T (multiaddr_string T ad) = Some ad"
  shows "fold (load_entry T) (map (\<lambda>x. to_cached T (snd x)) xs) (ads, ps) =
     (ads @ concat (map (\<lambda>x. pr_listen_addrs (snd x)) xs),
      fold (\<lambda>x. fmupd (pr_peer_id (snd x)) (ping_in_ms (snd x))) xs ps)"
proof (induction xs arbitrary: ads ps)
  case (Cons x xs)
  have "load_entry T (to_cached T (snd x)) (ads, ps) =
      (ads @ pr_listen_addrs (snd x), fmupd (pr_peer_id (snd x)) (ping_in_ms (snd x)) ps)"
    by (simp add: load_entry_def from_to_cached [OF assms] ping_in_ms_def)
  with Cons.IH show ?case by simp
qed simp

lemma from_millis_duration_ms:
  "d div 1000000 < 2 ^ 64 \<Longrightarrow> from_millis (duration_ms d) \<le> d \<and> d < from_millis (duration_ms d) + 1000000"
proof -
  assume "d div 1000000 < 2 ^ 64"
  then have "from_millis (duration_ms d) = d div 1000000 * 1000000"
    by (simp add: from_millis_def duration_ms_def unat_of_nat_u64)
  moreover have "d = d div 1000000 * 1000000 + d mod 1000000" "d mod 1000000 < 1000000" by simp_all
  ultimately show ?thesis by linarith
qed

lemma fold_entries_fmmap:
  assumes "keyed peers"
  shows "fold (\<lambda>x. fmupd (pr_peer_id (snd x)) (f (snd x))) (fm_entries peers) fmempty = fmmap f peers"
proof (rule fmap_ext)
  fix k
  have eq: "fold (\<lambda>x. fmupd (pr_peer_id (snd x)) (f (snd x))) (fm_entries peers) fmempty =
      fold (\<lambda>x. fmupd (fst x) (f (snd x))) (fm_entries peers) fmempty"
    using assms by (intro fold_cong refl ext) (auto simp: keyed_iff)
  show "fmlookup (fold (\<lambda>x. fmupd (pr_peer_id (snd x)) (f (snd x))) (fm_entries peers) fmempty) k = fmlookup (fmmap f peers) k"
  proof (cases "find (\<lambda>x. fst x = k) (fm_entries peers)")
    case None
    then have "fmlookup peers k = None" by (fastforce simp: find_None_iff)
    with None show ?thesis unfolding eq by (simp add: lookup_fold_fmupd)
  next
    case (Some x)
    then have "x \<in> set (fm_entries peers)" "fst x = k" by (auto simp: find_Some_iff)
    then have "fmlookup peers k = Some (snd x)" by (metis in_fm_entries prod.collapse)
    with Some show ?thesis unfolding eq by (simp add: lookup_fold_fmupd)
  qed
qed

text \<open>Round trip of the peer cache. If libp2p reads back its own address texts and the file is read as it was written, a restarted
  client loads exactly the peers it had, with round-trip times cut to whole milliseconds, and bootstraps from
  all their addresses.
\<close>

theorem cache_round_trip:
  assumes "\<And>ad. parse_multiaddr T (multiaddr_string T ad) = Some ad"
    and "keyed peers" "write_cache T cfg peers = Some (f, file)" "read f = Some file"
  shows "load_cache T read (cache_path cfg) fmempty =
     (concat (map pr_listen_addrs (fm_values peers)), fmmap ping_in_ms peers)"
proof -
  from assms(3) have f: "cache_path cfg = Some f" "file = map (\<lambda>x. to_cached T (snd x)) (fm_entries peers)"
    by (auto simp: write_cache_def case_prod_unfold split: option.splits)
  then show ?thesis
    using assms(4) by (simp add: load_cache_def load_entries [OF assms(1)] fold_entries_fmmap [OF assms(2)]
        fm_values_def comp_def)
qed

text \<open>A run: the client starts, asks one node and gets an answer.\<close>

definition running_config :: "string mesh_client_config" where
  "running_config = sample_config\<lparr>psk := Some []\<rparr>"

theorem mesh_run_accounts_witness:
  "\<exists>acts (st :: (string, nat, nat) mesh_state).
     mesh_run plain_text (\<lambda>_. None) running_config ''me''
       [Request ''busy'' RqHeads 7, Response 0 (Inr (RsHeads fmempty))] acts st \<and>
     replies 7 acts = 1 \<and> waiting 7 st = 0 \<and> dials plain_text acts = [''/ip4/busy'']"
proof -
  let ?run = "mesh_run plain_text (\<lambda>_. None) running_config ''me''"
  let ?s0 = "\<lparr>ms_peers = fmempty, ms_dialed_addrs = {|''/ip4/busy''|}, ms_pending_rpc = fmempty, ms_pending_health = fmempty\<rparr>
    :: (string, nat, nat) mesh_state"
  let ?s1 = "?s0\<lparr>ms_pending_rpc := fmupd 0 7 fmempty\<rparr>"
  let ?a0 = "[Dial ''/ip4/busy''] :: (string, string, nat, nat) mesh_action list"
  let ?evs = "[Request ''busy'' RqHeads 7, Response 0 (Inr (RsHeads fmempty))] :: (string, string, nat, nat) mesh_event list"
  let ?acts = "(?a0 @ [SendRpc 0 ''busy'' RqHeads]) @ [Reply 7 (Inr (Inr (RsHeads fmempty)))]"
  have "?run [] ?a0 ?s0"
    by (rule run_start) (simp add: mesh_start_def running_config_def sample_config_def mesh_client_config_new_def
        load_cache_def maybe_dial_def plain_text_def)
  then have "?run ([] @ [Request ''busy'' RqHeads 7]) (?a0 @ [SendRpc 0 ''busy'' RqHeads]) ?s1"
    by (rule run_turn [where ids = "\<lambda>i. i" and clock = "\<lambda>_. 10"]) auto
  then have r: "?run (([] @ [Request ''busy'' RqHeads 7]) @ [Response 0 (Inr (RsHeads fmempty))]) ?acts
      (?s1\<lparr>ms_pending_rpc := fmdrop 0 (ms_pending_rpc ?s1)\<rparr>)"
    by (rule run_turn [where ids = "\<lambda>i. Suc i" and clock = "\<lambda>_. 10"]) (auto simp: on_response_def)
  have w: "waiting 7 (?s1\<lparr>ms_pending_rpc := fmdrop 0 (ms_pending_rpc ?s1)\<rparr>) + replies 7 ?acts = requests 7 ?evs"
    using mesh_run_accounts [OF r, of 7] by simp
  have "requests 7 ?evs = 1" "replies 7 ?acts = 1" "dials plain_text ?acts = [''/ip4/busy'']"
    by (simp_all add: requests_def plain_text_def)
  with r w show ?thesis by (intro exI [of _ ?acts] exI conjI) auto
qed

definition cached_config :: "string mesh_client_config" where
  "cached_config = sample_config\<lparr>cache_path := Some ''peers.json''\<rparr>"

theorem cache_round_trip_witness:
  "load_cache plain_text (\<lambda>_. Some (snd (the (write_cache plain_text cached_config sample_peers)))) (cache_path cached_config) fmempty =
     ([''/ip4/busy'', ''/ip4/calm''], fmmap ping_in_ms sample_peers) \<and>
   keyed sample_peers \<and> (\<forall>ad. parse_multiaddr plain_text (multiaddr_string plain_text ad) = Some ad)"
proof -
  have k: "keyed sample_peers" by (auto simp: keyed_iff sample_peers_def sample_peer_def)
  have t: "\<And>ad. parse_multiaddr plain_text (multiaddr_string plain_text ad) = Some ad" by (simp add: plain_text_def)
  have "concat (map pr_listen_addrs (fm_values sample_peers)) = [''/ip4/busy'', ''/ip4/calm'']"
    by (simp add: fm_values_def sample_entries sample_peer_def)
  moreover obtain cs where "write_cache plain_text cached_config sample_peers = Some (''peers.json'', cs)"
    by (simp add: write_cache_def cached_config_def)
  ultimately show ?thesis
    using cache_round_trip [OF t k, of cached_config "''peers.json''" cs "\<lambda>_. Some cs"] k t by simp
qed

end
