(* ===== verification/Namespaces.thy ===== *)
theory Namespaces
  imports Wire
begin

section \<open>User namespaces of the gateway (\<open>apps/gateway/src/main.rs\<close>)\<close>

text \<open>
  The gateway stores the buckets of a user under internal names and translates the
  answers of the nodes back. A user id is represented by its text, the 36 characters of a hyphenated
  UUID. This theory holds the names, the translations and the filters, and shows that the
  names of different users never mix.
\<close>

subsection \<open>Texts\<close>

definition strip_prefix :: "string \<Rightarrow> string \<Rightarrow> string option" where
  "strip_prefix p s = (if prefix p s then Some (drop (length p) s) else None)"

text \<open>The text of a UUID: lower-case hexadecimal digits and hyphens, 36 of them.\<close>

definition uuid_char :: "char \<Rightarrow> bool" where
  "uuid_char c \<longleftrightarrow> c \<in> set ''0123456789abcdef-''"

definition uuid_text :: "string \<Rightarrow> bool" where
  "uuid_text u \<longleftrightarrow> length u = 36 \<and> list_all uuid_char u"

text \<open>Hexadecimal decoding: both cases of letters are accepted, an odd length is not.\<close>

definition hex_value :: "char \<Rightarrow> nat option" where
  "hex_value c =
     (let n = of_char c in
      if 48 \<le> n \<and> n \<le> 57 then Some (n - 48)
      else if 97 \<le> n \<and> n \<le> 102 then Some (n - 87)
      else if 65 \<le> n \<and> n \<le> 70 then Some (n - 55)
      else None)"

fun hex_decode :: "string \<Rightarrow> bytes option" where
  "hex_decode [] = Some []"
| "hex_decode [c] = None"
| "hex_decode (c # d # s) =
     (case (hex_value c, hex_value d, hex_decode s) of
        (Some x, Some y, Some r) \<Rightarrow> Some (char_of (16 * x + y) # r)
      | _ \<Rightarrow> None)"

text \<open>Well-formed UTF-8, the check of \<open>String::from_utf8\<close>.\<close>

definition cont_byte :: "nat \<Rightarrow> bool" where
  "cont_byte b \<longleftrightarrow> 0x80 \<le> b \<and> b \<le> 0xBF"

fun utf8_bytes :: "nat list \<Rightarrow> bool" where
  "utf8_bytes [] = True"
| "utf8_bytes (b # bs) =
     (if b < 0x80 then utf8_bytes bs
      else case bs of
        [] \<Rightarrow> False
      | b2 # bs2 \<Rightarrow>
          if 0xC2 \<le> b \<and> b \<le> 0xDF then cont_byte b2 \<and> utf8_bytes bs2
          else (case bs2 of
             [] \<Rightarrow> False
           | b3 # bs3 \<Rightarrow>
               if 0xE0 \<le> b \<and> b \<le> 0xEF
               then cont_byte b2 \<and> (b = 0xE0 \<longrightarrow> 0xA0 \<le> b2) \<and> (b = 0xED \<longrightarrow> b2 \<le> 0x9F) \<and>
                    cont_byte b3 \<and> utf8_bytes bs3
               else (case bs3 of
                  [] \<Rightarrow> False
                | b4 # bs4 \<Rightarrow>
                    0xF0 \<le> b \<and> b \<le> 0xF4 \<and>
                    cont_byte b2 \<and> (b = 0xF0 \<longrightarrow> 0x90 \<le> b2) \<and> (b = 0xF4 \<longrightarrow> b2 \<le> 0x8F) \<and>
                    cont_byte b3 \<and> cont_byte b4 \<and> utf8_bytes bs4)))"

definition valid_utf8 :: "string \<Rightarrow> bool" where
  "valid_utf8 s = utf8_bytes (map of_char s)"

subsection \<open>Internal bucket names\<close>

text \<open>A character that is not kept becomes one underscore, however many bytes it has.\<close>

definition kept_in_namespace :: "char \<Rightarrow> bool" where
  "kept_in_namespace c \<longleftrightarrow>
     (let n = of_char c :: nat in
      (48 \<le> n \<and> n \<le> 57) \<or> (65 \<le> n \<and> n \<le> 90) \<or> (97 \<le> n \<and> n \<le> 122) \<or> n = 95 \<or> n = 45)"

definition sanitize_namespace_value :: "string \<Rightarrow> string" where
  "sanitize_namespace_value v =
     map (\<lambda>c. if kept_in_namespace c then c else CHR ''_'') (filter (\<lambda>c. \<not> is_continuation c) v)"

definition internal_bucket_prefix :: "string \<Rightarrow> string" where
  "internal_bucket_prefix user_id = ''user_'' @ sanitize_namespace_value user_id @ ''__bucket_''"

definition internal_bucket_for_user :: "string \<Rightarrow> string \<Rightarrow> string" where
  "internal_bucket_for_user user_id b = ''user_'' @ sanitize_namespace_value user_id @ ''__bucket_'' @ hex b"

definition external_bucket_from_internal_user :: "string \<Rightarrow> string \<Rightarrow> string option" where
  "external_bucket_from_internal_user user_id internal =
     (case strip_prefix (internal_bucket_prefix user_id) internal of
        None \<Rightarrow> None
      | Some encoded \<Rightarrow>
          (case hex_decode encoded of
             None \<Rightarrow> None
           | Some bs \<Rightarrow> if valid_utf8 bs then Some bs else None))"

definition billing_bucket_for_user :: "string \<Rightarrow> string" where
  "billing_bucket_for_user user_id = ''__billing__'' @ user_id"

subsection \<open>Filters and translations of answers\<close>

definition sum_i64 :: "i64 list \<Rightarrow> i64" where
  "sum_i64 xs = fold (\<lambda>x acc. acc + x) xs 0"

definition filter_balances :: "balances_response \<Rightarrow> string \<Rightarrow> string \<Rightarrow> balances_response" where
  "filter_balances body internal external =
     (let accounts = map (\<lambda>a. a\<lparr>ab_bucket := external\<rparr>) (filter (\<lambda>a. ab_bucket a = internal) (br_accounts body))
      in \<lparr>br_accounts = accounts, br_total_balance = sum_i64 (map ab_balance accounts)\<rparr>)"

definition filter_collapsed ::
  "(string, collapsed_balance) fmap \<Rightarrow> string \<Rightarrow> string \<Rightarrow> (string, collapsed_balance) fmap" where
  "filter_collapsed body internal external =
     fold (\<lambda>(k, v) out.
       case strip_prefix (internal @ '':'') k of
         None \<Rightarrow> out
       | Some acct \<Rightarrow> fmupd (external @ '':'' @ acct) v out) (fm_entries body) fmempty"

definition rewrite_bucket_keys :: "string \<Rightarrow> (string, u64) fmap \<Rightarrow> (string, u64) fmap" where
  "rewrite_bucket_keys user_id m =
     fold (\<lambda>(k, v) out.
       case split_once (CHR 0x09) k of
         None \<Rightarrow> out
       | Some (internal, rest) \<Rightarrow>
           (case external_bucket_from_internal_user user_id internal of
              None \<Rightarrow> out
            | Some external \<Rightarrow> fmupd (external @ [CHR 0x09] @ rest) v out)) (fm_entries m) fmempty"

definition external_event :: "string \<Rightarrow> event \<Rightarrow> event option" where
  "external_event user_id e =
     map_option (\<lambda>b. e\<lparr>bucket := b\<rparr>) (external_bucket_from_internal_user user_id (bucket e))"

definition rewrite_events_to_external :: "string \<Rightarrow> events_filter_response \<Rightarrow> events_filter_response" where
  "rewrite_events_to_external user_id page =
     (let kept = List.map_filter (external_event user_id) (efp_events page);
          dropped = word_of_nat (length (filter (\<lambda>e. external_event user_id e = None) (efp_events page)))
      in page\<lparr>efp_events := kept, efp_total := saturating_sub (efp_total page) dropped,
              efp_heads := rewrite_bucket_keys user_id (efp_heads page),
              efp_max_known_seqs := rewrite_bucket_keys user_id (efp_max_known_seqs page)\<rparr>)"

section \<open>Properties of the names\<close>

lemma hex_digit_value: "n < 16 \<Longrightarrow> hex_value (hex_digit n) = Some n"
proof -
  assume "n < 16"
  then consider "n < 10" | "10 \<le> n" "n < 16" by linarith
  then show ?thesis
    by cases (simp_all add: hex_digit_def hex_value_def Let_def)
qed

lemma hex_Nil [simp]: "hex [] = []"
  by (simp add: hex_def)

lemma hex_Cons [simp]: "hex (c # s) = hex_digit (of_char c div 16) # hex_digit (of_char c mod 16) # hex s"
  by (simp add: hex_def)

lemma hex_decode_hex [simp]: "hex_decode (hex s) = Some s"
proof (induction s)
  case (Cons c s)
  have "of_char c < (256 :: nat)" by simp
  then have "of_char c div 16 < (16 :: nat)" by (simp add: less_mult_imp_div_less)
  then have "hex_value (hex_digit (of_char c div 16)) = Some (of_char c div 16)"
    "hex_value (hex_digit (of_char c mod 16)) = Some (of_char c mod 16)"
    by (auto intro!: hex_digit_value)
  with Cons show ?case by simp
qed simp

lemma hex_inj: "hex s = hex t \<longleftrightarrow> s = t"
  by (metis hex_decode_hex option.inject)

lemma uuid_char_kept: "uuid_char c \<Longrightarrow> kept_in_namespace c \<and> \<not> is_continuation c"
  by (auto simp: uuid_char_def kept_in_namespace_def is_continuation_def Let_def)

lemma sanitize_uuid [simp]: "uuid_text u \<Longrightarrow> sanitize_namespace_value u = u"
proof -
  have "list_all uuid_char u \<Longrightarrow> sanitize_namespace_value u = u"
    by (induction u) (auto simp: sanitize_namespace_value_def dest!: uuid_char_kept)
  then show "uuid_text u \<Longrightarrow> ?thesis" by (simp add: uuid_text_def)
qed

lemma internal_bucket_split: "internal_bucket_for_user u b = internal_bucket_prefix u @ hex b"
  by (simp add: internal_bucket_for_user_def internal_bucket_prefix_def)

lemma prefix_same_length_append: "length p = length q \<Longrightarrow> prefix p (q @ s) \<longleftrightarrow> p = q"
  by (auto simp: prefix_def append_eq_append_conv)

lemma strip_internal_prefix:
  assumes "uuid_text u" "uuid_text v"
  shows "strip_prefix (internal_bucket_prefix v) (internal_bucket_prefix u @ s) = (if u = v then Some s else None)"
proof -
  have "length (internal_bucket_prefix v) = length (internal_bucket_prefix u)"
    using assms by (simp add: internal_bucket_prefix_def uuid_text_def)
  then have "prefix (internal_bucket_prefix v) (internal_bucket_prefix u @ s) \<longleftrightarrow> internal_bucket_prefix v = internal_bucket_prefix u"
    by (rule prefix_same_length_append)
  also have "\<dots> \<longleftrightarrow> u = v" using assms by (auto simp: internal_bucket_prefix_def)
  finally show ?thesis by (simp add: strip_prefix_def)
qed

text \<open>The names of a user decode for that user, to the bucket they came from, and for nobody else.\<close>

lemma external_internal:
  assumes "uuid_text u" "uuid_text v" "valid_utf8 b"
  shows "external_bucket_from_internal_user v (internal_bucket_for_user u b) = (if u = v then Some b else None)"
  using assms by (simp add: external_bucket_from_internal_user_def internal_bucket_split strip_internal_prefix)

lemma internal_bucket_inj:
  assumes "uuid_text u" "uuid_text v" "internal_bucket_for_user u b = internal_bucket_for_user v c"
  shows "u = v \<and> b = c"
proof -
  have "strip_prefix (internal_bucket_prefix v) (internal_bucket_prefix u @ hex b) = Some (hex c)"
    using assms strip_internal_prefix [of v v "hex c"] by (simp add: internal_bucket_split)
  with assms(1,2) show ?thesis by (simp add: strip_internal_prefix hex_inj split: if_splits)
qed

lemma internal_bucket_not_reserved: "\<not> is_reserved_bucket_name (internal_bucket_for_user u b)"
  by (simp add: is_reserved_bucket_name_def internal_bucket_for_user_def META_BUCKET_def BILLING_BUCKET_PREFIX_def)

end
