(* ===== verification/Edges.thy ===== *)
theory Edges
  imports Mesh_Client
begin

section \<open>Edges of the gateway (\<open>apps/gateway/src/main.rs\<close>)\<close>

text \<open>
  The public edge directory, the health an edge reports about its nodes, and the node summaries.
  Parsing a URL, parsing the configured edges, asking another edge and \<open>to_uppercase\<close> are arguments.
\<close>

subsection \<open>The directory\<close>

record public_edge_config =
  pe_edge_id :: string
  pe_region :: string
  pe_base_url :: string
  pe_node_id :: "string option"
  pe_label :: "string option"
  pe_node_label :: "string option"

record public_edge_directory =
  pd_self_edge :: public_edge_config
  pd_known_edges :: "public_edge_config list"

definition trim_end_slashes :: "string \<Rightarrow> string" where
  "trim_end_slashes s = rev (dropWhile (\<lambda>c. c = CHR ''/'') (rev s))"

text \<open>\<open>parse_url\<close> gives the scheme and the text of the parsed URL, or the text of the error.\<close>

definition public_edge_config_new ::
  "(string \<Rightarrow> string + string \<times> string) \<Rightarrow> string \<Rightarrow> string \<Rightarrow> string \<Rightarrow> string + public_edge_config" where
  "public_edge_config_new parse_url edge_id region base_url =
     (case parse_url (trim_end_slashes base_url) of
        Inl err \<Rightarrow> Inl (''invalid public edge base URL '' @ [CHR 0x60] @ base_url @ [CHR 0x60] @ '': '' @ err)
      | Inr (scheme, text) \<Rightarrow>
          if scheme \<noteq> ''https'' \<and> scheme \<noteq> ''http''
          then Inl (''public edge base URL '' @ [CHR 0x60] @ base_url @ [CHR 0x60] @ '' must use http or https'')
          else Inr \<lparr>pe_edge_id = edge_id, pe_region = region, pe_base_url = trim_end_slashes text,
                    pe_node_id = None, pe_label = None, pe_node_label = None\<rparr>)"

definition health_url :: "public_edge_config \<Rightarrow> string" where
  "health_url e = pe_base_url e @ ''/gateway/health''"

definition or_else :: "'x option \<Rightarrow> 'x option \<Rightarrow> 'x option" where
  "or_else x y = (case x of None \<Rightarrow> y | Some _ \<Rightarrow> x)"

definition complete_self_edge :: "public_edge_config \<Rightarrow> public_edge_config list \<Rightarrow> public_edge_config" where
  "complete_self_edge self configured =
     (case find (\<lambda>e. pe_edge_id e = pe_edge_id self) configured of
        None \<Rightarrow> self
      | Some j \<Rightarrow> self\<lparr>pe_node_id := or_else (pe_node_id self) (pe_node_id j),
                       pe_label := or_else (pe_label self) (pe_label j),
                       pe_node_label := or_else (pe_node_label self) (pe_node_label j)\<rparr>)"

definition edge_key :: "public_edge_config \<Rightarrow> string \<times> string" where
  "edge_key e = (pe_edge_id e, pe_base_url e)"

definition add_edge ::
  "public_edge_config \<Rightarrow> public_edge_config list \<times> (string \<times> string) set \<Rightarrow> public_edge_config list \<times> (string \<times> string) set" where
  "add_edge e acc = (if edge_key e \<in> snd acc then acc else (fst acc @ [e], insert (edge_key e) (snd acc)))"

definition public_edge_directory_new :: "public_edge_config \<Rightarrow> public_edge_config list \<Rightarrow> public_edge_directory" where
  "public_edge_directory_new self configured =
     (let self1 = complete_self_edge self configured
      in \<lparr>pd_self_edge = self1, pd_known_edges = fst (fold add_edge (self1 # configured) ([], {}))\<rparr>)"

record edge_cli =
  cli_public_edge_id :: "string option"
  cli_public_edge_region :: "string option"
  cli_public_base_url :: "string option"
  cli_public_edges_json :: "string option"

definition build_public_edge_directory ::
  "(string \<Rightarrow> string + string \<times> string) \<Rightarrow> (string \<Rightarrow> string + public_edge_config list) \<Rightarrow> edge_cli \<Rightarrow>
     string + public_edge_directory option" where
  "build_public_edge_directory parse_url parse_edges cli =
     (let self_edge =
        (case (cli_public_edge_id cli, cli_public_edge_region cli, cli_public_base_url cli) of
           (None, None, None) \<Rightarrow> Inr None
         | (Some i, Some r, Some u) \<Rightarrow>
             (case public_edge_config_new parse_url i r u of Inl err \<Rightarrow> Inl err | Inr e \<Rightarrow> Inr (Some e))
         | _ \<Rightarrow> Inl ''--public-edge-id, --public-edge-region, and --public-base-url must be provided together'')
      in case self_edge of
           Inl err \<Rightarrow> Inl err
         | Inr self \<Rightarrow>
             (case (case cli_public_edges_json cli of
                      Some raw \<Rightarrow> (case parse_edges raw of
                                     Inl err \<Rightarrow> Inl (''invalid SHARDD_PUBLIC_EDGES_JSON: '' @ err)
                                   | Inr es \<Rightarrow> Inr es)
                    | None \<Rightarrow> Inr []) of
                Inl err \<Rightarrow> Inl err
              | Inr configured \<Rightarrow>
                  (case self of
                     Some e \<Rightarrow> Inr (Some (public_edge_directory_new e configured))
                   | None \<Rightarrow>
                       if configured = [] then Inr None
                       else Inl (''SHARDD_PUBLIC_EDGES_JSON requires --public-edge-id, '' @
                                 ''--public-edge-region, and --public-base-url''))))"

definition node_labels :: "(string \<Rightarrow> string) \<Rightarrow> public_edge_directory option \<Rightarrow> (string, string) fmap" where
  "node_labels upper dir =
     (case dir of
        None \<Rightarrow> fmempty
      | Some d \<Rightarrow>
          fold (\<lambda>e m. case pe_node_id e of
                  None \<Rightarrow> m
                | Some nid \<Rightarrow> fmupd nid (case pe_node_label e of Some l \<Rightarrow> l | None \<Rightarrow> upper (pe_edge_id e)) m)
            (pd_self_edge d # pd_known_edges d) fmempty)"

subsection \<open>Health\<close>

definition HEALTH_OBSERVATION_MAX_AGE_MS :: u64 where
  "HEALTH_OBSERVATION_MAX_AGE_MS = 15000"

definition node_is_healthy :: "u64 \<Rightarrow> 'a mesh_node \<Rightarrow> bool" where
  "node_is_healthy now_ms n =
     (case mn_health n of
        None \<Rightarrow> False
      | Some h \<Rightarrow>
          if \<not> hr_ready h \<or> hr_overloaded h then False
          else (case mn_last_health_at_unix_ms n of
                  Some t \<Rightarrow> saturating_sub now_ms t \<le> HEALTH_OBSERVATION_MAX_AGE_MS
                | None \<Rightarrow> False))"

record public_edge_health_response =
  eh_observed_at_unix_ms :: u64
  eh_edge_id :: "string option"
  eh_region :: "string option"
  eh_base_url :: "string option"
  eh_ready :: bool
  eh_discovered_nodes :: usize
  eh_healthy_nodes :: usize
  eh_best_node_rtt_ms :: "u64 option"
  eh_sync_gap :: "u64 option"
  eh_overloaded :: "bool option"
  eh_auth_enabled :: bool

text \<open>\<open>t i\<close> is the clock at the \<open>i\<close>-th use: listing, judging, choosing, sorting, and the report itself.\<close>

definition build_gateway_health ::
  "'a mesh_client_config \<Rightarrow> (nat \<Rightarrow> u64) \<Rightarrow> public_edge_directory option \<Rightarrow> bool \<Rightarrow> 'a peer_table \<Rightarrow> public_edge_health_response" where
  "build_gateway_health cfg t dir auth_enabled peers =
     (let nodes = all_nodes cfg (t 0) peers;
          healthy = length (filter (node_is_healthy (t 1)) nodes);
          best = best_node cfg (t 2) (t 3) peers
      in \<lparr>eh_observed_at_unix_ms = t 4,
          eh_edge_id = map_option (\<lambda>d. pe_edge_id (pd_self_edge d)) dir,
          eh_region = map_option (\<lambda>d. pe_region (pd_self_edge d)) dir,
          eh_base_url = map_option (\<lambda>d. pe_base_url (pd_self_edge d)) dir,
          eh_ready = (healthy > 0),
          eh_discovered_nodes = word_of_nat (length nodes),
          eh_healthy_nodes = word_of_nat healthy,
          eh_best_node_rtt_ms = Option.bind best (\<lambda>n. map_option duration_ms (mn_ping_rtt n)),
          eh_sync_gap = Option.bind best (\<lambda>n. map_option hr_sync_gap (mn_health n)),
          eh_overloaded = Option.bind best (\<lambda>n. map_option hr_overloaded (mn_health n)),
          eh_auth_enabled = auth_enabled\<rparr>)"

record public_edge_summary =
  es_edge_id :: string
  es_region :: string
  es_base_url :: string
  es_health_url :: string
  es_reachable :: bool
  es_ready :: bool
  es_observed_at_unix_ms :: "u64 option"
  es_discovered_nodes :: "usize option"
  es_healthy_nodes :: "usize option"
  es_best_node_rtt_ms :: "u64 option"
  es_sync_gap :: "u64 option"
  es_overloaded :: "bool option"

definition summary_from_health :: "public_edge_config \<Rightarrow> public_edge_health_response \<Rightarrow> public_edge_summary" where
  "summary_from_health e h =
     \<lparr>es_edge_id = pe_edge_id e, es_region = pe_region e, es_base_url = pe_base_url e, es_health_url = health_url e,
      es_reachable = True, es_ready = eh_ready h, es_observed_at_unix_ms = Some (eh_observed_at_unix_ms h),
      es_discovered_nodes = Some (eh_discovered_nodes h), es_healthy_nodes = Some (eh_healthy_nodes h),
      es_best_node_rtt_ms = eh_best_node_rtt_ms h, es_sync_gap = eh_sync_gap h, es_overloaded = eh_overloaded h\<rparr>"

definition unreachable_public_edge_summary :: "public_edge_config \<Rightarrow> public_edge_summary" where
  "unreachable_public_edge_summary e =
     \<lparr>es_edge_id = pe_edge_id e, es_region = pe_region e, es_base_url = pe_base_url e, es_health_url = health_url e,
      es_reachable = False, es_ready = False, es_observed_at_unix_ms = None, es_discovered_nodes = None,
      es_healthy_nodes = None, es_best_node_rtt_ms = None, es_sync_gap = None, es_overloaded = None\<rparr>"

text \<open>\<open>fetch url\<close> is the decoded answer of another edge, if it was reached and answered successfully.\<close>

definition fetch_public_edge_summary ::
  "(string \<Rightarrow> public_edge_health_response option) \<Rightarrow> public_edge_config \<Rightarrow> public_edge_summary" where
  "fetch_public_edge_summary fetch e =
     (case fetch (health_url e) of
        None \<Rightarrow> unreachable_public_edge_summary e
      | Some h \<Rightarrow> summary_from_health e h)"

definition build_public_edge_directory_response ::
  "(string \<Rightarrow> public_edge_health_response option) \<Rightarrow> public_edge_health_response \<Rightarrow> public_edge_directory \<Rightarrow> public_edge_summary list" where
  "build_public_edge_directory_response fetch self_health d =
     map (\<lambda>e. if pe_edge_id e = pe_edge_id (pd_self_edge d) \<and> pe_base_url e = pe_base_url (pd_self_edge d)
              then summary_from_health e self_health else fetch_public_edge_summary fetch e) (pd_known_edges d)"

subsection \<open>Node summaries\<close>

record gateway_node_summary =
  ns_node_id :: string
  ns_peer_id :: string
  ns_advertise_addr :: "string option"
  ns_listen_addrs :: "string list"
  ns_ping_rtt_ms :: "u64 option"
  ns_ready :: "bool option"
  ns_sync_gap :: "u64 option"
  ns_overloaded :: "bool option"
  ns_inflight_requests :: "u64 option"
  ns_failure_count :: u32
  ns_is_best :: bool

definition summarize_node :: "('p, 'a) libp2p_text \<Rightarrow> 'a mesh_node \<Rightarrow> gateway_node_summary" where
  "summarize_node T n =
     \<lparr>ns_node_id = mn_node_id n, ns_peer_id = mn_peer_id n, ns_advertise_addr = mn_advertise_addr n,
      ns_listen_addrs = map (multiaddr_string T) (mn_listen_addrs n), ns_ping_rtt_ms = map_option duration_ms (mn_ping_rtt n),
      ns_ready = map_option hr_ready (mn_health n), ns_sync_gap = map_option hr_sync_gap (mn_health n),
      ns_overloaded = map_option hr_overloaded (mn_health n),
      ns_inflight_requests = map_option hr_inflight_requests (mn_health n),
      ns_failure_count = mn_failure_count n, ns_is_best = False\<rparr>"

definition summarize_nodes_with_best ::
  "('p, 'a) libp2p_text \<Rightarrow> 'a mesh_client_config \<Rightarrow> (nat \<Rightarrow> u64) \<Rightarrow> 'a peer_table \<Rightarrow> gateway_node_summary list" where
  "summarize_nodes_with_best T cfg t peers =
     (let best = map_option mn_peer_id (best_node cfg (t 0) (t 1) peers)
      in map (\<lambda>n. let s = summarize_node T n in
           case best of Some b \<Rightarrow> s\<lparr>ns_is_best := (ns_peer_id s = b)\<rparr> | None \<Rightarrow> s) (all_nodes cfg (t 2) peers))"

text \<open>The headers that name the node which answered; a value that is no header value is left out.\<close>

definition attach_node_headers :: "(string \<Rightarrow> bool) \<Rightarrow> 'a mesh_node \<Rightarrow> (string \<times> string) list" where
  "attach_node_headers valid n =
     filter (\<lambda>(_, v). valid v)
       ([(''x-shardd-target-node-id'', mn_node_id n), (''x-shardd-target-peer-id'', mn_peer_id n)] @
        (case mn_advertise_addr n of Some ad \<Rightarrow> [(''x-shardd-target-advertise-addr'', ad)] | None \<Rightarrow> []) @
        (case mn_ping_rtt n of Some rtt \<Rightarrow> [(''x-shardd-target-rtt-ms'', show_nat (rtt div 1000000))] | None \<Rightarrow> []))"

end
