(* ===== verification/Gateway.thy ===== *)
theory Gateway
  imports Namespaces Edges
begin

section \<open>The HTTP gateway (\<open>apps/gateway/src/main.rs\<close>)\<close>

text \<open>
  The handlers of the gateway. A response is a status, the node whose headers are attached, and a typed body;
  its JSON text is the work of a library. The gateway state holds the authorization cache, the peer table of the mesh client
  and the requests handed to the mesh: awaited ones in \<open>gw_calls\<close>, spawned ones in \<open>gw_spawned\<close>. What the
  surroundings answer is the environment \<open>gw_env\<close>: the nodes, the dashboard, the clock, other edges, and the
  \<open>Debug\<close> and case conversions of the library.
\<close>

subsection \<open>Requests and responses\<close>

datatype gateway_machine_action = ActRead | ActWrite | ActReadOwnAccount | ActWriteOwnAccount

record dashboard_decision =
  dd_valid :: bool
  dd_allowed :: bool
  dd_user_id :: "string option"
  dd_cache_ttl_ms :: u64
  dd_denial_reason :: "string option"

record cached_decision =
  cd_decision :: dashboard_decision
  cd_expires_at_unix_ms :: u64

record gateway_auth_client =
  ga_shared_secret :: string
  ga_cache :: "(string, cached_decision) fmap"

datatype introspection = SendFailed string | BadStatus string string | BadBody string | Decided dashboard_decision

record gateway_headers =
  hd_authorization :: "string option"
  hd_machine_auth_secret :: "string option"

record gateway_bucket_event_request =
  gbr_account :: string
  gbr_amount :: i64
  gbr_note :: "string option"
  gbr_idempotency_nonce :: "string option"
  gbr_max_overdraft :: "u64 option"
  gbr_min_acks :: "u32 option"
  gbr_ack_timeout_ms :: "u64 option"
  gbr_hold_amount :: "u64 option"
  gbr_hold_expires_at_unix_ms :: "u64 option"
  gbr_settle_reservation :: "string option"
  gbr_release_reservation :: "string option"
  gbr_skip_hold :: "bool option"
  gbr_transfer_to :: "string option"

record gateway_create_event_request =
  gcr_owner :: "string option"
  gcr_bucket :: string
  gcr_event :: gateway_bucket_event_request

record owner_bucket_query =
  oq_owner :: "string option"
  oq_bucket :: "string option"

record bucket_list_query =
  blq_q :: "string option"
  blq_page :: "usize option"
  blq_limit :: "usize option"

record bucket_events_query =
  beq_q :: "string option"
  beq_account :: "string option"
  beq_page :: "usize option"
  beq_limit :: "usize option"

record admin_events_query =
  aq_bucket :: "string option"
  aq_account :: "string option"
  aq_origin :: "string option"
  aq_event_type :: "string option"
  aq_since_ms :: "u64 option"
  aq_until_ms :: "u64 option"
  aq_search :: "string option"
  aq_limit :: "u32 option"
  aq_offset :: "u32 option"
  aq_replication :: "bool option"

record bucket_aggregate =
  agg_total_balance :: i64
  agg_available_balance :: i64
  agg_active_hold_total :: i64
  agg_account_count :: usize
  agg_balance_event_count :: usize
  agg_observed_event_count :: usize
  agg_last_event_at_unix_ms :: "u64 option"

record bucket_summary =
  bs_bucket :: string
  bs_total_balance :: i64
  bs_available_balance :: i64
  bs_active_hold_total :: i64
  bs_account_count :: usize
  bs_event_count :: usize
  bs_last_event_at_unix_ms :: "u64 option"

record bucket_account_summary =
  bas_account :: string
  bas_balance :: i64
  bas_available_balance :: i64
  bas_active_hold_total :: i64
  bas_event_count :: usize
  bas_last_event_at_unix_ms :: "u64 option"

record replication_entry =
  re_heads :: "(string, u64) fmap"
  re_max_known_seqs :: "(string, u64) fmap"
  re_error :: "string option"

datatype gateway_body =
    BError string
  | BPaymentRequired
  | BInsufficientFunds insufficient_funds_error
  | BHealth health_response
  | BState state_response
  | BEvents "event list"
  | BHeads "(string, u64) fmap"
  | BBalances balances_response
  | BCollapsed "(string, collapsed_balance) fmap"
  | BCollapsedAccount collapsed_balance
  | BPersistence persistence_stats
  | BDigests "(string, digest_info) fmap"
  | BDebugOrigin debug_origin_response
  | BRegistry "node_registry_entry list"
  | BCreateEvent create_event_response
  | BBucketList "bucket_summary list" usize usize usize
  | BBucketDetail bucket_summary "bucket_account_summary list"
  | BBucketEvents "event list" usize usize usize
  | BDeletedBucket string string
  | BDeletedBuckets "deleted_bucket_entry list"
  | BAdminEvents events_filter_response "(string, replication_entry) fmap option"
  | BEdgeHealth public_edge_health_response
  | BEdges u64 "public_edge_summary list"
  | BNodes "gateway_node_summary list"

datatype 'a gateway_response =
    Response nat "'a mesh_node option" gateway_body
  | Panicked

subsection \<open>State and environment\<close>

record 'a gateway =
  gw_auth :: "gateway_auth_client option"
  gw_mesh_config :: "'a mesh_client_config"
  gw_peers :: "'a peer_table"
  gw_public_edges :: "public_edge_directory option"
  gw_calls :: "node_rpc_request list"
  gw_spawned :: "node_rpc_request list"

record ('p, 'a) gateway_env =
  ge_text :: "('p, 'a) libp2p_text"
  ge_ask :: "nat \<Rightarrow> 'p asker"
  ge_drift :: "nat \<Rightarrow> 'a drift"
  ge_marked_at :: "nat \<Rightarrow> nat \<Rightarrow> u64"
  ge_now :: "nat \<Rightarrow> u64"
  ge_sorted_at :: "nat \<Rightarrow> u64"
  ge_direct :: "'p \<Rightarrow> node_rpc_request \<Rightarrow> string + node_rpc_result"
  ge_introspect :: "string \<Rightarrow> gateway_machine_action \<Rightarrow> string \<Rightarrow> introspection"
  ge_auth_now :: u64
  ge_debug :: "node_rpc_response \<Rightarrow> string"
  ge_sha :: "bytes \<Rightarrow> bytes"
  ge_new_uuid :: string
  ge_to_lowercase :: "string \<Rightarrow> string"
  ge_to_uppercase :: "string \<Rightarrow> string"
  ge_fetch_edge :: "string \<Rightarrow> public_edge_health_response option"
  ge_observed :: "nat \<Rightarrow> u64"

text \<open>The awaited call of the mesh client, the \<open>k\<close>-th of this gateway.\<close>

definition mesh_request ::
  "('p, 'a) gateway_env \<Rightarrow> node_rpc_request \<Rightarrow> 'a gateway \<Rightarrow> (string + 'a mesh_node \<times> node_rpc_result) \<times> 'a gateway" where
  "mesh_request E req g =
     (let k = length (gw_calls g) in
      case request_best_with_node (ge_text E) (gw_mesh_config g) (ge_ask E k) (ge_drift E k) (ge_marked_at E k)
             (ge_now E k) (ge_sorted_at E k) req (gw_peers g) of
        (res, peers) \<Rightarrow> (res, g\<lparr>gw_peers := peers, gw_calls := gw_calls g @ [req]\<rparr>))"

definition spawn_request :: "node_rpc_request \<Rightarrow> 'a gateway \<Rightarrow> 'a gateway" where
  "spawn_request req g = g\<lparr>gw_spawned := gw_spawned g @ [req]\<rparr>"

subsection \<open>Responses\<close>

definition json_response :: "nat \<Rightarrow> 'a mesh_node \<Rightarrow> gateway_body \<Rightarrow> 'a gateway_response" where
  "json_response status n body = Response status (Some n) body"

definition gateway_unavailable_response :: "string \<Rightarrow> 'a gateway_response" where
  "gateway_unavailable_response m = Response 503 None (BError m)"

definition gateway_internal_response :: "'a mesh_node option \<Rightarrow> string \<Rightarrow> 'a gateway_response" where
  "gateway_internal_response n m = Response 500 n (BError m)"

definition unauthorized :: "string \<Rightarrow> 'a gateway_response" where
  "unauthorized m = Response 401 None (BError m)"

definition forbidden :: "string \<Rightarrow> 'a gateway_response" where
  "forbidden m = Response 403 None (BError m)"

definition bad_request :: "string \<Rightarrow> 'a gateway_response" where
  "bad_request m = Response 400 None (BError m)"

definition payment_required :: "'a gateway_response" where
  "payment_required = Response 402 None BPaymentRequired"

definition not_exposed_response :: "string \<Rightarrow> 'a gateway_response" where
  "not_exposed_response feature =
     Response 404 None (BError (feature @ '' is not exposed on the authenticated edge gateway''))"

definition rpc_error_response :: "'a mesh_node \<Rightarrow> node_rpc_error \<Rightarrow> 'a gateway_response" where
  "rpc_error_response n err =
     (case err_code err of
        ServiceUnavailable \<Rightarrow> json_response 503 n (BError (err_message err))
      | InsufficientFundsCode \<Rightarrow>
          (case err_insufficient_funds err of
             Some payload \<Rightarrow> json_response 422 n (BInsufficientFunds payload)
           | None \<Rightarrow> Panicked)
      | InvalidInput \<Rightarrow> json_response 400 n (BError (err_message err))
      | NotFound \<Rightarrow> json_response 404 n (BError (err_message err))
      | Internal \<Rightarrow> json_response 500 n (BError (err_message err)))"

definition unexpected :: "('p, 'a) gateway_env \<Rightarrow> string \<Rightarrow> node_rpc_response \<Rightarrow> string + 'x" where
  "unexpected E what other = Inl (''unexpected response for '' @ what @ '': '' @ ge_debug E other)"

fun expect_health :: "('p, 'a) gateway_env \<Rightarrow> node_rpc_response \<Rightarrow> string + health_response" where
  "expect_health E (RsHealth body) = Inr body"
| "expect_health E other = unexpected E ''health'' other"

fun expect_state :: "('p, 'a) gateway_env \<Rightarrow> node_rpc_response \<Rightarrow> string + state_response" where
  "expect_state E (RsState body) = Inr body"
| "expect_state E other = unexpected E ''state'' other"

fun expect_events :: "('p, 'a) gateway_env \<Rightarrow> node_rpc_response \<Rightarrow> string + event list" where
  "expect_events E (RsEvents body) = Inr body"
| "expect_events E other = unexpected E ''events'' other"

fun expect_heads :: "('p, 'a) gateway_env \<Rightarrow> node_rpc_response \<Rightarrow> string + (string, u64) fmap" where
  "expect_heads E (RsHeads body) = Inr body"
| "expect_heads E other = unexpected E ''heads'' other"

fun expect_balances :: "('p, 'a) gateway_env \<Rightarrow> node_rpc_response \<Rightarrow> string + balances_response" where
  "expect_balances E (RsBalances body) = Inr body"
| "expect_balances E other = unexpected E ''balances'' other"

fun expect_collapsed :: "('p, 'a) gateway_env \<Rightarrow> node_rpc_response \<Rightarrow> string + (string, collapsed_balance) fmap" where
  "expect_collapsed E (RsCollapsed body) = Inr body"
| "expect_collapsed E other = unexpected E ''collapsed'' other"

fun expect_collapsed_account :: "('p, 'a) gateway_env \<Rightarrow> node_rpc_response \<Rightarrow> string + collapsed_balance" where
  "expect_collapsed_account E (RsCollapsedAccount body) = Inr body"
| "expect_collapsed_account E other = unexpected E ''collapsed account'' other"

fun expect_persistence :: "('p, 'a) gateway_env \<Rightarrow> node_rpc_response \<Rightarrow> string + persistence_stats" where
  "expect_persistence E (RsPersistence body) = Inr body"
| "expect_persistence E other = unexpected E ''persistence'' other"

fun expect_digests :: "('p, 'a) gateway_env \<Rightarrow> node_rpc_response \<Rightarrow> string + (string, digest_info) fmap" where
  "expect_digests E (RsDigests body) = Inr body"
| "expect_digests E other = unexpected E ''digests'' other"

fun expect_debug_origin :: "('p, 'a) gateway_env \<Rightarrow> node_rpc_response \<Rightarrow> string + debug_origin_response" where
  "expect_debug_origin E (RsDebugOrigin body) = Inr body"
| "expect_debug_origin E other = unexpected E ''debug origin'' other"

fun expect_registry :: "('p, 'a) gateway_env \<Rightarrow> node_rpc_response \<Rightarrow> string + node_registry_entry list" where
  "expect_registry E (RsRegistry body) = Inr body"
| "expect_registry E other = unexpected E ''registry'' other"

fun expect_deleted_buckets :: "('p, 'a) gateway_env \<Rightarrow> node_rpc_response \<Rightarrow> string + deleted_bucket_entry list" where
  "expect_deleted_buckets E (RsDeletedBuckets entries) = Inr entries"
| "expect_deleted_buckets E other = Inl (''unexpected node response for deleted-buckets: '' @ ge_debug E other)"

fun expect_events_filter :: "('p, 'a) gateway_env \<Rightarrow> node_rpc_response \<Rightarrow> string + events_filter_response" where
  "expect_events_filter E (RsEventsFilter body) = Inr body"
| "expect_events_filter E other = Inl (''unexpected node response for events-filter: '' @ ge_debug E other)"

definition request_best_typed ::
  "('p, 'a) gateway_env \<Rightarrow> node_rpc_request \<Rightarrow> (node_rpc_response \<Rightarrow> string + 'x) \<Rightarrow> 'a gateway \<Rightarrow>
     ('a gateway_response + 'a mesh_node \<times> 'x) \<times> 'a gateway" where
  "request_best_typed E req expect g =
     (case mesh_request E req g of
        (Inr (n, Inr resp), g1) \<Rightarrow>
          (case expect resp of
             Inr body \<Rightarrow> (Inr (n, body), g1)
           | Inl err \<Rightarrow> (Inl (gateway_internal_response (Some n) err), g1))
      | (Inr (n, Inl err), g1) \<Rightarrow> (Inl (rpc_error_response n err), g1)
      | (Inl err, g1) \<Rightarrow> (Inl (gateway_unavailable_response err), g1))"

definition proxy_read ::
  "('p, 'a) gateway_env \<Rightarrow> node_rpc_request \<Rightarrow> (node_rpc_response \<Rightarrow> string + 'x) \<Rightarrow> ('x \<Rightarrow> gateway_body) \<Rightarrow> 'a gateway \<Rightarrow>
     'a gateway_response \<times> 'a gateway" where
  "proxy_read E req expect body g =
     (case request_best_typed E req expect g of
        (Inr (n, x), g1) \<Rightarrow> (json_response 200 n (body x), g1)
      | (Inl resp, g1) \<Rightarrow> (resp, g1))"

subsection \<open>Authorization\<close>

fun action_text :: "gateway_machine_action \<Rightarrow> string" where
  "action_text ActRead = ''read''"
| "action_text ActWrite = ''write''"
| "action_text ActReadOwnAccount = ''read_own_account''"
| "action_text ActWriteOwnAccount = ''write_own_account''"

definition auth_cache_key :: "(bytes \<Rightarrow> bytes) \<Rightarrow> string \<Rightarrow> gateway_machine_action \<Rightarrow> string \<Rightarrow> string" where
  "auth_cache_key sha api_key action b =
     hex (sha (api_key @ [CHR 0x00] @ action_text action @ [CHR 0x00] @ b))"

definition authorize ::
  "('p, 'a) gateway_env \<Rightarrow> string \<Rightarrow> gateway_machine_action \<Rightarrow> string \<Rightarrow> gateway_auth_client \<Rightarrow>
     (string + dashboard_decision) \<times> gateway_auth_client" where
  "authorize E api_key action b auth =
     (let now_ms = ge_auth_now E;
          key = auth_cache_key (ge_sha E) api_key action b;
          cached = (case fmlookup (ga_cache auth) key of
                      Some entry \<Rightarrow> if cd_expires_at_unix_ms entry > now_ms then Some (cd_decision entry) else None
                    | None \<Rightarrow> None)
      in case cached of
           Some d \<Rightarrow> (Inr d, auth)
         | None \<Rightarrow>
             let auth1 = auth\<lparr>ga_cache := fmdrop key (ga_cache auth)\<rparr>
             in case ge_introspect E api_key action b of
                  SendFailed err \<Rightarrow> (Inl err, auth1)
                | BadStatus status body \<Rightarrow>
                    (Inl (''dashboard introspection failed with '' @ status @ '': '' @ body), auth1)
                | BadBody err \<Rightarrow> (Inl err, auth1)
                | Decided d \<Rightarrow>
                    (Inr d,
                     if dd_allowed d \<and> dd_cache_ttl_ms d > 0
                     then auth1\<lparr>ga_cache := fmupd key
                            \<lparr>cd_decision = d, cd_expires_at_unix_ms = now_ms + dd_cache_ttl_ms d\<rparr> (ga_cache auth1)\<rparr>
                     else auth1))"

definition bearer_token :: "gateway_headers \<Rightarrow> string option" where
  "bearer_token h =
     (case hd_authorization h of
        None \<Rightarrow> None
      | Some raw \<Rightarrow>
          let token = (case strip_prefix ''Bearer '' raw of
                         Some t \<Rightarrow> Some t
                       | None \<Rightarrow> strip_prefix ''bearer '' raw)
          in case token of
               Some t \<Rightarrow> if trim t \<noteq> [] then Some t else None
             | None \<Rightarrow> None)"

definition decide_access :: "dashboard_decision \<Rightarrow> 'a gateway_response + string" where
  "decide_access d =
     (if dd_allowed d
      then (case dd_user_id d of
              Some u \<Rightarrow> Inr u
            | None \<Rightarrow> Inl (gateway_unavailable_response ''dashboard introspection returned no user id''))
      else let reason = (case dd_denial_reason d of Some r \<Rightarrow> r | None \<Rightarrow> ''access_denied'')
           in if dd_valid d then Inl (forbidden reason) else Inl (unauthorized reason))"

definition authorize_request ::
  "('p, 'a) gateway_env \<Rightarrow> gateway_headers \<Rightarrow> gateway_machine_action \<Rightarrow> string \<Rightarrow> gateway_auth_client \<Rightarrow> 'a gateway \<Rightarrow>
     ('a gateway_response + string) \<times> 'a gateway" where
  "authorize_request E h action b auth g =
     (case bearer_token h of
        None \<Rightarrow> (Inl (unauthorized ''missing bearer api key''), g)
      | Some api_key \<Rightarrow>
          (case authorize E api_key action b auth of
             (Inl err, auth1) \<Rightarrow> (Inl (gateway_unavailable_response err), g\<lparr>gw_auth := Some auth1\<rparr>)
           | (Inr d, auth1) \<Rightarrow> (decide_access d, g\<lparr>gw_auth := Some auth1\<rparr>)))"

definition authorize_me_request ::
  "('p, 'a) gateway_env \<Rightarrow> gateway_headers \<Rightarrow> gateway_machine_action \<Rightarrow> gateway_auth_client \<Rightarrow> 'a gateway \<Rightarrow>
     ('a gateway_response + string) \<times> 'a gateway" where
  "authorize_me_request E h action auth g = authorize_request E h action ''*'' auth g"

definition authorize_internal_machine :: "'a gateway \<Rightarrow> gateway_headers \<Rightarrow> 'a gateway_response + unit" where
  "authorize_internal_machine g h =
     (case gw_auth g of
        None \<Rightarrow> Inl (gateway_unavailable_response ''dashboard machine auth is not configured'')
      | Some auth \<Rightarrow>
          (case hd_machine_auth_secret h of
             None \<Rightarrow> Inl (forbidden ''missing machine auth secret'')
           | Some provided \<Rightarrow>
               if trim provided = [] then Inl (forbidden ''missing machine auth secret'')
               else if provided \<noteq> ga_shared_secret auth then Inl (forbidden ''invalid machine auth secret'')
               else Inr ()))"

definition require_bucket_query :: "owner_bucket_query \<Rightarrow> string + string" where
  "require_bucket_query q =
     (case oq_bucket q of
        Some b \<Rightarrow> if trim b \<noteq> [] then Inr b else Inl ''bucket query parameter is required''
      | None \<Rightarrow> Inl ''bucket query parameter is required'')"

definition reject_legacy_owner :: "string option \<Rightarrow> string \<Rightarrow> string + unit" where
  "reject_legacy_owner owner message =
     (case owner of
        Some v \<Rightarrow> if trim v \<noteq> [] then Inl message else Inr ()
      | None \<Rightarrow> Inr ())"

subsection \<open>Billing\<close>

definition deduct_request :: "('p, 'a) gateway_env \<Rightarrow> string \<Rightarrow> i64 \<Rightarrow> string \<Rightarrow> create_event_request" where
  "deduct_request E user_id cost action_label =
     \<lparr>req_bucket = billing_bucket_for_user user_id, req_account = ''credits'', req_amount = - cost,
      req_note = Some (''api:'' @ action_label), req_idempotency_nonce = ge_new_uuid E,
      req_max_overdraft = Some (- 1), req_min_acks = None, req_ack_timeout_ms = None,
      req_hold_amount = None, req_hold_expires_at_unix_ms = None, req_settle_reservation = None,
      req_release_reservation = None, req_skip_hold = Some True, req_allow_reserved_bucket = True,
      req_transfer_to = None\<rparr>"

definition credits_in :: "string \<Rightarrow> string + 'a mesh_node \<times> node_rpc_result \<Rightarrow> i64" where
  "credits_in billing_bucket res =
     (case res of
        Inr (_, Inr (RsBalances body)) \<Rightarrow>
          (case find (\<lambda>a. ab_bucket a = billing_bucket \<and> ab_account a = ''credits'') (br_accounts body) of
             Some a \<Rightarrow> ab_balance a
           | None \<Rightarrow> 0)
      | _ \<Rightarrow> 0)"

definition billing_check_and_deduct ::
  "('p, 'a) gateway_env \<Rightarrow> string \<Rightarrow> i64 \<Rightarrow> string \<Rightarrow> 'a gateway \<Rightarrow> ('a gateway_response + unit) \<times> 'a gateway" where
  "billing_check_and_deduct E user_id cost action_label g =
     (case mesh_request E RqBalances g of
        (res, g1) \<Rightarrow>
          if credits_in (billing_bucket_for_user user_id) res \<le>s 0 then (Inl payment_required, g1)
          else (Inr (), spawn_request (RqCreateEvent (deduct_request E user_id cost action_label)) g1))"

text \<open>The two checks that every billed route makes, in this order.\<close>

definition authorize_and_bill ::
  "('p, 'a) gateway_env \<Rightarrow> gateway_headers \<Rightarrow> gateway_machine_action \<Rightarrow> string \<Rightarrow> i64 \<Rightarrow> string \<Rightarrow> gateway_auth_client \<Rightarrow>
     'a gateway \<Rightarrow> ('a gateway_response + string) \<times> 'a gateway" where
  "authorize_and_bill E h action b cost action_label auth g =
     (case authorize_request E h action b auth g of
        (Inl resp, g1) \<Rightarrow> (Inl resp, g1)
      | (Inr user_id, g1) \<Rightarrow>
          (case billing_check_and_deduct E user_id cost action_label g1 of
             (Inl resp, g2) \<Rightarrow> (Inl resp, g2)
           | (Inr _, g2) \<Rightarrow> (Inr user_id, g2)))"

end
