(* ===== verification/Gateway_Routes.thy ===== *)
theory Gateway_Routes
  imports Gateway
begin

section \<open>The routes of the gateway (\<open>apps/gateway/src/main.rs\<close>)\<close>

text \<open>
  One definition per handler, and the dispatch \<open>handle_route\<close>. Without an authorization client the gateway is a plain proxy;
  with one, every route is scoped to the user of the API key, or asks for the machine secret.
\<close>

subsection \<open>Proxied reads\<close>

definition hidden_read ::
  "('p, 'a) gateway_env \<Rightarrow> string \<Rightarrow> node_rpc_request \<Rightarrow> (node_rpc_response \<Rightarrow> string + 'x) \<Rightarrow> ('x \<Rightarrow> gateway_body) \<Rightarrow> 'a gateway \<Rightarrow>
     'a gateway_response \<times> 'a gateway" where
  "hidden_read E feature req expect body g =
     (if gw_auth g \<noteq> None then (not_exposed_response feature, g) else proxy_read E req expect body g)"

definition proxy_state :: "('p, 'a) gateway_env \<Rightarrow> 'a gateway \<Rightarrow> 'a gateway_response \<times> 'a gateway" where
  "proxy_state E = hidden_read E ''state'' RqState (expect_state E) BState"

definition proxy_heads :: "('p, 'a) gateway_env \<Rightarrow> 'a gateway \<Rightarrow> 'a gateway_response \<times> 'a gateway" where
  "proxy_heads E = hidden_read E ''heads'' RqHeads (expect_heads E) BHeads"

definition proxy_persistence :: "('p, 'a) gateway_env \<Rightarrow> 'a gateway \<Rightarrow> 'a gateway_response \<times> 'a gateway" where
  "proxy_persistence E = hidden_read E ''persistence'' RqPersistence (expect_persistence E) BPersistence"

definition proxy_digests :: "('p, 'a) gateway_env \<Rightarrow> 'a gateway \<Rightarrow> 'a gateway_response \<times> 'a gateway" where
  "proxy_digests E = hidden_read E ''digests'' RqDigests (expect_digests E) BDigests"

definition proxy_debug_origin :: "('p, 'a) gateway_env \<Rightarrow> string \<Rightarrow> 'a gateway \<Rightarrow> 'a gateway_response \<times> 'a gateway" where
  "proxy_debug_origin E origin_id =
     hidden_read E ''debug origin'' (RqDebugOrigin origin_id) (expect_debug_origin E) BDebugOrigin"

definition proxy_registry :: "('p, 'a) gateway_env \<Rightarrow> 'a gateway \<Rightarrow> 'a gateway_response \<times> 'a gateway" where
  "proxy_registry E = hidden_read E ''registry'' RqRegistry (expect_registry E) BRegistry"

definition owner_query_message :: string where
  "owner_query_message = ''owner query parameter is no longer supported; API keys identify the user''"

definition scoped_events :: "string \<Rightarrow> string \<Rightarrow> event list \<Rightarrow> event list" where
  "scoped_events internal external es = map (\<lambda>e. e\<lparr>bucket := external\<rparr>) (filter (\<lambda>e. bucket e = internal) es)"

text \<open>
  The common body of \<open>proxy_events\<close>, \<open>proxy_balances\<close> and \<open>proxy_collapsed\<close>: \<open>scope internal external\<close> is the
  filter that each applies to the node's answer.
\<close>

definition scoped_read ::
  "('p, 'a) gateway_env \<Rightarrow> node_rpc_request \<Rightarrow> (node_rpc_response \<Rightarrow> string + 'x) \<Rightarrow> ('x \<Rightarrow> gateway_body) \<Rightarrow>
     (string \<Rightarrow> string \<Rightarrow> 'x \<Rightarrow> 'x) \<Rightarrow> gateway_headers \<Rightarrow> owner_bucket_query \<Rightarrow> 'a gateway \<Rightarrow> 'a gateway_response \<times> 'a gateway" where
  "scoped_read E req expect body scope h q g =
     (case reject_legacy_owner (oq_owner q) owner_query_message of
        Inl message \<Rightarrow> (bad_request message, g)
      | Inr _ \<Rightarrow>
          (case gw_auth g of
             None \<Rightarrow> proxy_read E req expect body g
           | Some auth \<Rightarrow>
               (case require_bucket_query q of
                  Inl message \<Rightarrow> (bad_request message, g)
                | Inr b \<Rightarrow>
                    (case authorize_and_bill E h ActRead b 1 ''read'' auth g of
                       (Inl resp, g1) \<Rightarrow> (resp, g1)
                     | (Inr user_id, g1) \<Rightarrow>
                         proxy_read E req expect (\<lambda>x. body (scope (internal_bucket_for_user user_id b) b x)) g1))))"

definition proxy_events ::
  "('p, 'a) gateway_env \<Rightarrow> gateway_headers \<Rightarrow> owner_bucket_query \<Rightarrow> 'a gateway \<Rightarrow> 'a gateway_response \<times> 'a gateway" where
  "proxy_events E = scoped_read E RqEvents (expect_events E) BEvents scoped_events"

definition proxy_balances ::
  "('p, 'a) gateway_env \<Rightarrow> gateway_headers \<Rightarrow> owner_bucket_query \<Rightarrow> 'a gateway \<Rightarrow> 'a gateway_response \<times> 'a gateway" where
  "proxy_balances E =
     scoped_read E RqBalances (expect_balances E) BBalances (\<lambda>internal external body. filter_balances body internal external)"

definition proxy_collapsed ::
  "('p, 'a) gateway_env \<Rightarrow> gateway_headers \<Rightarrow> owner_bucket_query \<Rightarrow> 'a gateway \<Rightarrow> 'a gateway_response \<times> 'a gateway" where
  "proxy_collapsed E =
     scoped_read E RqCollapsed (expect_collapsed E) BCollapsed (\<lambda>internal external body. filter_collapsed body internal external)"

definition proxy_collapsed_account ::
  "('p, 'a) gateway_env \<Rightarrow> gateway_headers \<Rightarrow> string \<Rightarrow> string \<Rightarrow> string option \<Rightarrow> 'a gateway \<Rightarrow> 'a gateway_response \<times> 'a gateway" where
  "proxy_collapsed_account E h b acct owner g =
     (case reject_legacy_owner owner owner_query_message of
        Inl message \<Rightarrow> (bad_request message, g)
      | Inr _ \<Rightarrow>
          (case gw_auth g of
             None \<Rightarrow> proxy_read E (RqCollapsedAccount b acct) (expect_collapsed_account E) BCollapsedAccount g
           | Some auth \<Rightarrow>
               (case authorize_and_bill E h ActRead b 1 ''read'' auth g of
                  (Inl resp, g1) \<Rightarrow> (resp, g1)
                | (Inr user_id, g1) \<Rightarrow>
                    proxy_read E (RqCollapsedAccount (internal_bucket_for_user user_id b) acct)
                      (expect_collapsed_account E) BCollapsedAccount g1)))"

subsection \<open>Creating events\<close>

definition into_create_request :: "gateway_bucket_event_request \<Rightarrow> string \<Rightarrow> string \<Rightarrow> create_event_request" where
  "into_create_request r nonce b =
     \<lparr>req_bucket = b, req_account = gbr_account r, req_amount = gbr_amount r, req_note = gbr_note r,
      req_idempotency_nonce = nonce, req_max_overdraft = gbr_max_overdraft r, req_min_acks = gbr_min_acks r,
      req_ack_timeout_ms = gbr_ack_timeout_ms r, req_hold_amount = gbr_hold_amount r,
      req_hold_expires_at_unix_ms = gbr_hold_expires_at_unix_ms r,
      req_settle_reservation = gbr_settle_reservation r, req_release_reservation = gbr_release_reservation r,
      req_skip_hold = gbr_skip_hold r, req_allow_reserved_bucket = False, req_transfer_to = gbr_transfer_to r\<rparr>"

definition nonce_required :: string where
  "nonce_required =
     ''idempotency_nonce is required '' @ [CHR 0xE2, CHR 0x80, CHR 0x94] @
     '' generate a UUID v4 per logical operation and reuse it on retries''"

definition normalized_query :: "string option \<Rightarrow> string option" where
  "normalized_query v =
     (case v of Some s \<Rightarrow> if trim s \<noteq> [] then Some (trim s) else None | None \<Rightarrow> None)"

definition submit_create_event ::
  "('p, 'a) gateway_env \<Rightarrow> string \<Rightarrow> string \<Rightarrow> gateway_bucket_event_request \<Rightarrow> bool \<Rightarrow> bool \<Rightarrow> 'a gateway \<Rightarrow>
     'a gateway_response \<times> 'a gateway" where
  "submit_create_event E external internal r rewrite_bucket allow_reserved g =
     (case validate_event_note (gbr_note r) of
        Inl message \<Rightarrow> (bad_request message, g)
      | Inr _ \<Rightarrow>
          (case normalized_query (gbr_idempotency_nonce r) of
             None \<Rightarrow> (bad_request nonce_required, g)
           | Some nonce \<Rightarrow>
               let cr0 = (into_create_request r nonce internal)\<lparr>req_allow_reserved_bucket := allow_reserved\<rparr>;
                   cr = (if allow_reserved then cr0\<lparr>req_skip_hold := Some True\<rparr> else cr0)
               in case mesh_request E (RqCreateEvent cr) g of
                    (Inr (n, Inr (RsCreateEvent body)), g1) \<Rightarrow>
                      (json_response (if resp_deduplicated body then 200 else 201) n
                         (BCreateEvent (if rewrite_bucket
                            then body\<lparr>resp_event := (resp_event body)\<lparr>bucket := external\<rparr>\<rparr> else body)), g1)
                  | (Inr (n, Inr other), g1) \<Rightarrow>
                      (gateway_internal_response (Some n) (''unexpected response for create_event: '' @ ge_debug E other), g1)
                  | (Inr (n, Inl err), g1) \<Rightarrow> (rpc_error_response n err, g1)
                  | (Inl err, g1) \<Rightarrow> (gateway_unavailable_response err, g1)))"

definition proxy_create_event ::
  "('p, 'a) gateway_env \<Rightarrow> gateway_headers \<Rightarrow> gateway_create_event_request \<Rightarrow> 'a gateway \<Rightarrow> 'a gateway_response \<times> 'a gateway" where
  "proxy_create_event E h r g =
     (case reject_legacy_owner (gcr_owner r) ''owner is no longer supported; API keys identify the user'' of
        Inl message \<Rightarrow> (bad_request message, g)
      | Inr _ \<Rightarrow>
          (case gw_auth g of
             Some auth \<Rightarrow>
               (case authorize_and_bill E h ActWrite (gcr_bucket r) 10 ''write'' auth g of
                  (Inl resp, g1) \<Rightarrow> (resp, g1)
                | (Inr user_id, g1) \<Rightarrow>
                    submit_create_event E (gcr_bucket r) (internal_bucket_for_user user_id (gcr_bucket r)) (gcr_event r) True False g1)
           | None \<Rightarrow> submit_create_event E (gcr_bucket r) (gcr_bucket r) (gcr_event r) False False g))"

definition create_bucket_event_for_user ::
  "('p, 'a) gateway_env \<Rightarrow> string \<Rightarrow> string \<Rightarrow> gateway_bucket_event_request \<Rightarrow> 'a gateway \<Rightarrow> 'a gateway_response \<times> 'a gateway" where
  "create_bucket_event_for_user E user_id b r g =
     submit_create_event E b (internal_bucket_for_user user_id b) r True False g"

text \<open>The two ways to name a user: the machine secret with an explicit user id, or an API key.\<close>

definition as_machine ::
  "gateway_headers \<Rightarrow> ('a gateway \<Rightarrow> 'a gateway_response \<times> 'a gateway) \<Rightarrow> 'a gateway \<Rightarrow> 'a gateway_response \<times> 'a gateway" where
  "as_machine h handler g =
     (case authorize_internal_machine g h of Inl resp \<Rightarrow> (resp, g) | Inr _ \<Rightarrow> handler g)"

definition as_me ::
  "('p, 'a) gateway_env \<Rightarrow> gateway_headers \<Rightarrow> gateway_machine_action \<Rightarrow>
     (string \<Rightarrow> 'a gateway \<Rightarrow> 'a gateway_response \<times> 'a gateway) \<Rightarrow> 'a gateway \<Rightarrow> 'a gateway_response \<times> 'a gateway" where
  "as_me E h action handler g =
     (case gw_auth g of
        None \<Rightarrow> (gateway_unavailable_response ''dashboard auth is not configured'', g)
      | Some auth \<Rightarrow>
          (case authorize_me_request E h action auth g of
             (Inl resp, g1) \<Rightarrow> (resp, g1)
           | (Inr user_id, g1) \<Rightarrow> handler user_id g1))"

definition internal_create_bucket_event ::
  "('p, 'a) gateway_env \<Rightarrow> gateway_headers \<Rightarrow> string \<Rightarrow> string \<Rightarrow> gateway_bucket_event_request \<Rightarrow> 'a gateway \<Rightarrow>
     'a gateway_response \<times> 'a gateway" where
  "internal_create_bucket_event E h user_id b r = as_machine h (create_bucket_event_for_user E user_id b r)"

definition me_create_bucket_event ::
  "('p, 'a) gateway_env \<Rightarrow> gateway_headers \<Rightarrow> string \<Rightarrow> gateway_bucket_event_request \<Rightarrow> 'a gateway \<Rightarrow>
     'a gateway_response \<times> 'a gateway" where
  "me_create_bucket_event E h b r =
     as_me E h ActWriteOwnAccount (\<lambda>user_id. create_bucket_event_for_user E user_id b r)"

definition internal_billing_create_event ::
  "('p, 'a) gateway_env \<Rightarrow> gateway_headers \<Rightarrow> gateway_create_event_request \<Rightarrow> 'a gateway \<Rightarrow> 'a gateway_response \<times> 'a gateway" where
  "internal_billing_create_event E h r =
     as_machine h (submit_create_event E (gcr_bucket r) (gcr_bucket r) (gcr_event r) False True)"

definition internal_billing_balance ::
  "('p, 'a) gateway_env \<Rightarrow> gateway_headers \<Rightarrow> owner_bucket_query \<Rightarrow> 'a gateway \<Rightarrow> 'a gateway_response \<times> 'a gateway" where
  "internal_billing_balance E h q =
     as_machine h (\<lambda>g.
       case oq_bucket q of
         Some b \<Rightarrow>
           if b = [] then (bad_request ''bucket query parameter is required'', g)
           else proxy_read E RqBalances (expect_balances E)
             (\<lambda>body. BBalances \<lparr>br_accounts = filter (\<lambda>a. ab_bucket a = b) (br_accounts body), br_total_balance = 0\<rparr>) g
       | None \<Rightarrow> (bad_request ''bucket query parameter is required'', g))"

subsection \<open>Deleting buckets\<close>

definition request_delete ::
  "('p, 'a) gateway_env \<Rightarrow> string \<Rightarrow> string option \<Rightarrow> string \<Rightarrow> 'a gateway \<Rightarrow> 'a gateway_response \<times> 'a gateway" where
  "request_delete E target reason shown g =
     (case mesh_request E (RqDeleteBucket target reason) g of
        (Inr (n, Inr (RsDeleteBucket e)), g1) \<Rightarrow> (json_response 200 n (BDeletedBucket (event_id e) shown), g1)
      | (Inr (n, Inr other), g1) \<Rightarrow>
          (gateway_internal_response (Some n) (''unexpected node response for DeleteBucket: '' @ ge_debug E other), g1)
      | (Inr (n, Inl err), g1) \<Rightarrow> (rpc_error_response n err, g1)
      | (Inl err, g1) \<Rightarrow> (gateway_unavailable_response err, g1))"

definition internal_meta_bucket_delete ::
  "('p, 'a) gateway_env \<Rightarrow> gateway_headers \<Rightarrow> string \<Rightarrow> string option \<Rightarrow> 'a gateway \<Rightarrow> 'a gateway_response \<times> 'a gateway" where
  "internal_meta_bucket_delete E h b reason =
     as_machine h (\<lambda>g. if b = [] then (bad_request ''bucket is required'', g) else request_delete E b reason b g)"

definition me_delete_bucket ::
  "('p, 'a) gateway_env \<Rightarrow> gateway_headers \<Rightarrow> string \<Rightarrow> string option \<Rightarrow> 'a gateway \<Rightarrow> 'a gateway_response \<times> 'a gateway" where
  "me_delete_bucket E h b mode =
     as_me E h ActWriteOwnAccount (\<lambda>user_id g.
       if (case mode of Some m \<Rightarrow> m | None \<Rightarrow> ''nuke'') \<noteq> ''nuke''
       then (bad_request ''only mode=nuke is supported by the gateway'', g)
       else request_delete E (internal_bucket_for_user user_id b) (Some (''user:'' @ user_id)) b g)"

definition deleted_buckets_response ::
  "('p, 'a) gateway_env \<Rightarrow> string option \<Rightarrow> 'a gateway \<Rightarrow> 'a gateway_response \<times> 'a gateway" where
  "deleted_buckets_response E user =
     proxy_read E RqDeletedBuckets (expect_deleted_buckets E) (\<lambda>entries. BDeletedBuckets
       (case user of
          Some user_id \<Rightarrow> List.map_filter (\<lambda>d. map_option (\<lambda>b. d\<lparr>db_name := b\<rparr>)
                            (external_bucket_from_internal_user user_id (db_name d))) entries
        | None \<Rightarrow> entries))"

definition internal_deleted_buckets :: "('p, 'a) gateway_env \<Rightarrow> gateway_headers \<Rightarrow> 'a gateway \<Rightarrow> 'a gateway_response \<times> 'a gateway" where
  "internal_deleted_buckets E h = as_machine h (deleted_buckets_response E None)"

definition me_deleted_buckets :: "('p, 'a) gateway_env \<Rightarrow> gateway_headers \<Rightarrow> 'a gateway \<Rightarrow> 'a gateway_response \<times> 'a gateway" where
  "me_deleted_buckets E h = as_me E h ActReadOwnAccount (\<lambda>user_id. deleted_buckets_response E (Some user_id))"

end
