(* ===== verification/Gateway_Views.thy ===== *)
theory Gateway_Views
  imports Gateway_Routes
begin

section \<open>The bucket and event views of the gateway (\<open>apps/gateway/src/main.rs\<close>)\<close>

text \<open>
  The views over a user's buckets and events, the health of an edge and the directory of edges,
  and the dispatch of all routes.
\<close>

subsection \<open>Bucket list\<close>

definition pagination :: "usize option \<Rightarrow> usize option \<Rightarrow> usize \<Rightarrow> usize \<Rightarrow> usize \<times> usize \<times> usize" where
  "pagination page limit default_limit max_limit =
     (let page = max (case page of Some p \<Rightarrow> p | None \<Rightarrow> 1) 1;
          limit = min (max (case limit of Some l \<Rightarrow> l | None \<Rightarrow> default_limit) 1) max_limit
      in (page, limit, saturating_mul (page - 1) limit))"

definition contains_case_insensitive :: "('p, 'a) gateway_env \<Rightarrow> string \<Rightarrow> string \<Rightarrow> bool" where
  "contains_case_insensitive E haystack needle = sublist (ge_to_lowercase E needle) (ge_to_lowercase E haystack)"

definition empty_aggregate :: bucket_aggregate where
  "empty_aggregate =
     \<lparr>agg_total_balance = 0, agg_available_balance = 0, agg_active_hold_total = 0, agg_account_count = 0,
      agg_balance_event_count = 0, agg_observed_event_count = 0, agg_last_event_at_unix_ms = None\<rparr>"

definition aggregate_account ::
  "string \<Rightarrow> account_balance \<Rightarrow> (string, bucket_aggregate) fmap \<Rightarrow> (string, bucket_aggregate) fmap" where
  "aggregate_account user_id a m =
     (case external_bucket_from_internal_user user_id (ab_bucket a) of
        None \<Rightarrow> m
      | Some b \<Rightarrow>
          let g = (case fmlookup m b of Some x \<Rightarrow> x | None \<Rightarrow> empty_aggregate)
          in fmupd b (g\<lparr>agg_total_balance := agg_total_balance g + ab_balance a,
                       agg_available_balance := agg_available_balance g + ab_available_balance a,
                       agg_active_hold_total := agg_active_hold_total g + ab_active_hold_total a,
                       agg_account_count := agg_account_count g + 1,
                       agg_balance_event_count := agg_balance_event_count g + ab_event_count a\<rparr>) m)"

definition summary_of_aggregate :: "string \<Rightarrow> bucket_aggregate \<Rightarrow> bucket_summary" where
  "summary_of_aggregate b g =
     \<lparr>bs_bucket = b, bs_total_balance = agg_total_balance g, bs_available_balance = agg_available_balance g,
      bs_active_hold_total = agg_active_hold_total g, bs_account_count = agg_account_count g,
      bs_event_count = (if agg_observed_event_count g > 0 then agg_observed_event_count g else agg_balance_event_count g),
      bs_last_event_at_unix_ms = agg_last_event_at_unix_ms g\<rparr>"

definition summarize_user_buckets :: "string \<Rightarrow> balances_response \<Rightarrow> bucket_summary list" where
  "summarize_user_buckets user_id balances =
     map (\<lambda>(b, g). summary_of_aggregate b g) (fm_entries (fold (aggregate_account user_id) (br_accounts balances) fmempty))"

definition or_zero :: "u64 option \<Rightarrow> u64" where
  "or_zero x = (case x of Some v \<Rightarrow> v | None \<Rightarrow> 0)"

definition compare_summaries :: "bucket_summary \<Rightarrow> bucket_summary \<Rightarrow> ordering" where
  "compare_summaries l r =
     then_with (cmp (or_zero (bs_last_event_at_unix_ms r)) (or_zero (bs_last_event_at_unix_ms l)))
       (cmp (bs_bucket l) (bs_bucket r))"

definition bucket_page ::
  "('p, 'a) gateway_env \<Rightarrow> string \<Rightarrow> bucket_list_query \<Rightarrow> balances_response \<Rightarrow> gateway_body" where
  "bucket_page E user_id q balances =
     (case pagination (blq_page q) (blq_limit q) 25 100 of
        (page, limit, offset) \<Rightarrow>
          let all_buckets = summarize_user_buckets user_id balances;
              buckets = sort_by compare_summaries
                (case normalized_query (blq_q q) of
                   Some needle \<Rightarrow> filter (\<lambda>s. contains_case_insensitive E (bs_bucket s) needle) all_buckets
                 | None \<Rightarrow> all_buckets)
          in BBucketList (take (unat limit) (drop (unat offset) buckets)) (word_of_nat (length buckets)) page limit)"

definition bucket_list_for_user ::
  "('p, 'a) gateway_env \<Rightarrow> string \<Rightarrow> bucket_list_query \<Rightarrow> 'a gateway \<Rightarrow> 'a gateway_response \<times> 'a gateway" where
  "bucket_list_for_user E user_id q = proxy_read E RqBalances (expect_balances E) (bucket_page E user_id q)"

definition internal_bucket_list ::
  "('p, 'a) gateway_env \<Rightarrow> gateway_headers \<Rightarrow> string \<Rightarrow> bucket_list_query \<Rightarrow> 'a gateway \<Rightarrow> 'a gateway_response \<times> 'a gateway" where
  "internal_bucket_list E h user_id q = as_machine h (bucket_list_for_user E user_id q)"

definition me_bucket_list ::
  "('p, 'a) gateway_env \<Rightarrow> gateway_headers \<Rightarrow> bucket_list_query \<Rightarrow> 'a gateway \<Rightarrow> 'a gateway_response \<times> 'a gateway" where
  "me_bucket_list E h q = as_me E h ActReadOwnAccount (\<lambda>user_id. bucket_list_for_user E user_id q)"

subsection \<open>Bucket detail\<close>

definition everything_of :: "string \<Rightarrow> events_filter_request" where
  "everything_of internal =
     \<lparr>efr_bucket = Some internal, efr_bucket_prefix = None, efr_account = None, efr_origin = None,
      efr_event_type = None, efr_since_unix_ms = None, efr_until_unix_ms = None, efr_search = None,
      efr_limit = 500, efr_offset = 0\<rparr>"

definition latest_event :: "event list \<Rightarrow> u64 option" where
  "latest_event es =
     fold (\<lambda>e acc. Some (case acc of None \<Rightarrow> created_at_unix_ms e | Some t \<Rightarrow> max t (created_at_unix_ms e))) es None"

definition events_of_account :: "string \<Rightarrow> event list \<Rightarrow> event list" where
  "events_of_account acct es = filter (\<lambda>e. account e = acct) es"

definition account_summary :: "event list \<Rightarrow> account_balance \<Rightarrow> bucket_account_summary" where
  "account_summary es a =
     \<lparr>bas_account = ab_account a, bas_balance = ab_balance a, bas_available_balance = ab_available_balance a,
      bas_active_hold_total = ab_active_hold_total a,
      bas_event_count = (if events_of_account (ab_account a) es = [] then ab_event_count a
                         else word_of_nat (length (events_of_account (ab_account a) es))),
      bas_last_event_at_unix_ms = latest_event (events_of_account (ab_account a) es)\<rparr>"

definition compare_account_summaries :: "bucket_account_summary \<Rightarrow> bucket_account_summary \<Rightarrow> ordering" where
  "compare_account_summaries l r =
     then_with (cmp (sint (bas_balance r)) (sint (bas_balance l))) (cmp (bas_account l) (bas_account r))"

definition bucket_detail :: "string \<Rightarrow> string \<Rightarrow> balances_response \<Rightarrow> events_filter_response \<Rightarrow> gateway_body option" where
  "bucket_detail internal b balances page =
     (let es = efp_events page;
          accounts0 = map (account_summary es) (filter (\<lambda>a. ab_bucket a = internal) (br_accounts balances));
          accounts = sort_by compare_account_summaries accounts0
      in if accounts0 = [] \<and> efp_total page = 0 then None
         else Some (BBucketDetail
           \<lparr>bs_bucket = b, bs_total_balance = sum_i64 (map bas_balance accounts),
            bs_available_balance = sum_i64 (map bas_available_balance accounts),
            bs_active_hold_total = sum_i64 (map bas_active_hold_total accounts),
            bs_account_count = word_of_nat (length accounts),
            bs_event_count = max (efp_total page) (sum_i64 (map bas_event_count accounts)),
            bs_last_event_at_unix_ms = latest_event es\<rparr> accounts))"

definition bucket_detail_for_user ::
  "('p, 'a) gateway_env \<Rightarrow> string \<Rightarrow> string \<Rightarrow> 'a gateway \<Rightarrow> 'a gateway_response \<times> 'a gateway" where
  "bucket_detail_for_user E user_id b g =
     (case request_best_typed E RqBalances (expect_balances E) g of
        (Inl resp, g1) \<Rightarrow> (resp, g1)
      | (Inr (n, balances), g1) \<Rightarrow>
          let internal = internal_bucket_for_user user_id b in
          (case request_best_typed E (RqEventsFilter (everything_of internal)) (expect_events_filter E) g1 of
             (Inl resp, g2) \<Rightarrow> (resp, g2)
           | (Inr (_, page), g2) \<Rightarrow>
               (case bucket_detail internal b balances page of
                  None \<Rightarrow> (Response 404 None (BError ''bucket not found''), g2)
                | Some body \<Rightarrow> (json_response 200 n body, g2))))"

definition internal_bucket_detail ::
  "('p, 'a) gateway_env \<Rightarrow> gateway_headers \<Rightarrow> string \<Rightarrow> string \<Rightarrow> 'a gateway \<Rightarrow> 'a gateway_response \<times> 'a gateway" where
  "internal_bucket_detail E h user_id b = as_machine h (bucket_detail_for_user E user_id b)"

definition me_bucket_detail ::
  "('p, 'a) gateway_env \<Rightarrow> gateway_headers \<Rightarrow> string \<Rightarrow> 'a gateway \<Rightarrow> 'a gateway_response \<times> 'a gateway" where
  "me_bucket_detail E h b = as_me E h ActReadOwnAccount (\<lambda>user_id. bucket_detail_for_user E user_id b)"

subsection \<open>Events of a bucket and of a user\<close>

definition bucket_events_for_user ::
  "('p, 'a) gateway_env \<Rightarrow> string \<Rightarrow> string \<Rightarrow> bucket_events_query \<Rightarrow> 'a gateway \<Rightarrow> 'a gateway_response \<times> 'a gateway" where
  "bucket_events_for_user E user_id b q =
     (case pagination (beq_page q) (beq_limit q) 25 200 of
        (page, limit, offset) \<Rightarrow>
          proxy_read E
            (RqEventsFilter \<lparr>efr_bucket = Some (internal_bucket_for_user user_id b), efr_bucket_prefix = None,
               efr_account = normalized_query (beq_account q), efr_origin = None, efr_event_type = None,
               efr_since_unix_ms = None, efr_until_unix_ms = None, efr_search = normalized_query (beq_q q),
               efr_limit = ucast limit, efr_offset = ucast offset\<rparr>)
            (expect_events_filter E)
            (\<lambda>body. BBucketEvents (map (\<lambda>e. e\<lparr>bucket := b\<rparr>) (efp_events body)) (efp_total body) page limit))"

definition internal_bucket_events ::
  "('p, 'a) gateway_env \<Rightarrow> gateway_headers \<Rightarrow> string \<Rightarrow> string \<Rightarrow> bucket_events_query \<Rightarrow> 'a gateway \<Rightarrow> 'a gateway_response \<times> 'a gateway" where
  "internal_bucket_events E h user_id b q = as_machine h (bucket_events_for_user E user_id b q)"

definition me_bucket_events ::
  "('p, 'a) gateway_env \<Rightarrow> gateway_headers \<Rightarrow> string \<Rightarrow> bucket_events_query \<Rightarrow> 'a gateway \<Rightarrow> 'a gateway_response \<times> 'a gateway" where
  "me_bucket_events E h b q = as_me E h ActReadOwnAccount (\<lambda>user_id. bucket_events_for_user E user_id b q)"

definition admin_limit :: "u32 option \<Rightarrow> u32" where
  "admin_limit l = min (max (case l of Some x \<Rightarrow> x | None \<Rightarrow> 100) 1) 500"

definition filter_of_query :: "admin_events_query \<Rightarrow> string option \<Rightarrow> string option \<Rightarrow> events_filter_request" where
  "filter_of_query q b pre =
     \<lparr>efr_bucket = b, efr_bucket_prefix = pre, efr_account = aq_account q, efr_origin = aq_origin q,
      efr_event_type = aq_event_type q, efr_since_unix_ms = aq_since_ms q, efr_until_unix_ms = aq_until_ms q,
      efr_search = aq_search q, efr_limit = admin_limit (aq_limit q),
      efr_offset = (case aq_offset q of Some x \<Rightarrow> x | None \<Rightarrow> 0)\<rparr>"

text \<open>
  A snapshot of the heads of every node, by label. The fallback label is the first eight bytes of the node id;
  slicing inside a character is a panic.
\<close>

definition short_label :: "string \<Rightarrow> string option" where
  "short_label nid =
     (if length nid > 8 \<and> is_continuation (nid ! 8) then None else Some (take (min 8 (length nid)) nid))"

definition replication_of :: "('p, 'a) gateway_env \<Rightarrow> 'a mesh_node \<Rightarrow> replication_entry" where
  "replication_of E n =
     (case parse_peer_id (ge_text E) (mn_peer_id n) of
        Inl err \<Rightarrow> \<lparr>re_heads = fmempty, re_max_known_seqs = fmempty, re_error = Some (''parse peer_id: '' @ err)\<rparr>
      | Inr p \<Rightarrow>
          (case ge_direct E p RqState of
             Inr (Inr (RsState s)) \<Rightarrow> \<lparr>re_heads = sr_contiguous_heads s, re_max_known_seqs = fmempty, re_error = None\<rparr>
           | Inr (Inr other) \<Rightarrow>
               \<lparr>re_heads = fmempty, re_max_known_seqs = fmempty, re_error = Some (''unexpected response: '' @ ge_debug E other)\<rparr>
           | Inr (Inl err) \<Rightarrow> \<lparr>re_heads = fmempty, re_max_known_seqs = fmempty, re_error = Some (err_message err)\<rparr>
           | Inl err \<Rightarrow> \<lparr>re_heads = fmempty, re_max_known_seqs = fmempty, re_error = Some err\<rparr>))"

fun snapshot_nodes ::
  "('p, 'a) gateway_env \<Rightarrow> (string, string) fmap \<Rightarrow> 'a mesh_node list \<Rightarrow> (string, replication_entry) fmap \<Rightarrow>
     (string, replication_entry) fmap option" where
  "snapshot_nodes E labels [] acc = Some acc"
| "snapshot_nodes E labels (n # ns) acc =
     (case (case fmlookup labels (mn_node_id n) of Some l \<Rightarrow> Some l | None \<Rightarrow> short_label (mn_node_id n)) of
        None \<Rightarrow> None
      | Some l \<Rightarrow> snapshot_nodes E labels ns (fmupd l (replication_of E n) acc))"

definition collect_replication_snapshot ::
  "('p, 'a) gateway_env \<Rightarrow> 'a gateway \<Rightarrow> (string, replication_entry) fmap option" where
  "collect_replication_snapshot E g =
     snapshot_nodes E (node_labels (ge_to_uppercase E) (gw_public_edges g)) (all_nodes (gw_mesh_config g) (ge_now E (length (gw_calls g))) (gw_peers g)) fmempty"

definition admin_events_view ::
  "('p, 'a) gateway_env \<Rightarrow> admin_events_query \<Rightarrow> events_filter_request \<Rightarrow> (events_filter_response \<Rightarrow> events_filter_response) \<Rightarrow>
     (replication_entry \<Rightarrow> replication_entry) \<Rightarrow> 'a gateway \<Rightarrow> 'a gateway_response \<times> 'a gateway" where
  "admin_events_view E q req show_page show_entry g =
     (case request_best_typed E (RqEventsFilter req) (expect_events_filter E) g of
        (Inl resp, g1) \<Rightarrow> (resp, g1)
      | (Inr (_, page), g1) \<Rightarrow>
          if aq_replication q = Some True
          then (case collect_replication_snapshot E g1 of
                  None \<Rightarrow> (Panicked, g1)
                | Some snap \<Rightarrow> (Response 200 None (BAdminEvents (show_page page) (Some (fmmap show_entry snap))), g1))
          else (Response 200 None (BAdminEvents (show_page page) None), g1))"

definition internal_admin_events ::
  "('p, 'a) gateway_env \<Rightarrow> gateway_headers \<Rightarrow> admin_events_query \<Rightarrow> 'a gateway \<Rightarrow> 'a gateway_response \<times> 'a gateway" where
  "internal_admin_events E h q =
     as_machine h (admin_events_view E q (filter_of_query q (aq_bucket q) None) (\<lambda>p. p) (\<lambda>r. r))"

definition user_events_filter :: "string \<Rightarrow> admin_events_query \<Rightarrow> events_filter_request" where
  "user_events_filter user_id q =
     (case aq_bucket q of
        Some b \<Rightarrow> if b \<noteq> [] then filter_of_query q (Some (internal_bucket_for_user user_id b)) None
                  else filter_of_query q None (Some (internal_bucket_prefix user_id))
      | None \<Rightarrow> filter_of_query q None (Some (internal_bucket_prefix user_id)))"

definition user_events_for_user ::
  "('p, 'a) gateway_env \<Rightarrow> string \<Rightarrow> admin_events_query \<Rightarrow> 'a gateway \<Rightarrow> 'a gateway_response \<times> 'a gateway" where
  "user_events_for_user E user_id q =
     admin_events_view E q (user_events_filter user_id q) (rewrite_events_to_external user_id)
       (\<lambda>r. r\<lparr>re_heads := rewrite_bucket_keys user_id (re_heads r),
              re_max_known_seqs := rewrite_bucket_keys user_id (re_max_known_seqs r)\<rparr>)"

definition internal_user_events ::
  "('p, 'a) gateway_env \<Rightarrow> gateway_headers \<Rightarrow> string \<Rightarrow> admin_events_query \<Rightarrow> 'a gateway \<Rightarrow> 'a gateway_response \<times> 'a gateway" where
  "internal_user_events E h user_id q = as_machine h (user_events_for_user E user_id q)"

definition me_user_events ::
  "('p, 'a) gateway_env \<Rightarrow> gateway_headers \<Rightarrow> admin_events_query \<Rightarrow> 'a gateway \<Rightarrow> 'a gateway_response \<times> 'a gateway" where
  "me_user_events E h q = as_me E h ActReadOwnAccount (\<lambda>user_id. user_events_for_user E user_id q)"

subsection \<open>Edge health and nodes\<close>

definition own_health :: "('p, 'a) gateway_env \<Rightarrow> 'a gateway \<Rightarrow> public_edge_health_response" where
  "own_health E g =
     build_gateway_health (gw_mesh_config g) (ge_observed E) (gw_public_edges g) (gw_auth g \<noteq> None) (gw_peers g)"

definition gateway_health :: "('p, 'a) gateway_env \<Rightarrow> 'a gateway \<Rightarrow> 'a gateway_response \<times> 'a gateway" where
  "gateway_health E g = (Response 200 None (BEdgeHealth (own_health E g)), g)"

definition gateway_edges :: "('p, 'a) gateway_env \<Rightarrow> 'a gateway \<Rightarrow> 'a gateway_response \<times> 'a gateway" where
  "gateway_edges E g =
     (case gw_public_edges g of
        None \<Rightarrow> (gateway_unavailable_response ''public edge directory is not configured'', g)
      | Some d \<Rightarrow>
          (Response 200 None (BEdges (ge_observed E 5)
             (build_public_edge_directory_response (ge_fetch_edge E) (own_health E g) d)), g))"

definition own_nodes :: "('p, 'a) gateway_env \<Rightarrow> 'a gateway \<Rightarrow> gateway_node_summary list" where
  "own_nodes E g = summarize_nodes_with_best (ge_text E) (gw_mesh_config g) (ge_observed E) (gw_peers g)"

definition gateway_nodes :: "('p, 'a) gateway_env \<Rightarrow> 'a gateway \<Rightarrow> 'a gateway_response \<times> 'a gateway" where
  "gateway_nodes E g =
     (if gw_auth g \<noteq> None then (not_exposed_response ''gateway nodes'', g)
      else (Response 200 None (BNodes (own_nodes E g)), g))"

definition internal_mesh_nodes :: "('p, 'a) gateway_env \<Rightarrow> gateway_headers \<Rightarrow> 'a gateway \<Rightarrow> 'a gateway_response \<times> 'a gateway" where
  "internal_mesh_nodes E h = as_machine h (\<lambda>g. (Response 200 None (BNodes (own_nodes E g)), g))"

definition proxy_health :: "('p, 'a) gateway_env \<Rightarrow> 'a gateway \<Rightarrow> 'a gateway_response \<times> 'a gateway" where
  "proxy_health E g =
     (if gw_auth g \<noteq> None then (Response 200 None (BEdgeHealth (own_health E g)), g)
      else proxy_read E RqHealth (expect_health E) BHealth g)"

subsection \<open>Routes\<close>

datatype route =
    GetGatewayHealth | GetGatewayEdges | GetGatewayNodes
  | GetInternalUserEvents string admin_events_query
  | GetInternalBucketEvents string string bucket_events_query
  | PostInternalBucketEvents string string gateway_bucket_event_request
  | GetInternalBucket string string
  | GetInternalBuckets string bucket_list_query
  | PostBillingEvents gateway_create_event_request
  | GetBillingBalance owner_bucket_query
  | GetMeshNodes
  | PostMetaBucketDelete string "string option"
  | GetInternalDeletedBuckets
  | GetAdminEvents admin_events_query
  | GetMyBuckets bucket_list_query
  | GetMyDeletedBuckets
  | GetMyBucketEvents string bucket_events_query
  | PostMyBucketEvents string gateway_bucket_event_request
  | GetMyBucket string
  | DeleteMyBucket string "string option"
  | GetMyEvents admin_events_query
  | GetHealth | GetState | GetEvents owner_bucket_query | PostEvents gateway_create_event_request
  | GetHeads | GetBalances owner_bucket_query
  | GetCollapsedAccount string string "string option"
  | GetCollapsed owner_bucket_query
  | GetPersistence | GetDigests | GetDebugOrigin string | GetRegistry

fun handle_route ::
  "('p, 'a) gateway_env \<Rightarrow> gateway_headers \<Rightarrow> route \<Rightarrow> 'a gateway \<Rightarrow> 'a gateway_response \<times> 'a gateway" where
  "handle_route E h GetGatewayHealth = gateway_health E"
| "handle_route E h GetGatewayEdges = gateway_edges E"
| "handle_route E h GetGatewayNodes = gateway_nodes E"
| "handle_route E h (GetInternalUserEvents u q) = internal_user_events E h u q"
| "handle_route E h (GetInternalBucketEvents u b q) = internal_bucket_events E h u b q"
| "handle_route E h (PostInternalBucketEvents u b r) = internal_create_bucket_event E h u b r"
| "handle_route E h (GetInternalBucket u b) = internal_bucket_detail E h u b"
| "handle_route E h (GetInternalBuckets u q) = internal_bucket_list E h u q"
| "handle_route E h (PostBillingEvents r) = internal_billing_create_event E h r"
| "handle_route E h (GetBillingBalance q) = internal_billing_balance E h q"
| "handle_route E h GetMeshNodes = internal_mesh_nodes E h"
| "handle_route E h (PostMetaBucketDelete b reason) = internal_meta_bucket_delete E h b reason"
| "handle_route E h GetInternalDeletedBuckets = internal_deleted_buckets E h"
| "handle_route E h (GetAdminEvents q) = internal_admin_events E h q"
| "handle_route E h (GetMyBuckets q) = me_bucket_list E h q"
| "handle_route E h GetMyDeletedBuckets = me_deleted_buckets E h"
| "handle_route E h (GetMyBucketEvents b q) = me_bucket_events E h b q"
| "handle_route E h (PostMyBucketEvents b r) = me_create_bucket_event E h b r"
| "handle_route E h (GetMyBucket b) = me_bucket_detail E h b"
| "handle_route E h (DeleteMyBucket b mode) = me_delete_bucket E h b mode"
| "handle_route E h (GetMyEvents q) = me_user_events E h q"
| "handle_route E h GetHealth = proxy_health E"
| "handle_route E h GetState = proxy_state E"
| "handle_route E h (GetEvents q) = proxy_events E h q"
| "handle_route E h (PostEvents r) = proxy_create_event E h r"
| "handle_route E h GetHeads = proxy_heads E"
| "handle_route E h (GetBalances q) = proxy_balances E h q"
| "handle_route E h (GetCollapsedAccount b acct owner) = proxy_collapsed_account E h b acct owner"
| "handle_route E h (GetCollapsed q) = proxy_collapsed E h q"
| "handle_route E h GetPersistence = proxy_persistence E"
| "handle_route E h GetDigests = proxy_digests E"
| "handle_route E h (GetDebugOrigin i) = proxy_debug_origin E i"
| "handle_route E h GetRegistry = proxy_registry E"

end
