(* ===== verification/Gateway_Calls.thy ===== *)
theory Gateway_Calls
  imports Gateway_Views
begin

section \<open>The requests a route may send\<close>

text \<open>
  Which requests each handler adds to the calls of the gateway, and on whose behalf.
\<close>

subsection \<open>Requests on behalf of a user\<close>

fun write_target :: "node_rpc_request \<Rightarrow> string option" where
  "write_target (RqCreateEvent r) = Some (req_bucket r)"
| "write_target (RqDeleteBucket b _) = Some b"
| "write_target _ = None"

text \<open>The API key of the headers is allowed to act for user \<open>u\<close>.\<close>

definition granted :: "('p, 'a) gateway_env \<Rightarrow> gateway_auth_client \<Rightarrow> gateway_headers \<Rightarrow> string \<Rightarrow> bool" where
  "granted E auth h u \<longleftrightarrow>
     (\<exists>api_key action b d. bearer_token h = Some api_key \<and> fst (authorize E api_key action b auth) = Inr d \<and>
        dd_allowed d \<and> dd_user_id d = Some u)"

definition own_write :: "('p, 'a) gateway_env \<Rightarrow> gateway_auth_client \<Rightarrow> gateway_headers \<Rightarrow> node_rpc_request \<Rightarrow> bool" where
  "own_write E auth h req \<longleftrightarrow>
     (\<exists>u b. granted E auth h u \<and> write_target req = Some (internal_bucket_for_user u b)) \<and>
     (case req of RqCreateEvent r \<Rightarrow> \<not> req_allow_reserved_bucket r | _ \<Rightarrow> True)"

definition own_deduction :: "('p, 'a) gateway_env \<Rightarrow> gateway_auth_client \<Rightarrow> gateway_headers \<Rightarrow> node_rpc_request \<Rightarrow> bool" where
  "own_deduction E auth h req \<longleftrightarrow>
     (\<exists>u cost label. granted E auth h u \<and> req = RqCreateEvent (deduct_request E u cost label))"

text \<open>What a handler adds to the requests of the gateway.\<close>

definition adds ::
  "(node_rpc_request \<Rightarrow> bool) \<Rightarrow> (node_rpc_request \<Rightarrow> bool) \<Rightarrow> 'a gateway \<Rightarrow> 'a gateway \<Rightarrow> bool" where
  "adds P Q g g' \<longleftrightarrow>
     (\<exists>calls spawned. gw_calls g' = gw_calls g @ calls \<and> gw_spawned g' = gw_spawned g @ spawned \<and>
        list_all P calls \<and> list_all Q spawned)"

lemma adds_refl [simp]: "adds P Q g g"
  by (simp add: adds_def)

lemma adds_trans: "adds P Q g g1 \<Longrightarrow> adds P Q g1 g2 \<Longrightarrow> adds P Q g g2"
  unfolding adds_def by (metis append_assoc list_all_append)

lemma adds_auth [simp]: "adds P Q g (g\<lparr>gw_auth := a\<rparr>)"
  by (simp add: adds_def)

lemma adds_mesh_request: "P req \<Longrightarrow> adds P Q g (snd (mesh_request E req g))"
  by (auto simp: mesh_request_def adds_def Let_def split: prod.splits)

lemma adds_spawn: "Q req \<Longrightarrow> adds P Q g (spawn_request req g)"
  by (simp add: adds_def spawn_request_def)

text \<open>Most handlers leave the gateway as their call of the mesh left it.\<close>

lemma call_states:
  "snd (request_best_typed E req expect g) = snd (mesh_request E req g)"
  "snd (proxy_read E req expect body g) = snd (mesh_request E req g)"
  "snd (request_delete E target reason shown g) = snd (mesh_request E (RqDeleteBucket target reason) g)"
  "snd (admin_events_view E q flt sp se g) = snd (mesh_request E (RqEventsFilter flt) g)"
proof -
  show typed: "snd (request_best_typed E req expect g) = snd (mesh_request E req g)"
    for req and expect :: "node_rpc_response \<Rightarrow> string + 'y"
    by (auto simp: request_best_typed_def split: prod.split sum.split)
  show "snd (proxy_read E req expect body g) = snd (mesh_request E req g)"
    using typed [of req expect] by (auto simp: proxy_read_def split: prod.splits sum.splits)
  show "snd (request_delete E target reason shown g) = snd (mesh_request E (RqDeleteBucket target reason) g)"
    by (auto simp: request_delete_def split: prod.split sum.split node_rpc_response.split)
  show "snd (admin_events_view E q flt sp se g) = snd (mesh_request E (RqEventsFilter flt) g)"
    using typed [of "RqEventsFilter flt" "expect_events_filter E"]
    by (auto simp: admin_events_view_def split: prod.splits sum.splits option.splits)
qed

lemma submit_state:
  "snd (submit_create_event E external internal r rw allow g) = g \<or>
   (\<exists>cr. req_bucket cr = internal \<and> req_allow_reserved_bucket cr = allow \<and>
      snd (submit_create_event E external internal r rw allow g) = snd (mesh_request E (RqCreateEvent cr) g))"
proof (cases "validate_event_note (gbr_note r)")
  case Inl
  then show ?thesis by (simp add: submit_create_event_def)
next
  case v: Inr
  show ?thesis
  proof (cases "normalized_query (gbr_idempotency_nonce r)")
    case None
    with v show ?thesis by (simp add: submit_create_event_def)
  next
    case (Some nonce)
    define cr where "cr = (if allow then (into_create_request r nonce internal)\<lparr>req_allow_reserved_bucket := allow, req_skip_hold := Some True\<rparr>
      else (into_create_request r nonce internal)\<lparr>req_allow_reserved_bucket := allow\<rparr>)"
    have "req_bucket cr = internal" "req_allow_reserved_bucket cr = allow" by (simp_all add: cr_def into_create_request_def)
    moreover have "snd (submit_create_event E external internal r rw allow g) = snd (mesh_request E (RqCreateEvent cr) g)"
    proof -
      obtain x g1 where m: "mesh_request E (RqCreateEvent cr) g = (x, g1)" by fastforce
      have "(if allow then ((into_create_request r nonce internal)\<lparr>req_allow_reserved_bucket := allow\<rparr>)\<lparr>req_skip_hold := Some True\<rparr>
          else (into_create_request r nonce internal)\<lparr>req_allow_reserved_bucket := allow\<rparr>) = cr"
        by (simp add: cr_def)
      with v Some m show ?thesis
        by (simp add: submit_create_event_def Let_def split: sum.split prod.split node_rpc_response.split)
    qed
    ultimately show ?thesis by blast
  qed
qed

subsection \<open>Authorization\<close>

lemma authorize_request_granted:
  assumes "fst (authorize_request E h action b auth g) = Inr u"
  shows "granted E auth h u"
proof -
  obtain api_key where k: "bearer_token h = Some api_key"
    using assms by (cases "bearer_token h") (auto simp: authorize_request_def)
  obtain r auth1 where a: "authorize E api_key action b auth = (r, auth1)" by fastforce
  with assms k obtain d where "r = Inr d" "dd_allowed d" "dd_user_id d = Some u"
    by (cases r) (auto simp: authorize_request_def decide_access_def Let_def split: if_splits option.splits)
  with k a show ?thesis unfolding granted_def
    by (intro exI [of _ api_key] exI [of _ action] exI [of _ b] exI [of _ d]) simp
qed

lemma adds_authorize_request: "adds P Q g (snd (authorize_request E h action b auth g))"
  by (auto simp: authorize_request_def split: option.splits prod.splits sum.splits)

lemma adds_billing:
  assumes "P RqBalances" "Q (RqCreateEvent (deduct_request E u cost label))"
  shows "adds P Q g (snd (billing_check_and_deduct E u cost label g))"
proof -
  have "adds P Q g (snd (mesh_request E RqBalances g))" by (rule adds_mesh_request) (rule assms)
  then show ?thesis using adds_spawn [of Q, OF assms(2), of P]
    by (auto simp: billing_check_and_deduct_def case_prod_unfold intro: adds_trans)
qed

lemma authorize_and_bill_ok:
  assumes "P RqBalances" and "\<And>u. granted E auth h u \<Longrightarrow> Q (RqCreateEvent (deduct_request E u cost label))"
  shows "adds P Q g (snd (authorize_and_bill E h action b cost label auth g)) \<and>
     (\<forall>u. fst (authorize_and_bill E h action b cost label auth g) = Inr u \<longrightarrow> granted E auth h u)"
proof (cases "fst (authorize_request E h action b auth g)")
  case (Inl resp)
  then show ?thesis using adds_authorize_request [of P Q g E h action b auth]
    by (auto simp: authorize_and_bill_def case_prod_unfold)
next
  case (Inr u)
  then have u: "granted E auth h u" by (rule authorize_request_granted)
  let ?g0 = "snd (authorize_request E h action b auth g)"
  have "adds P Q g (snd (billing_check_and_deduct E u cost label ?g0))"
    by (rule adds_trans [OF adds_authorize_request adds_billing]) (use assms u in auto)
  with Inr u show ?thesis by (auto simp: authorize_and_bill_def case_prod_unfold split: sum.splits)
qed

lemma as_machine_refused:
  assumes "gw_auth g = Some auth" "hd_machine_auth_secret h \<noteq> Some (ga_shared_secret auth)"
  shows "snd (as_machine h handler g) = g"
  using assms by (auto simp: as_machine_def authorize_internal_machine_def split: option.splits)

lemma adds_as_me:
  assumes "gw_auth g = Some auth" and "\<And>u g0. granted E auth h u \<Longrightarrow> adds P Q g0 (snd (handler u g0))"
  shows "adds P Q g (snd (as_me E h action handler g))"
proof (cases "fst (authorize_me_request E h action auth g)")
  case (Inl resp)
  with assms(1) show ?thesis using adds_authorize_request [of P Q g E h action "''*''" auth]
    by (auto simp: as_me_def case_prod_unfold authorize_me_request_def)
next
  case (Inr u)
  then have u: "granted E auth h u" by (simp add: authorize_me_request_def authorize_request_granted)
  have "adds P Q g (snd (handler u (snd (authorize_me_request E h action auth g))))"
    unfolding authorize_me_request_def by (rule adds_trans [OF adds_authorize_request assms(2) [OF u]])
  with Inr assms(1) show ?thesis by (auto simp: as_me_def case_prod_unfold)
qed

subsection \<open>Every route\<close>

lemma adds_submit:
  assumes "\<And>cr. req_bucket cr = internal \<Longrightarrow> \<not> req_allow_reserved_bucket cr \<Longrightarrow> P (RqCreateEvent cr)"
  shows "adds P Q g (snd (submit_create_event E external internal r rw False g))"
  using submit_state [of E external internal r rw False g] assms by (auto simp: adds_mesh_request)

lemma adds_bucket_detail:
  assumes "P RqBalances" "\<And>r. P (RqEventsFilter r)"
  shows "adds P Q g (snd (bucket_detail_for_user E u b g))"
proof -
  let ?g0 = "snd (mesh_request E RqBalances g)"
  let ?req = "RqEventsFilter (everything_of (internal_bucket_for_user u b))"
  have "adds P Q g ?g0" by (rule adds_mesh_request) (rule assms)
  moreover have "adds P Q ?g0 (snd (mesh_request E ?req ?g0))" by (rule adds_mesh_request) (rule assms)
  ultimately have "adds P Q g ?g0 \<and> adds P Q g (snd (mesh_request E ?req ?g0))" by (blast intro: adds_trans)
  moreover have "snd (bucket_detail_for_user E u b g) \<in> {?g0, snd (mesh_request E ?req ?g0)}"
    using call_states(1) [of E RqBalances "expect_balances E" g] call_states(1) [of E ?req "expect_events_filter E" ?g0]
    by (auto simp: bucket_detail_for_user_def Let_def split: prod.splits sum.splits option.splits)
  ultimately show ?thesis by auto
qed

lemma adds_scoped_read:
  assumes "gw_auth g = Some auth" "P req" "P RqBalances"
    and "\<And>u. granted E auth h u \<Longrightarrow> Q (RqCreateEvent (deduct_request E u 1 ''read''))"
  shows "adds P Q g (snd (scoped_read E req expect body scope h q g))"
proof -
  have a: "adds P Q g (snd (authorize_and_bill E h ActRead b 1 ''read'' auth g))" for b
    using authorize_and_bill_ok [of P E auth h Q 1 "''read''"] assms(3,4) by blast
  have "adds P Q g (snd (mesh_request E req (snd (authorize_and_bill E h ActRead b 1 ''read'' auth g))))" for b
    by (rule adds_trans [OF a adds_mesh_request]) (rule assms)
  with a assms(1) show ?thesis
    by (auto simp: scoped_read_def case_prod_unfold call_states split: sum.split option.split)
qed

end
