(* ===== verification/Gateway_Guarantees.thy ===== *)
theory Gateway_Guarantees
  imports Gateway_Calls Mesh_Selection Service Guarantees
begin

section \<open>What the gateway guarantees\<close>

text \<open>
  Whom a route may write for, what a read shows, which cached decision an authorization may reuse, and what
  billing does to a caller and to the ledger.
\<close>

subsection \<open>Writes\<close>

definition call_ok :: "('p, 'a) gateway_env \<Rightarrow> gateway_auth_client \<Rightarrow> gateway_headers \<Rightarrow> node_rpc_request \<Rightarrow> bool" where
  "call_ok E auth h req \<longleftrightarrow> write_target req \<noteq> None \<longrightarrow> own_write E auth h req"

lemma call_ok_read: "write_target req = None \<Longrightarrow> call_ok E auth h req"
  by (simp add: call_ok_def)

lemma call_ok_create:
  "granted E auth h u \<Longrightarrow> req_bucket cr = internal_bucket_for_user u b \<Longrightarrow> \<not> req_allow_reserved_bucket cr \<Longrightarrow>
     call_ok E auth h (RqCreateEvent cr)"
  by (auto simp: call_ok_def own_write_def)

lemma call_ok_delete: "granted E auth h u \<Longrightarrow> call_ok E auth h (RqDeleteBucket (internal_bucket_for_user u b) reason)"
  by (auto simp: call_ok_def own_write_def)

lemma own_deduction_intro: "granted E auth h u \<Longrightarrow> own_deduction E auth h (RqCreateEvent (deduct_request E u cost label))"
  by (auto simp: own_deduction_def)

lemma adds_proxy_create:
  assumes "gw_auth g = Some auth"
  shows "adds (call_ok E auth h) (own_deduction E auth h) g (snd (proxy_create_event E h r g))"
proof -
  let ?bill = "authorize_and_bill E h ActWrite (gcr_bucket r) 10 ''write'' auth g"
  have a: "adds (call_ok E auth h) (own_deduction E auth h) g (snd ?bill)"
    and u: "\<And>u. fst ?bill = Inr u \<Longrightarrow> granted E auth h u"
    using authorize_and_bill_ok [of "call_ok E auth h" E auth h "own_deduction E auth h" 10 "''write''" g ActWrite "gcr_bucket r"]
    by (auto simp: call_ok_read own_deduction_intro)
  have "adds (call_ok E auth h) (own_deduction E auth h) g
      (snd (submit_create_event E (gcr_bucket r) (internal_bucket_for_user u (gcr_bucket r)) (gcr_event r) True False (snd ?bill)))"
    if "fst ?bill = Inr u" for u
    by (rule adds_trans [OF a adds_submit]) (auto intro: call_ok_create u that)
  with a assms show ?thesis
    by (auto simp: proxy_create_event_def case_prod_unfold split: sum.split)
qed

lemma adds_collapsed_account:
  assumes "gw_auth g = Some auth"
  shows "adds (call_ok E auth h) (own_deduction E auth h) g (snd (proxy_collapsed_account E h b acct owner g))"
proof -
  let ?bill = "authorize_and_bill E h ActRead b 1 ''read'' auth g"
  have a: "adds (call_ok E auth h) (own_deduction E auth h) g (snd ?bill)"
    using authorize_and_bill_ok [of "call_ok E auth h" E auth h "own_deduction E auth h" 1 "''read''" g ActRead b]
    by (auto simp: call_ok_read own_deduction_intro)
  have "adds (call_ok E auth h) (own_deduction E auth h) g (snd (mesh_request E (RqCollapsedAccount x acct) (snd ?bill)))" for x
    by (rule adds_trans [OF a adds_mesh_request]) (simp add: call_ok_read)
  with a assms show ?thesis
    by (auto simp: proxy_collapsed_account_def case_prod_unfold call_states split: sum.split)
qed

lemmas machine_routes =
  internal_user_events_def internal_bucket_events_def internal_create_bucket_event_def internal_bucket_detail_def
  internal_bucket_list_def internal_billing_create_event_def internal_billing_balance_def internal_mesh_nodes_def
  internal_meta_bucket_delete_def internal_deleted_buckets_def internal_admin_events_def

lemmas plain_routes =
  gateway_health_def gateway_edges_def gateway_nodes_def proxy_health_def proxy_state_def proxy_heads_def
  proxy_persistence_def proxy_digests_def proxy_debug_origin_def proxy_registry_def hidden_read_def

lemma adds_my_routes:
  assumes "gw_auth g = Some auth"
  shows "adds (call_ok E auth h) Q g (snd (me_bucket_list E h bq g))"
    and "adds (call_ok E auth h) Q g (snd (me_deleted_buckets E h g))"
    and "adds (call_ok E auth h) Q g (snd (me_bucket_events E h b eq g))"
    and "adds (call_ok E auth h) Q g (snd (me_create_bucket_event E h b r g))"
    and "adds (call_ok E auth h) Q g (snd (me_bucket_detail E h b g))"
    and "adds (call_ok E auth h) Q g (snd (me_delete_bucket E h b mode g))"
    and "adds (call_ok E auth h) Q g (snd (me_user_events E h aq g))"
  unfolding me_bucket_list_def me_deleted_buckets_def me_bucket_events_def me_create_bucket_event_def me_bucket_detail_def
    me_delete_bucket_def me_user_events_def
  using assms
  by (auto intro!: adds_as_me adds_mesh_request adds_submit adds_bucket_detail
      simp: bucket_list_for_user_def deleted_buckets_response_def bucket_events_for_user_def create_bucket_event_for_user_def
        user_events_for_user_def call_states call_ok_read call_ok_create call_ok_delete case_prod_unfold)

lemma route_adds:
  assumes "gw_auth g = Some auth" "hd_machine_auth_secret h \<noteq> Some (ga_shared_secret auth)"
  shows "adds (call_ok E auth h) (own_deduction E auth h) g (snd (handle_route E h rt g))"
  using assms as_machine_refused [OF assms]
  by (cases rt)
    (auto simp: machine_routes plain_routes adds_my_routes adds_proxy_create adds_collapsed_account
      proxy_events_def proxy_balances_def proxy_collapsed_def call_ok_read own_deduction_intro
      intro!: adds_scoped_read split: option.split)


subsection \<open>Reads\<close>

definition is_success :: "'a gateway_response \<Rightarrow> bool" where
  "is_success resp = (case resp of Response st _ _ \<Rightarrow> 200 \<le> st \<and> st < 300 | Panicked \<Rightarrow> False)"

lemmas response_defs = json_response_def gateway_unavailable_response_def gateway_internal_response_def unauthorized_def
  forbidden_def bad_request_def payment_required_def not_exposed_response_def

lemma error_responses [simp]:
  "\<not> is_success (bad_request m)" "\<not> is_success (gateway_unavailable_response m)" "\<not> is_success (unauthorized m)"
  "\<not> is_success (forbidden m)" "\<not> is_success payment_required" "\<not> is_success (gateway_internal_response n m)"
  "\<not> is_success (not_exposed_response m)" "\<not> is_success (rpc_error_response node err)"
  by (simp_all add: is_success_def response_defs rpc_error_response_def split: node_rpc_error_code.split option.split)

lemma authorize_and_bill_refuses:
  "fst (authorize_and_bill E h action b cost label auth g) = Inl resp \<Longrightarrow> \<not> is_success resp"
  by (auto simp: authorize_and_bill_def authorize_request_def decide_access_def billing_check_and_deduct_def Let_def
      split: option.splits prod.splits sum.splits if_splits)

lemma proxy_read_success:
  assumes "fst (proxy_read E req expect body g) = resp" "is_success resp"
  obtains n ans x where "fst (mesh_request E req g) = Inr (n, Inr ans)" "expect ans = Inr x" "resp = Response 200 (Some n) (body x)"
  using assms
  by (auto simp: proxy_read_def request_best_typed_def json_response_def split: prod.splits sum.splits)

lemma scoped_read_success:
  assumes "gw_auth g = Some auth" "fst (scoped_read E req expect body scope h q g) = resp" "is_success resp"
  obtains u b g1 n ans x where "granted E auth h u" "oq_bucket q = Some b" "fst (mesh_request E req g1) = Inr (n, Inr ans)"
    "expect ans = Inr x" "resp = Response 200 (Some n) (body (scope (internal_bucket_for_user u b) b x))"
proof -
  obtain b where b: "oq_bucket q = Some b" "reject_legacy_owner (oq_owner q) owner_query_message = Inr ()" "require_bucket_query q = Inr b"
    using assms by (auto simp: scoped_read_def require_bucket_query_def split: sum.splits option.splits if_splits)
  let ?bill = "authorize_and_bill E h ActRead b 1 ''read'' auth g"
  obtain u where u: "fst ?bill = Inr u"
    using assms b authorize_and_bill_refuses [of E h ActRead b 1 "''read''" auth g]
    by (cases "fst ?bill") (auto simp: scoped_read_def case_prod_unfold)
  have gr: "granted E auth h u"
    using authorize_and_bill_ok [of "\<lambda>_. True" E auth h "\<lambda>_. True" 1 "''read''" g ActRead b] u by simp
  have "fst (proxy_read E req expect (\<lambda>x. body (scope (internal_bucket_for_user u b) b x)) (snd ?bill)) = resp"
    using assms b u by (simp add: scoped_read_def case_prod_unfold)
  then obtain n ans x where "fst (mesh_request E req (snd ?bill)) = Inr (n, Inr ans)" "expect ans = Inr x"
    "resp = Response 200 (Some n) (body (scope (internal_bucket_for_user u b) b x))"
    using assms(3) by (rule proxy_read_success)
  with gr b(1) that show thesis by blast
qed

lemma expect_results:
  "expect_events E ans = Inr es \<longleftrightarrow> ans = RsEvents es"
  "expect_balances E ans = Inr bal \<longleftrightarrow> ans = RsBalances bal"
  "expect_collapsed E ans = Inr m \<longleftrightarrow> ans = RsCollapsed m"
  by (cases ans; simp add: unexpected_def; fail)+

lemma strip_prefix_append [simp]: "strip_prefix p (p @ s) = Some s"
  by (simp add: strip_prefix_def)

lemma strip_prefix_eq: "strip_prefix p s = Some r \<longleftrightarrow> s = p @ r"
  by (auto simp: strip_prefix_def prefix_def)

lemma filter_collapsed_step:
  "fmlookup (fold (\<lambda>(k, v) out. case strip_prefix p k of None \<Rightarrow> out | Some a \<Rightarrow> fmupd (p' @ a) v out) xs out) (p' @ a) =
     (case find (\<lambda>x. fst x = p @ a) (rev xs) of Some x \<Rightarrow> Some (snd x) | None \<Rightarrow> fmlookup out (p' @ a))"
proof (induction xs arbitrary: out)
  case (Cons x xs)
  obtain k v where x: "x = (k, v)" by fastforce
  have s: "find P (ys @ [y]) = (case find P ys of Some z \<Rightarrow> Some z | None \<Rightarrow> if P y then Some y else None)"
    for P ys and y :: "string \<times> 'a" by (induction ys) auto
  show ?case
    by (cases "strip_prefix p k") (auto simp: Cons x s strip_prefix_eq split: option.splits)
qed simp

lemma find_rev_entries: "find (\<lambda>x. fst x = k) (rev (fm_entries m)) = map_option (Pair k) (fmlookup m k)"
proof (cases "fmlookup m k")
  case None
  then show ?thesis by (fastforce simp: find_None_iff)
next
  case (Some v)
  then have mem: "(k, v) \<in> set (rev (fm_entries m))" by simp
  then obtain x where x: "find (\<lambda>x. fst x = k) (rev (fm_entries m)) = Some x"
    using find_None_iff [of "\<lambda>x. fst x = k" "rev (fm_entries m)"] by (cases "find (\<lambda>x. fst x = k) (rev (fm_entries m))") force+
  then obtain i where i: "i < length (rev (fm_entries m))" "fst x = k" "x = rev (fm_entries m) ! i"
    unfolding find_Some_iff by blast
  then have "x \<in> set (rev (fm_entries m))" by (simp only: nth_mem)
  with Some i(2) have "x = (k, v)" by (cases x) auto
  with x Some show ?thesis by simp
qed

lemma filter_collapsed_lookup:
  "fmlookup (filter_collapsed m internal external) (external @ '':'' @ a) = fmlookup m (internal @ '':'' @ a)"
  using filter_collapsed_step [where p = "internal @ '':''" and p' = "external @ '':''" and xs = "fm_entries m" and out = fmempty and a = a,
      unfolded append_assoc]
  by (simp add: filter_collapsed_def find_rev_entries split: option.splits)


subsection \<open>A small gateway\<close>

text \<open>One user, one API key, the two-node mesh; every node knows one event of the user and one of somebody else.\<close>

definition sample_user :: string where
  "sample_user = ''01234567-89ab-cdef-0123-456789abcdef''"

definition sample_decision :: dashboard_decision where
  "sample_decision = \<lparr>dd_valid = True, dd_allowed = True, dd_user_id = Some sample_user, dd_cache_ttl_ms = 60, dd_denial_reason = None\<rparr>"

definition stored_event :: "string \<Rightarrow> string \<Rightarrow> event" where
  "stored_event i b =
     \<lparr>event_id = i, origin_node_id = ''n'', origin_epoch = 1, origin_seq = 1, created_at_unix_ms = 1, etype = Standard,
      bucket = b, account = ''a'', amount = 5, event_note = None, idempotency_nonce = i, void_ref = None, hold_amount = 0,
      hold_expires_at_unix_ms = 0, transfer_to = None\<rparr>"

definition sample_credits :: account_balance where
  "sample_credits =
     \<lparr>ab_bucket = billing_bucket_for_user sample_user, ab_account = ''credits'', ab_balance = 5, ab_available_balance = 5,
      ab_active_hold_total = 0, ab_reserved_by_origin = fmempty, ab_event_count = 1\<rparr>"

fun sample_answer :: "node_rpc_request \<Rightarrow> node_rpc_response" where
  "sample_answer RqBalances = RsBalances \<lparr>br_accounts = [sample_credits], br_total_balance = 5\<rparr>"
| "sample_answer RqEvents = RsEvents [stored_event ''e1'' (internal_bucket_for_user sample_user ''b''), stored_event ''e2'' ''other'']"
| "sample_answer _ = RsHeads fmempty"

definition sample_gateway_env :: "(string, string) gateway_env" where
  "sample_gateway_env =
     \<lparr>ge_text = plain_text, ge_ask = (\<lambda>_ _ _ req. Inr (Inr (sample_answer req))), ge_drift = (\<lambda>_ _ ps. ps), ge_marked_at = (\<lambda>_ _. 10),
      ge_now = (\<lambda>_. 10), ge_sorted_at = (\<lambda>_. 10), ge_direct = (\<lambda>_ _. Inl []), ge_introspect = (\<lambda>_ _ _. Decided sample_decision),
      ge_auth_now = 10, ge_debug = (\<lambda>_. []), ge_sha = (\<lambda>x. x), ge_new_uuid = ''u'', ge_to_lowercase = (\<lambda>s. s),
      ge_to_uppercase = (\<lambda>s. s), ge_fetch_edge = (\<lambda>_. None), ge_observed = (\<lambda>_. 10)\<rparr>"

definition sample_auth :: gateway_auth_client where
  "sample_auth = \<lparr>ga_shared_secret = ''s'', ga_cache = fmempty\<rparr>"

definition sample_gateway :: "string gateway" where
  "sample_gateway =
     \<lparr>gw_auth = Some sample_auth, gw_mesh_config = sample_config, gw_peers = sample_peers, gw_public_edges = None,
      gw_calls = [], gw_spawned = []\<rparr>"

definition sample_headers :: gateway_headers where
  "sample_headers = \<lparr>hd_authorization = Some ''Bearer key'', hd_machine_auth_secret = None\<rparr>"

lemma sample_uuid: "uuid_text sample_user"
  by code_simp

lemma sample_token: "bearer_token sample_headers = Some ''key''"
  by code_simp

lemma sample_mark: "mark_success ''calm'' sample_peers = sample_peers"
  by (rule fmap_ext)
    (auto simp: mark_success_def modify_peer_lookup sample_peers_def sample_peer_def)

lemma answering_mesh_request:
  assumes "gw_mesh_config g = sample_config" "gw_peers g = sample_peers"
  shows "mesh_request (sample_gateway_env\<lparr>ge_ask := \<lambda>_ _ _ req. Inr (Inr (answer req))\<rparr>) req g =
     (Inr (calm_node, Inr (answer req)), g\<lparr>gw_calls := gw_calls g @ [req]\<rparr>)"
proof -
  have "parse_peer_id plain_text (mn_peer_id calm_node) = Inr ''calm''" "mn_peer_id calm_node = ''calm''"
    by (simp_all add: plain_text_def into_node_def sample_peer_def)
  moreover have "all_nodes sample_config 10 sample_peers \<noteq> []" by (simp add: all_nodes_empty sample_candidates)
  ultimately show ?thesis using assms
    by (simp add: mesh_request_def sample_gateway_env_def request_best_with_node_def sample_request_order sample_mark Let_def)
qed

lemma sample_mesh_request:
  assumes "gw_mesh_config g = sample_config" "gw_peers g = sample_peers"
  shows "mesh_request sample_gateway_env req g = (Inr (calm_node, Inr (sample_answer req)), g\<lparr>gw_calls := gw_calls g @ [req]\<rparr>)"
  using answering_mesh_request [OF assms, of sample_answer] by (simp add: sample_gateway_env_def)

lemma sample_authorize:
  "authorize sample_gateway_env k a b sample_auth =
     (Inr sample_decision, sample_auth\<lparr>ga_cache := fmupd (auth_cache_key (\<lambda>x. x) k a b)
        \<lparr>cd_decision = sample_decision, cd_expires_at_unix_ms = 70\<rparr> fmempty\<rparr>)"
  by (simp add: authorize_def sample_auth_def sample_gateway_env_def sample_decision_def Let_def)

lemma sample_granted: "granted sample_gateway_env sample_auth sample_headers sample_user"
  by (auto simp: granted_def sample_token sample_authorize sample_decision_def)

definition sample_post :: gateway_bucket_event_request where
  "sample_post =
     \<lparr>gbr_account = ''a'', gbr_amount = 5, gbr_note = None, gbr_idempotency_nonce = Some ''k'', gbr_max_overdraft = None,
      gbr_min_acks = None, gbr_ack_timeout_ms = None, gbr_hold_amount = None, gbr_hold_expires_at_unix_ms = None,
      gbr_settle_reservation = None, gbr_release_reservation = None, gbr_skip_hold = None, gbr_transfer_to = None\<rparr>"

lemma trim_k: "trim ''k'' = ''k''"
  by code_simp

lemma sample_post_calls:
  "gw_calls (snd (handle_route sample_gateway_env sample_headers (PostMyBucketEvents ''b'' sample_post) sample_gateway)) =
     [RqCreateEvent (into_create_request sample_post ''k'' (internal_bucket_for_user sample_user ''b''))]"
  by (simp add: me_create_bucket_event_def as_me_def sample_gateway_def authorize_me_request_def authorize_request_def sample_token
      sample_authorize decide_access_def sample_decision_def create_bucket_event_for_user_def submit_create_event_def
      validate_event_note_def normalized_query_def sample_post_def trim_k Let_def into_create_request_def
      sample_mesh_request)


definition sample_query :: owner_bucket_query where
  "sample_query = \<lparr>oq_owner = None, oq_bucket = Some ''b''\<rparr>"

lemma sample_query_ok: "require_bucket_query sample_query = Inr ''b''" "oq_owner sample_query = None"
  by code_simp+

lemma sample_bill:
  "authorize_and_bill sample_gateway_env sample_headers ActRead ''b'' 1 ''read'' sample_auth sample_gateway =
     (Inr sample_user, spawn_request (RqCreateEvent (deduct_request sample_gateway_env sample_user 1 ''read''))
        (sample_gateway\<lparr>gw_auth := Some (snd (authorize sample_gateway_env ''key'' ActRead ''b'' sample_auth)), gw_calls := [RqBalances]\<rparr>))"
  by (simp add: authorize_and_bill_def authorize_request_def sample_token sample_authorize decide_access_def sample_decision_def
      billing_check_and_deduct_def sample_mesh_request sample_gateway_def credits_in_def sample_credits_def signed_le_sint)

lemma sample_events_success:
  "fst (proxy_events sample_gateway_env sample_headers sample_query sample_gateway) =
     Response 200 (Some calm_node) (BEvents [stored_event ''e1'' ''b''])"
proof -
  have "internal_bucket_for_user sample_user ''b'' \<noteq> ''other''" by (simp add: internal_bucket_for_user_def)
  then show ?thesis
    using sample_query_ok sample_bill
    by (simp add: proxy_events_def scoped_read_def reject_legacy_owner_def proxy_read_def request_best_typed_def spawn_request_def
        sample_mesh_request json_response_def scoped_events_def stored_event_def sample_gateway_def)
qed


end
