(* ===== verification/Gateway_Auth.thy ===== *)
theory Gateway_Auth
  imports Gateway_Guarantees
begin

section \<open>Cached authorization and billing of the gateway\<close>

text \<open>
  A cached decision is one that the dashboard gave for the same key, action and bucket. The
  hash of the cache key is an argument; that it has no collisions is the hypothesis \<open>inj sha\<close>. An API key comes from a header and
  has no zero byte.
\<close>

subsection \<open>Cache keys\<close>

lemma action_text_no_zero: "CHR 0x00 \<notin> set (action_text a)"
  by (cases a) simp_all

lemma action_text_inj: "action_text a = action_text a' \<longleftrightarrow> a = a'"
  by (cases a; cases a'; simp)

lemma append_zero_eq: "CHR 0x00 \<notin> set p \<Longrightarrow> CHR 0x00 \<notin> set p' \<Longrightarrow>
    p @ CHR 0x00 # s = p' @ CHR 0x00 # s' \<longleftrightarrow> p = p' \<and> s = s'"
  by (metis option.inject prod.inject split_once_append)

lemma auth_cache_key_inj:
  assumes "inj sha" "CHR 0x00 \<notin> set k" "CHR 0x00 \<notin> set k'"
  shows "auth_cache_key sha k a b = auth_cache_key sha k' a' b' \<longleftrightarrow> k = k' \<and> a = a' \<and> b = b'"
proof -
  have "auth_cache_key sha k a b = auth_cache_key sha k' a' b' \<longleftrightarrow>
      k @ CHR 0x00 # action_text a @ CHR 0x00 # b = k' @ CHR 0x00 # action_text a' @ CHR 0x00 # b'"
    using assms(1) by (simp add: auth_cache_key_def hex_inj inj_eq)
  with assms(2,3) show ?thesis
    by (simp add: append_zero_eq action_text_no_zero action_text_inj)
qed

subsection \<open>Runs of the authorization client\<close>

type_synonym ('p, 'a) auth_call = "('p, 'a) gateway_env \<times> string \<times> gateway_machine_action \<times> string"

inductive auth_run :: "(bytes \<Rightarrow> bytes) \<Rightarrow> ('p, 'a) auth_call list \<Rightarrow> gateway_auth_client \<Rightarrow> bool" for sha where
  auth_start: "ga_cache auth = fmempty \<Longrightarrow> auth_run sha [] auth"
| auth_step: "auth_run sha calls auth \<Longrightarrow> ge_sha E = sha \<Longrightarrow> CHR 0x00 \<notin> set k \<Longrightarrow>
     authorize E k a b auth = (res, auth') \<Longrightarrow> auth_run sha (calls @ [(E, k, a, b)]) auth'"

definition issued :: "('p, 'a) auth_call \<Rightarrow> cached_decision \<Rightarrow> bool" where
  "issued c entry = (case c of (E, k, a, b) \<Rightarrow>
     ge_introspect E k a b = Decided (cd_decision entry) \<and> dd_allowed (cd_decision entry) \<and>
     cd_expires_at_unix_ms entry = ge_auth_now E + dd_cache_ttl_ms (cd_decision entry))"

definition cache_key_of :: "(bytes \<Rightarrow> bytes) \<Rightarrow> ('p, 'a) auth_call \<Rightarrow> string" where
  "cache_key_of sha c = (case c of (E, k, a, b) \<Rightarrow> auth_cache_key sha k a b)"

lemma authorize_cache:
  assumes "authorize E k a b auth = (res, auth')" "fmlookup (ga_cache auth') key = Some entry"
  shows "fmlookup (ga_cache auth) key = Some entry \<or> (key = auth_cache_key (ge_sha E) k a b \<and> issued (E, k, a, b) entry)"
  using assms
  by (auto simp: authorize_def issued_def Let_def split: option.splits if_splits introspection.splits)

lemma auth_run_cache:
  assumes "auth_run sha calls auth" "fmlookup (ga_cache auth) key = Some entry"
  shows "\<exists>c \<in> set calls. key = cache_key_of sha c \<and> issued c entry"
  using assms
proof (induction arbitrary: key entry rule: auth_run.induct)
  case (auth_step calls auth E k a b res auth')
  from authorize_cache [OF auth_step.hyps(4) auth_step.prems] show ?case
    using auth_step.IH [of key entry] auth_step.hyps(2) by (auto simp: cache_key_of_def)
qed simp

lemma auth_run_keys: "auth_run sha calls auth \<Longrightarrow> (E, k, a, b) \<in> set calls \<Longrightarrow> CHR 0x00 \<notin> set k"
  by (induction rule: auth_run.induct) auto

text \<open>C15. A cached authorization is never used for another key, action or bucket: a decision returned by \<open>authorize\<close> is the
  dashboard's answer to this very question, given now or, if it allowed the access, earlier in the run with a time to live that has not
  yet ended.\<close>

theorem authorization_from_dashboard:
  assumes "auth_run sha calls auth" "ge_sha E = sha" "inj sha" "CHR 0x00 \<notin> set k"
    and "authorize E k a b auth = (Inr d, auth')"
  shows "ge_introspect E k a b = Decided d \<or>
     (\<exists>E0. (E0, k, a, b) \<in> set calls \<and> ge_introspect E0 k a b = Decided d \<and> dd_allowed d \<and>
        ge_auth_now E < ge_auth_now E0 + dd_cache_ttl_ms d)"
proof -
  consider "ge_introspect E k a b = Decided d"
    | entry where "fmlookup (ga_cache auth) (auth_cache_key sha k a b) = Some entry" "cd_decision entry = d"
        "ge_auth_now E < cd_expires_at_unix_ms entry"
    using assms(2,5) by (auto simp: authorize_def Let_def split: option.splits if_splits introspection.splits)
  then show ?thesis
  proof cases
    case (2 entry)
    obtain x where x: "x \<in> set calls" "auth_cache_key sha k a b = cache_key_of sha x" "issued x entry"
      using auth_run_cache [OF assms(1) 2(1)] by blast
    obtain E0 k0 a0 b0 where e: "x = (E0, k0, a0, b0)" by (cases x)
    from x have c: "(E0, k0, a0, b0) \<in> set calls" "auth_cache_key sha k a b = auth_cache_key sha k0 a0 b0"
      "issued (E0, k0, a0, b0) entry"
      unfolding e by (simp_all add: cache_key_of_def)
    then have "k0 = k" "a0 = a" "b0 = b"
      using auth_cache_key_inj [OF assms(3,4) auth_run_keys [OF assms(1) c(1)]] by auto
    moreover from 2 c(3) have "ge_introspect E0 k0 a0 b0 = Decided d" "dd_allowed d"
      "ge_auth_now E < ge_auth_now E0 + dd_cache_ttl_ms d"
      by (auto simp: issued_def)
    ultimately show ?thesis using c(1) by blast
  qed simp
qed

subsection \<open>Billing\<close>

text \<open>C28. Billing of a call: it passes exactly when the nodes report a positive credit balance, and then one deduction of the cost is
  spawned; in every other case, an unreachable mesh included, it is refused with 402 and nothing is deducted.\<close>

theorem billing_decision:
  "let res = fst (mesh_request E RqBalances g); out = billing_check_and_deduct E u cost label g in
     gw_spawned (snd out) = gw_spawned g @ (if fst out = Inr () then [RqCreateEvent (deduct_request E u cost label)] else []) \<and>
     (fst out = Inr () \<or> fst out = Inl payment_required) \<and>
     (fst out = Inr () \<longleftrightarrow> (\<exists>n bal a. res = Inr (n, Inr (RsBalances bal)) \<and>
        find (\<lambda>a. ab_bucket a = billing_bucket_for_user u \<and> ab_account a = ''credits'') (br_accounts bal) = Some a \<and>
        0 <s ab_balance a))"
proof -
  obtain res g1 where m: "mesh_request E RqBalances g = (res, g1)" by fastforce
  then have sp: "gw_spawned g1 = gw_spawned g" by (auto simp: mesh_request_def Let_def split: prod.splits)
  have "credits_in (billing_bucket_for_user u) res \<le>s 0 \<longleftrightarrow> \<not> (\<exists>n bal a. res = Inr (n, Inr (RsBalances bal)) \<and>
        find (\<lambda>a. ab_bucket a = billing_bucket_for_user u \<and> ab_account a = ''credits'') (br_accounts bal) = Some a \<and>
        0 <s ab_balance a)"
    by (auto simp: credits_in_def signed_le_sint signed_less_sint not_less
        split: sum.splits node_rpc_response.splits option.splits)
  then show ?thesis
    by (simp add: billing_check_and_deduct_def m Let_def spawn_request_def sp)
qed

lemma deduct_input:
  "from_input now (input_of_request (deduct_request E u cost label)) = Inr (Charge (Some (0, 0)))"
  "in_balance_key (input_of_request (deduct_request E u cost label)) = (billing_bucket_for_user u, ''credits'')"
  "in_amount (input_of_request (deduct_request E u cost label)) = - cost"
  "in_floor (input_of_request (deduct_request E u cost label)) = 1"
  by (simp_all add: deduct_request_def input_of_request_def from_input_def explicit_hold_def in_balance_key_def in_floor_def)

lemma small_difference:
  assumes "0 <s (bal :: i64)" "bal \<le>s cost"
  shows "- cost <s 0 \<and> bal - cost <s 1"
proof -
  have b: "0 < sint bal" "sint bal \<le> sint cost" using assms by (simp_all add: signed_less_sint signed_le_sint)
  have r: "- (2 ^ 63) \<le> sint cost" "sint cost < 2 ^ 63" using sint_range_size [of cost] by (simp_all add: word_size)
  have "sint (- cost) = - sint cost" using sint_of_int_small [of "- sint cost"] b r by simp
  moreover have "sint (bal - cost) = sint bal - sint cost"
    using sint_of_int_small [of "sint bal - sint cost"] b r by simp
  ultimately show ?thesis using b by (simp add: signed_less_sint)
qed

text \<open>C34. The last credits are never spent: the deduction carries the overdraft limit \<open>u64::MAX\<close>, which the node reads as a floor of one
  credit. A caller whose credits are positive and at most the cost passes the billing check, and the node refuses the
  deduction without any effect on the ledger, so the same credits pay for the next call again.\<close>

theorem low_credit_calls_are_free:
  assumes "credits_in (billing_bucket_for_user u) (fst (mesh_request E RqBalances g)) = bal" "0 <s bal" "bal \<le>s cost"
    and "admitted B (input_of_request (deduct_request E u cost label)) st"
    and "available_balance (account_at st (billing_bucket_for_user u, ''credits'')) (env_now en 1) = bal"
  shows "fst (billing_check_and_deduct E u cost label g) = Inr () \<and>
     (\<exists>balance available projected hb st'.
        create_local_events B sha en (input_of_request (deduct_request E u cost label)) st =
          (Failed (InsufficientFunds balance available projected hb), st') \<and> ledger_of st' = ledger_of st)"
proof -
  let ?inp = "input_of_request (deduct_request E u cost label)"
  have "\<not> bal \<le>s 0" using assms(2) by (simp add: signed_le_sint signed_less_sint)
  then have pass: "fst (billing_check_and_deduct E u cost label g) = Inr ()"
    using assms(1) by (simp add: billing_check_and_deduct_def case_prod_unfold)
  obtain x y z w where "charge_guard (account_at st (in_balance_key ?inp)) ?inp 0 (env_now en 1) = Some (InsufficientFunds x y z w)"
    using small_difference [OF assms(2,3)] assms(5) by (simp add: charge_guard_def deduct_input Let_def)
  then have "\<exists>st'. create_local_events B sha en ?inp st = (Failed (InsufficientFunds x y z w), st') \<and> ledger_of st' = ledger_of st"
    by (rule create_charge_refused [OF assms(4) deduct_input(1)]) (simp add: charge_hold_def)
  with pass show ?thesis by blast
qed

subsection \<open>Concrete runs\<close>

text \<open>The dashboard allows a read, goes down, and the cached decision serves the same question.\<close>

definition offline_env :: "(string, string) gateway_env" where
  "offline_env = sample_gateway_env\<lparr>ge_introspect := (\<lambda>_ _ _. SendFailed ''down''), ge_auth_now := 20\<rparr>"

theorem authorization_from_dashboard_witness:
  "\<exists>auth. auth_run (\<lambda>x. x) [(sample_gateway_env, ''key'', ActRead, ''b'')] auth \<and>
     fst (authorize offline_env ''key'' ActRead ''b'' auth) = Inr sample_decision \<and>
     (\<exists>E0. (E0, ''key'', ActRead, ''b'') \<in> set [(sample_gateway_env, ''key'', ActRead, ''b'')] \<and>
        ge_introspect E0 ''key'' ActRead ''b'' = Decided sample_decision \<and> dd_allowed sample_decision \<and>
        ge_auth_now offline_env < ge_auth_now E0 + dd_cache_ttl_ms sample_decision)"
proof -
  define auth where "auth = snd (authorize sample_gateway_env ''key'' ActRead ''b'' sample_auth)"
  have s0: "ge_sha sample_gateway_env = (\<lambda>x. x)" by (simp add: sample_gateway_env_def)
  have "auth_run (\<lambda>x. x) [] sample_auth" by (rule auth_start) (simp add: sample_auth_def)
  then have "auth_run (\<lambda>x. x) ([] @ [(sample_gateway_env, ''key'', ActRead, ''b'')]) auth"
    by (rule auth_step [where res = "Inr sample_decision"]) (simp_all add: auth_def sample_authorize s0)
  then have r: "auth_run (\<lambda>x. x) [(sample_gateway_env, ''key'', ActRead, ''b'')] auth" by simp
  have sha: "ge_sha offline_env = (\<lambda>x. x)" by (simp add: offline_env_def sample_gateway_env_def)
  have a: "authorize offline_env ''key'' ActRead ''b'' auth = (Inr sample_decision, auth)"
    unfolding authorize_def sha by (simp add: offline_env_def auth_def sample_authorize Let_def)
  have "ge_introspect offline_env ''key'' ActRead ''b'' \<noteq> Decided sample_decision" by (simp add: offline_env_def)
  with authorization_from_dashboard [OF r sha inj_on_id2 _ a] r a show ?thesis by auto
qed

definition low_credit_node :: "mem_storage shared_state" where
  "low_credit_node = with_account (billing_bucket_for_user sample_user, ''credits'') (\<lambda>a. a\<lparr>acct_balance := 5\<rparr>) (fresh_node ''n'')"

theorem low_credit_calls_are_free_witness:
  "fst (billing_check_and_deduct sample_gateway_env sample_user 10 ''write'' sample_gateway) = Inr () \<and>
   (\<exists>balance available projected hb st'.
      create_local_events (mem_backend no_hash) no_hash (sample_env 5 ''e'')
        (input_of_request (deduct_request sample_gateway_env sample_user 10 ''write'')) low_credit_node =
        (Failed (InsufficientFunds balance available projected hb), st') \<and> ledger_of st' = ledger_of low_credit_node)"
proof (rule low_credit_calls_are_free [where bal = 5])
  show "credits_in (billing_bucket_for_user sample_user) (fst (mesh_request sample_gateway_env RqBalances sample_gateway)) = 5"
    by (simp add: sample_mesh_request sample_gateway_def credits_in_def sample_credits_def)
  show "0 <s (5 :: i64)" "(5 :: i64) \<le>s 10" by code_simp+
  show "admitted (mem_backend no_hash) (input_of_request (deduct_request sample_gateway_env sample_user 10 ''write'')) low_credit_node"
    by (simp add: admitted_def input_of_request_def deduct_request_def low_credit_node_def with_account_def)
  show "available_balance (account_at low_credit_node (billing_bucket_for_user sample_user, ''credits'')) (env_now (sample_env 5 ''e'') 1) = 5"
    by (simp add: low_credit_node_def account_at_def with_account_def account_new_def available_balance_def active_hold_total_def
        active_reservations_def fm_get_or_def)
qed

end
