(* ===== verification/Evm_Rpc.thy ===== *)
theory Evm_Rpc
  imports Gateway_Views
begin

section \<open>The EVM facade of the gateway (\<open>apps/gateway/src/evm_rpc.rs\<close>)\<close>

text \<open>
  A bucket as an Ethereum chain: every event is a block, a signed legacy transaction is a transfer. Keccak, RLP decoding and
  signature recovery, JSON text and the dashboard are arguments, collected in \<open>evm_env\<close>. The in-memory test mesh
  of the unit tests is left out.
\<close>

subsection \<open>Values\<close>

datatype json = JNull | JBool bool | JNumber int | JFloat string | JString string | JArray "json list" | JObject "(string \<times> json) list"

fun json_get :: "string \<Rightarrow> json \<Rightarrow> json option" where
  "json_get k (JObject kvs) = map_of kvs k"
| "json_get k _ = None"

fun as_str :: "json \<Rightarrow> string option" where
  "as_str (JString s) = Some s"
| "as_str _ = None"

fun as_bool :: "json \<Rightarrow> bool option" where
  "as_bool (JBool b) = Some b"
| "as_bool _ = None"

fun as_u64 :: "json \<Rightarrow> u64 option" where
  "as_u64 (JNumber i) = (if 0 \<le> i \<and> i < 2 ^ 64 then Some (word_of_int i) else None)"
| "as_u64 _ = None"

fun show_hex :: "nat \<Rightarrow> string" where
  "show_hex n = (if n < 16 then [hex_digit n] else show_hex (n div 16) @ [hex_digit (n mod 16)])"

declare show_hex.simps [simp del]

definition hex_number :: "nat \<Rightarrow> string" where
  "hex_number n = ''0x'' @ show_hex n"

definition hex_hash :: "bytes \<Rightarrow> string" where
  "hex_hash h = ''0x'' @ hex h"

text \<open>\<open>trim_start_matches("0x")\<close> removes every leading occurrence.\<close>

fun trim_0x :: "string \<Rightarrow> string" where
  "trim_0x s = (case s of c # d # r \<Rightarrow> if c = CHR ''0'' \<and> d = CHR ''x'' then trim_0x r else s | _ \<Rightarrow> s)"

declare trim_0x.simps [simp del]

definition EMPTY_BLOOM :: string where
  "EMPTY_BLOOM = ''0x'' @ replicate 512 (CHR ''0'')"

definition ZERO_HASH :: string where
  "ZERO_HASH = ''0x'' @ replicate 64 (CHR ''0'')"

definition ZERO_ADDR :: string where
  "ZERO_ADDR = ''0x'' @ replicate 40 (CHR ''0'')"

definition UNCLES_HASH :: string where
  "UNCLES_HASH = ''0x1dcc4de8dec75d7aab85b567b6ccd41ad312451b948a7413f0a142fd40d49347''"

definition EVM_STATE_CACHE_TTL :: duration where
  "EVM_STATE_CACHE_TTL = from_secs 30"

definition EVM_WEI_SCALE :: nat where
  "EVM_WEI_SCALE = 1000000000000000000"

record evm_rpc_request =
  rq_method :: string
  rq_params :: "json option"
  rq_id :: json

record evm_rpc_error =
  er_code :: int
  er_message :: string

record bucket_evm_state =
  bes_enabled :: bool
  bes_paused :: bool
  bes_refreshed_at :: nat

text \<open>A decoded legacy transaction: the recovered signer (if recovery succeeds), the callee (none for a contract creation).\<close>

record evm_tx =
  tx_signer :: "string option"
  tx_to :: "string option"
  tx_value :: nat
  tx_nonce :: u64
  tx_chain_id :: "u64 option"

record cached_tx =
  ct_hash :: string
  ct_from :: string
  ct_to :: string
  ct_value :: string
  ct_nonce :: string
  ct_timestamp_secs :: u64

record evm_tx_object =
  to_hash :: string
  to_nonce :: string
  to_block_hash :: string
  to_block_number :: string
  to_from :: string
  to_to :: string
  to_value :: string

record evm_receipt =
  rc_transaction_hash :: string
  rc_block_number :: string
  rc_block_hash :: string
  rc_from :: string
  rc_to :: string

record evm_block =
  bk_number :: string
  bk_hash :: string
  bk_parent_hash :: string
  bk_timestamp :: string
  bk_transaction :: string

text \<open>The fields that are constants in the source (gas, bloom, roots) are left to the JSON text.\<close>

datatype evm_value =
    EvNull | EvBool bool | EvString string | EvEmptyList | EvFeeHistory
  | EvCachedTx cached_tx | EvTx evm_tx_object | EvReceipt evm_receipt | EvBlock evm_block

datatype evm_response = EvOk json evm_value | EvError json int string

record ('p, 'a) evm_env =
  ev_gateway :: "('p, 'a) gateway_env"
  ev_keccak256 :: "bytes \<Rightarrow> bytes"
  ev_decode_tx :: "bytes \<Rightarrow> string + evm_tx"
  ev_show_json :: "json \<Rightarrow> string"
  ev_parse_json :: "string \<Rightarrow> json option"
  ev_parse_request :: "string \<Rightarrow> string + evm_rpc_request"
  ev_parse_uuid :: "string \<Rightarrow> string + string"
  ev_node_error_debug :: "node_rpc_error \<Rightarrow> string"
  ev_send :: "nat \<Rightarrow> 'p \<Rightarrow> node_rpc_request \<Rightarrow> string + node_rpc_result"
  ev_listed_at :: u64
  ev_instant :: nat
  ev_now_secs :: u64
  ev_check_state :: "string \<Rightarrow> string \<Rightarrow> json option"

record 'a evm_gateway =
  eg_gateway :: "'a gateway"
  eg_state :: "(string, bucket_evm_state) fmap option"
  eg_txs :: "(string, cached_tx) fmap"
  eg_sent :: "create_event_request list"

definition lower :: "('p, 'a) evm_env \<Rightarrow> string \<Rightarrow> string" where
  "lower E = ge_to_lowercase (ev_gateway E)"

definition evm_rpc_err :: "int \<Rightarrow> string \<Rightarrow> evm_rpc_error" where
  "evm_rpc_err code message = \<lparr>er_code = code, er_message = message\<rparr>"

subsection \<open>The state of a bucket\<close>

definition evm_state_disabled :: "('p, 'a) evm_env \<Rightarrow> bucket_evm_state" where
  "evm_state_disabled E = \<lparr>bes_enabled = False, bes_paused = False, bes_refreshed_at = ev_instant E\<rparr>"

definition is_stale :: "('p, 'a) evm_env \<Rightarrow> bucket_evm_state \<Rightarrow> duration \<Rightarrow> bool" where
  "is_stale E st ttl \<longleftrightarrow> ev_instant E - bes_refreshed_at st > ttl"

definition fetch_evm_state :: "('p, 'a) evm_env \<Rightarrow> string \<Rightarrow> string \<Rightarrow> 'a gateway \<Rightarrow> bucket_evm_state" where
  "fetch_evm_state E user_id b g =
     (if gw_auth g = None then evm_state_disabled E
      else case ev_check_state E user_id b of
             None \<Rightarrow> evm_state_disabled E
           | Some body \<Rightarrow>
               \<lparr>bes_enabled = (case Option.bind (json_get ''evm_enabled'' body) as_bool of Some x \<Rightarrow> x | None \<Rightarrow> False),
                bes_paused = (case Option.bind (json_get ''evm_paused'' body) as_bool of Some x \<Rightarrow> x | None \<Rightarrow> False),
                bes_refreshed_at = ev_instant E\<rparr>)"

definition judge_evm_state :: "bucket_evm_state \<Rightarrow> evm_rpc_error option" where
  "judge_evm_state st =
     (if \<not> bes_enabled st then Some (evm_rpc_err (- 32000) ''EVM RPC not enabled for this bucket'')
      else if bes_paused st then Some (evm_rpc_err (- 32000) ''bucket is paused'')
      else None)"

definition ensure_evm_ready ::
  "('p, 'a) evm_env \<Rightarrow> string \<Rightarrow> string \<Rightarrow> string \<Rightarrow> 'a evm_gateway \<Rightarrow> evm_rpc_error option \<times> 'a evm_gateway" where
  "ensure_evm_ready E cache_key user_id b s =
     (case eg_state s of
        None \<Rightarrow> (None, s)
      | Some cache \<Rightarrow>
          let fresh = (case fmlookup cache cache_key of
                         Some entry \<Rightarrow> if \<not> is_stale E entry EVM_STATE_CACHE_TTL then Some entry else None
                       | None \<Rightarrow> None)
          in case fresh of
               Some entry \<Rightarrow> (judge_evm_state entry, s)
             | None \<Rightarrow>
                 let st = fetch_evm_state E user_id b (eg_gateway s)
                 in (judge_evm_state st, s\<lparr>eg_state := Some (fmupd cache_key st cache)\<rparr>))"

subsection \<open>Reads\<close>

definition extract_param_str :: "('p, 'a) evm_env \<Rightarrow> json option \<Rightarrow> nat \<Rightarrow> evm_rpc_error + string" where
  "extract_param_str E params index =
     (case params of
        Some (JArray vals) \<Rightarrow>
          if index < length vals
          then (case vals ! index of
                  JString s \<Rightarrow> Inr s
                | JNull \<Rightarrow> Inr ZERO_ADDR
                | v \<Rightarrow> Inr (ev_show_json E v))
          else Inl (evm_rpc_err (- 32602) (''missing param at index '' @ show_nat index))
      | _ \<Rightarrow> Inl (evm_rpc_err (- 32602) ''params must be an array''))"

definition chain_id_for_bucket :: "('p, 'a) evm_env \<Rightarrow> string \<Rightarrow> u64" where
  "chain_id_for_bucket E b =
     (let h = ev_keccak256 E b
      in word_of_nat (foldl (\<lambda>n c. n * 256 + of_char c) 0 (take 4 h)))"

definition eth_chain_id :: "('p, 'a) evm_env \<Rightarrow> string \<Rightarrow> evm_rpc_error + evm_value" where
  "eth_chain_id E b = Inr (EvString (hex_number (unat (chain_id_for_bucket E b))))"

text \<open>\<open>request_best\<close> of the mesh client, for the facade.\<close>

definition evm_mesh_request ::
  "('p, 'a) evm_env \<Rightarrow> node_rpc_request \<Rightarrow> 'a evm_gateway \<Rightarrow> (string + node_rpc_result) \<times> 'a evm_gateway" where
  "evm_mesh_request E req s =
     (case mesh_request (ev_gateway E) req (eg_gateway s) of
        (Inl err, g) \<Rightarrow> (Inl err, s\<lparr>eg_gateway := g\<rparr>)
      | (Inr (_, res), g) \<Rightarrow> (Inr res, s\<lparr>eg_gateway := g\<rparr>))"

definition compare_events :: "event \<Rightarrow> event \<Rightarrow> ordering" where
  "compare_events l r =
     then_with (cmp (created_at_unix_ms l) (created_at_unix_ms r)) (cmp (event_id l) (event_id r))"

definition get_bucket_events_sorted ::
  "('p, 'a) evm_env \<Rightarrow> string \<Rightarrow> 'a evm_gateway \<Rightarrow> event list \<times> 'a evm_gateway" where
  "get_bucket_events_sorted E b s =
     (case evm_mesh_request E RqEvents s of
        (Inr (Inr (RsEvents es)), s1) \<Rightarrow> (sort_by compare_events (filter (\<lambda>e. bucket e = b) es), s1)
      | (_, s1) \<Rightarrow> ([], s1))"

definition query_balances ::
  "('p, 'a) evm_env \<Rightarrow> string \<Rightarrow> 'a evm_gateway \<Rightarrow> account_balance list \<times> 'a evm_gateway" where
  "query_balances E b s =
     (case evm_mesh_request E RqBalances s of
        (Inr (Inr (RsBalances body)), s1) \<Rightarrow> (br_accounts body, s1)
      | (_, s1) \<Rightarrow> ([], s1))"

definition eth_get_balance ::
  "('p, 'a) evm_env \<Rightarrow> string \<Rightarrow> json option \<Rightarrow> 'a evm_gateway \<Rightarrow> (evm_rpc_error + evm_value) \<times> 'a evm_gateway" where
  "eth_get_balance E b params s =
     (case extract_param_str E params 0 of
        Inl err \<Rightarrow> (Inl err, s)
      | Inr address \<Rightarrow>
          (case query_balances E b s of
             (balances, s1) \<Rightarrow>
               let balance = (case find (\<lambda>a. lower E (ab_account a) = lower E address) balances of
                                Some a \<Rightarrow> ab_balance a | None \<Rightarrow> 0)
               in (Inr (EvString (hex_number (unat (signed_max balance 0) * EVM_WEI_SCALE))), s1)))"

definition count_debits :: "('p, 'a) evm_env \<Rightarrow> string \<Rightarrow> event list \<Rightarrow> nat" where
  "count_debits E address es =
     length (filter (\<lambda>e. lower E (account e) = lower E address \<and> amount e <s 0) es)"

definition eth_get_transaction_count ::
  "('p, 'a) evm_env \<Rightarrow> string \<Rightarrow> json option \<Rightarrow> 'a evm_gateway \<Rightarrow> (evm_rpc_error + evm_value) \<times> 'a evm_gateway" where
  "eth_get_transaction_count E b params s =
     (case extract_param_str E params 0 of
        Inl err \<Rightarrow> (Inl err, s)
      | Inr address \<Rightarrow>
          (case get_bucket_events_sorted E b s of
             (es, s1) \<Rightarrow> (Inr (EvString (hex_number (count_debits E address es))), s1)))"

definition get_nonce :: "('p, 'a) evm_env \<Rightarrow> string \<Rightarrow> string \<Rightarrow> 'a evm_gateway \<Rightarrow> u64 \<times> 'a evm_gateway" where
  "get_nonce E b address s =
     (case get_bucket_events_sorted E b s of (es, s1) \<Rightarrow> (word_of_nat (count_debits E address es), s1))"

definition eth_block_number ::
  "('p, 'a) evm_env \<Rightarrow> string \<Rightarrow> 'a evm_gateway \<Rightarrow> (evm_rpc_error + evm_value) \<times> 'a evm_gateway" where
  "eth_block_number E b s =
     (case get_bucket_events_sorted E b s of (es, s1) \<Rightarrow> (Inr (EvString (hex_number (length es))), s1))"

subsection \<open>Sending a transaction\<close>

definition decode_raw :: "('p, 'a) evm_env \<Rightarrow> json option \<Rightarrow> evm_rpc_error + bytes \<times> evm_tx" where
  "decode_raw E params =
     (case extract_param_str E params 0 of
        Inl err \<Rightarrow> Inl err
      | Inr raw_hex \<Rightarrow>
          (case hex_decode (trim_0x raw_hex) of
             None \<Rightarrow> Inl (evm_rpc_err (- 32602) ''invalid hex'')
           | Some raw \<Rightarrow>
               (case ev_decode_tx E raw of
                  Inl err \<Rightarrow> Inl (evm_rpc_err (- 32602) (''invalid transaction: '' @ err))
                | Inr tx \<Rightarrow> Inr (raw, tx))))"

text \<open>Steps 2 to 5: signer, receiver, chain and value, in this order.\<close>

definition check_tx :: "('p, 'a) evm_env \<Rightarrow> string \<Rightarrow> evm_tx \<Rightarrow> evm_rpc_error + string \<times> string \<times> i64" where
  "check_tx E raw_bucket tx =
     (case tx_signer tx of
        None \<Rightarrow> Inl (evm_rpc_err (- 32602) ''signature recovery failed'')
      | Some signer \<Rightarrow>
          (case tx_to tx of
             None \<Rightarrow> Inl (evm_rpc_err (- 32602) ''contract creation not supported'')
           | Some receiver \<Rightarrow>
               let chain = (case tx_chain_id tx of Some c \<Rightarrow> c | None \<Rightarrow> 0);
                   expected = chain_id_for_bucket E raw_bucket
               in if chain \<noteq> expected
                  then Inl (evm_rpc_err (- 32000)
                         (''wrong chain_id: got '' @ show_u64 chain @ '', expected '' @ show_u64 expected))
                  else if \<not> tx_value tx < 2 ^ 128 then Inl (evm_rpc_err (- 32000) ''value too large'')
                  else if tx_value tx mod EVM_WEI_SCALE \<noteq> 0
                  then Inl (evm_rpc_err (- 32000) ''value must be a multiple of 10^18 wei (1 shardd unit)'')
                  else if \<not> tx_value tx div EVM_WEI_SCALE < 2 ^ 63
                  then Inl (evm_rpc_err (- 32000) ''value exceeds i64 range'')
                  else Inr (signer, receiver, word_of_nat (tx_value tx div EVM_WEI_SCALE))))"

definition tx_note :: "string \<Rightarrow> string \<Rightarrow> u64 \<Rightarrow> u64 \<Rightarrow> json" where
  "tx_note tx_hash receiver nonce chain =
     JObject [(''evm'', JObject [(''tx_hash'', JString tx_hash), (''to'', JString receiver),
       (''nonce'', JNumber (uint nonce)), (''chain_id'', JNumber (uint chain))])]"

definition transfer_request ::
  "('p, 'a) evm_env \<Rightarrow> string \<Rightarrow> string \<Rightarrow> string \<Rightarrow> string \<Rightarrow> i64 \<Rightarrow> string \<Rightarrow> u64 \<Rightarrow> create_event_request" where
  "transfer_request E b raw_bucket signer receiver v tx_hash nonce =
     \<lparr>req_bucket = b, req_account = signer, req_amount = - v,
      req_note = Some (ev_show_json E (tx_note tx_hash receiver nonce (chain_id_for_bucket E raw_bucket))),
      req_idempotency_nonce = tx_hash, req_max_overdraft = None, req_min_acks = None, req_ack_timeout_ms = None,
      req_hold_amount = None, req_hold_expires_at_unix_ms = None, req_settle_reservation = None,
      req_release_reservation = None, req_skip_hold = Some True, req_allow_reserved_bucket = False,
      req_transfer_to = Some receiver\<rparr>"

definition is_ready_node :: "'a mesh_node \<Rightarrow> bool" where
  "is_ready_node n = (case mn_health n of Some h \<Rightarrow> hr_ready h \<and> \<not> hr_overloaded h | None \<Rightarrow> False)"

definition compare_for_fan_out :: "'a mesh_node \<Rightarrow> 'a mesh_node \<Rightarrow> ordering" where
  "compare_for_fan_out l r =
     then_with (cmp (is_ready_node r) (is_ready_node l)) (cmp (rtt_or_max l) (rtt_or_max r))"

text \<open>The loop over at most three nodes: the last error, and the requests that were sent.\<close>

fun fan_out ::
  "('p, 'a) evm_env \<Rightarrow> create_event_request \<Rightarrow> nat \<Rightarrow> 'a mesh_node list \<Rightarrow> evm_rpc_error option \<Rightarrow>
     evm_rpc_error option \<times> create_event_request list" where
  "fan_out E req i [] last_err = (last_err, [])"
| "fan_out E req i (n # ns) last_err =
     (case parse_peer_id (ge_text (ev_gateway E)) (mn_peer_id n) of
        Inl _ \<Rightarrow> fan_out E req (Suc i) ns last_err
      | Inr p \<Rightarrow>
          (case ev_send E i p (RqCreateEvent req) of
             Inr (Inr _) \<Rightarrow> (None, [req])
           | Inr (Inl err) \<Rightarrow>
               (case fan_out E req (Suc i) ns (Some (evm_rpc_err (- 32000) (''node error: '' @ ev_node_error_debug E err))) of
                  (e, sent) \<Rightarrow> (e, req # sent))
           | Inl err \<Rightarrow>
               (case fan_out E req (Suc i) ns (Some (evm_rpc_err (- 32000) (''mesh error: '' @ err))) of
                  (e, sent) \<Rightarrow> (e, req # sent))))"

definition fan_out_nodes :: "('p, 'a) evm_env \<Rightarrow> 'a evm_gateway \<Rightarrow> 'a mesh_node list" where
  "fan_out_nodes E s =
     take 3 (sort_by compare_for_fan_out
       (all_nodes (gw_mesh_config (eg_gateway s)) (ev_listed_at E) (gw_peers (eg_gateway s))))"

definition remembered_tx :: "('p, 'a) evm_env \<Rightarrow> string \<Rightarrow> string \<Rightarrow> string \<Rightarrow> i64 \<Rightarrow> u64 \<Rightarrow> cached_tx" where
  "remembered_tx E tx_hash signer receiver v nonce =
     \<lparr>ct_hash = tx_hash, ct_from = signer, ct_to = receiver,
      ct_value = hex_number (unat (unsigned_abs v) * EVM_WEI_SCALE), ct_nonce = hex_number (unat nonce),
      ct_timestamp_secs = ev_now_secs E\<rparr>"

definition eth_send_raw_transaction ::
  "('p, 'a) evm_env \<Rightarrow> string \<Rightarrow> string \<Rightarrow> json option \<Rightarrow> 'a evm_gateway \<Rightarrow> (evm_rpc_error + evm_value) \<times> 'a evm_gateway" where
  "eth_send_raw_transaction E b raw_bucket params s =
     (case decode_raw E params of
        Inl err \<Rightarrow> (Inl err, s)
      | Inr (raw, tx) \<Rightarrow>
          (case check_tx E raw_bucket tx of
             Inl err \<Rightarrow> (Inl err, s)
           | Inr (signer, receiver, v) \<Rightarrow>
               (case get_nonce E b signer s of
                  (current, s1) \<Rightarrow>
                    if tx_nonce tx \<noteq> current
                    then (Inl (evm_rpc_err (- 32000) (''nonce too '' @ (if tx_nonce tx < current then ''low'' else ''high'') @
                           '': got '' @ show_u64 (tx_nonce tx) @ '', expected '' @ show_u64 current)), s1)
                    else
                      let tx_hash = hex_hash (ev_keccak256 E raw);
                          req = transfer_request E b raw_bucket signer receiver v tx_hash (tx_nonce tx)
                      in case fan_out E req 0 (fan_out_nodes E s1) None of
                           (Some err, sent) \<Rightarrow> (Inl err, s1\<lparr>eg_sent := eg_sent s1 @ sent\<rparr>)
                         | (None, sent) \<Rightarrow>
                             (Inr (EvString tx_hash),
                              s1\<lparr>eg_sent := eg_sent s1 @ sent,
                                 eg_txs := fmupd tx_hash (remembered_tx E tx_hash signer receiver v (tx_nonce tx)) (eg_txs s1)\<rparr>))))"

subsection \<open>Blocks, transactions and receipts\<close>

definition block_hash_for_event :: "('p, 'a) evm_env \<Rightarrow> event \<Rightarrow> bytes" where
  "block_hash_for_event E e = ev_keccak256 E (event_id e)"

definition evm_field :: "('p, 'a) evm_env \<Rightarrow> string \<Rightarrow> event \<Rightarrow> json option" where
  "evm_field E k e =
     Option.bind (event_note e) (\<lambda>note. Option.bind (ev_parse_json E note) (\<lambda>parsed.
       Option.bind (json_get ''evm'' parsed) (json_get k)))"

definition extract_tx_hash_from_event :: "('p, 'a) evm_env \<Rightarrow> event \<Rightarrow> bytes" where
  "extract_tx_hash_from_event E e =
     (case Option.bind (evm_field E ''tx_hash'' e) as_str of
        Some h \<Rightarrow>
          (case hex_decode (trim_0x h) of
             Some bs \<Rightarrow> if length bs = 32 then bs else ev_keccak256 E (event_id e)
           | None \<Rightarrow> ev_keccak256 E (event_id e))
      | None \<Rightarrow> ev_keccak256 E (event_id e))"

definition extract_to_from_event :: "('p, 'a) evm_env \<Rightarrow> event \<Rightarrow> string" where
  "extract_to_from_event E e =
     (case Option.bind (evm_field E ''to'' e) as_str of Some t \<Rightarrow> t | None \<Rightarrow> ZERO_ADDR)"

definition build_tx_object :: "('p, 'a) evm_env \<Rightarrow> event \<Rightarrow> nat \<Rightarrow> evm_tx_object" where
  "build_tx_object E e block_num =
     \<lparr>to_hash = hex_hash (extract_tx_hash_from_event E e),
      to_nonce = hex_number (case Option.bind (evm_field E ''nonce'' e) as_u64 of Some n \<Rightarrow> unat n | None \<Rightarrow> 0),
      to_block_hash = hex_hash (block_hash_for_event E e), to_block_number = hex_number block_num,
      to_from = account e, to_to = extract_to_from_event E e,
      to_value = hex_number (if amount e <s 0 then unat (unsigned_abs (amount e)) * EVM_WEI_SCALE else 0)\<rparr>"

definition build_block_response :: "('p, 'a) evm_env \<Rightarrow> event list \<Rightarrow> nat \<Rightarrow> evm_block" where
  "build_block_response E es block_num =
     (let e = es ! block_num
      in \<lparr>bk_number = hex_number block_num, bk_hash = hex_hash (block_hash_for_event E e),
          bk_parent_hash = (if block_num > 0 then hex_hash (block_hash_for_event E (es ! (block_num - 1))) else ZERO_HASH),
          bk_timestamp = hex_number (unat (created_at_unix_ms e div 1000)),
          bk_transaction = hex_hash (extract_tx_hash_from_event E e)\<rparr>)"

text \<open>\<open>usize::from_str_radix(_, 16)\<close>: an optional plus sign and at least one digit, below \<open>2\<^sup>64\<close>.\<close>

fun hex_digits_value :: "string \<Rightarrow> nat \<Rightarrow> nat option" where
  "hex_digits_value [] n = Some n"
| "hex_digits_value (c # s) n = (case hex_value c of Some d \<Rightarrow> hex_digits_value s (n * 16 + d) | None \<Rightarrow> None)"

definition parse_hex_usize :: "string \<Rightarrow> nat option" where
  "parse_hex_usize s =
     (let ds = (case s of c # r \<Rightarrow> if c = CHR ''+'' then r else s | [] \<Rightarrow> [])
      in if ds = [] then None
         else (case hex_digits_value ds 0 of Some n \<Rightarrow> if n < 2 ^ 64 then Some n else None | None \<Rightarrow> None))"

definition block_index :: "string \<Rightarrow> nat \<Rightarrow> nat" where
  "block_index tag len =
     (if tag = ''latest'' \<or> tag = ''pending'' then len - 1
      else if tag = ''earliest'' then 0
      else (case parse_hex_usize (trim_0x tag) of Some n \<Rightarrow> n | None \<Rightarrow> 0))"

definition eth_get_block_by_number ::
  "('p, 'a) evm_env \<Rightarrow> string \<Rightarrow> json option \<Rightarrow> 'a evm_gateway \<Rightarrow> (evm_rpc_error + evm_value) \<times> 'a evm_gateway" where
  "eth_get_block_by_number E b params s =
     (case extract_param_str E params 0 of
        Inl err \<Rightarrow> (Inl err, s)
      | Inr tag \<Rightarrow>
          (case get_bucket_events_sorted E b s of
             (es, s1) \<Rightarrow>
               if es = [] \<or> block_index tag (length es) \<ge> length es then (Inr EvNull, s1)
               else (Inr (EvBlock (build_block_response E es (block_index tag (length es)))), s1)))"

fun find_block :: "('p, 'a) evm_env \<Rightarrow> (event \<Rightarrow> bool) \<Rightarrow> event list \<Rightarrow> nat \<Rightarrow> nat option" where
  "find_block E P [] i = None"
| "find_block E P (e # es) i = (if P e then Some i else find_block E P es (Suc i))"

definition eth_get_block_by_hash ::
  "('p, 'a) evm_env \<Rightarrow> string \<Rightarrow> json option \<Rightarrow> 'a evm_gateway \<Rightarrow> (evm_rpc_error + evm_value) \<times> 'a evm_gateway" where
  "eth_get_block_by_hash E b params s =
     (case extract_param_str E params 0 of
        Inl err \<Rightarrow> (Inl err, s)
      | Inr h \<Rightarrow>
          (case get_bucket_events_sorted E b s of
             (es, s1) \<Rightarrow>
               (case find_block E (\<lambda>e. hex_hash (block_hash_for_event E e) = lower E h) es 0 of
                  Some i \<Rightarrow> (Inr (EvBlock (build_block_response E es i)), s1)
                | None \<Rightarrow> (Inr EvNull, s1))))"

definition names_tx :: "('p, 'a) evm_env \<Rightarrow> string \<Rightarrow> event \<Rightarrow> bool" where
  "names_tx E h e \<longleftrightarrow>
     hex_hash (extract_tx_hash_from_event E e) = lower E h \<or> hex_hash (ev_keccak256 E (event_id e)) = lower E h"

definition eth_get_transaction_by_hash ::
  "('p, 'a) evm_env \<Rightarrow> string \<Rightarrow> json option \<Rightarrow> 'a evm_gateway \<Rightarrow> (evm_rpc_error + evm_value) \<times> 'a evm_gateway" where
  "eth_get_transaction_by_hash E b params s =
     (case extract_param_str E params 0 of
        Inl err \<Rightarrow> (Inl err, s)
      | Inr h \<Rightarrow>
          (case fmlookup (eg_txs s) (lower E h) of
             Some cached \<Rightarrow> (Inr (EvCachedTx cached), s)
           | None \<Rightarrow>
               (case get_bucket_events_sorted E b s of
                  (es, s1) \<Rightarrow>
                    (case find_block E (names_tx E h) es 0 of
                       Some i \<Rightarrow> (Inr (EvTx (build_tx_object E (es ! i) i)), s1)
                     | None \<Rightarrow> (Inr EvNull, s1)))))"

definition eth_get_transaction_receipt ::
  "('p, 'a) evm_env \<Rightarrow> string \<Rightarrow> json option \<Rightarrow> 'a evm_gateway \<Rightarrow> (evm_rpc_error + evm_value) \<times> 'a evm_gateway" where
  "eth_get_transaction_receipt E b params s =
     (case extract_param_str E params 0 of
        Inl err \<Rightarrow> (Inl err, s)
      | Inr h \<Rightarrow>
          (case fmlookup (eg_txs s) (lower E h) of
             Some cached \<Rightarrow>
               (Inr (EvReceipt \<lparr>rc_transaction_hash = h, rc_block_number = ''0x0'', rc_block_hash = ZERO_HASH,
                  rc_from = ct_from cached, rc_to = ct_to cached\<rparr>), s)
           | None \<Rightarrow>
               (case get_bucket_events_sorted E b s of
                  (es, s1) \<Rightarrow>
                    (case find_block E (names_tx E h) es 0 of
                       Some i \<Rightarrow>
                         (Inr (EvReceipt \<lparr>rc_transaction_hash = h, rc_block_number = hex_number i,
                            rc_block_hash = hex_hash (block_hash_for_event E (es ! i)),
                            rc_from = account (es ! i), rc_to = extract_to_from_event E (es ! i)\<rparr>), s1)
                     | None \<Rightarrow> (Inr EvNull, s1)))))"

subsection \<open>The handler\<close>

definition evm_method ::
  "('p, 'a) evm_env \<Rightarrow> string \<Rightarrow> string \<Rightarrow> evm_rpc_request \<Rightarrow> 'a evm_gateway \<Rightarrow> (evm_rpc_error + evm_value) \<times> 'a evm_gateway" where
  "evm_method E b raw_bucket rq s =
     (let m = rq_method rq in
      if m = ''eth_chainId'' \<or> m = ''net_version'' then (eth_chain_id E raw_bucket, s)
      else if m = ''eth_accounts'' then (Inr EvEmptyList, s)
      else if m = ''eth_getBalance'' then eth_get_balance E b (rq_params rq) s
      else if m = ''eth_getTransactionCount'' then eth_get_transaction_count E b (rq_params rq) s
      else if m = ''eth_sendRawTransaction'' then eth_send_raw_transaction E b raw_bucket (rq_params rq) s
      else if m = ''eth_gasPrice'' then (Inr (EvString ''0x0''), s)
      else if m = ''eth_estimateGas'' then (Inr (EvString ''0x5208''), s)
      else if m = ''eth_blockNumber'' then eth_block_number E b s
      else if m = ''eth_getBlockByNumber'' then eth_get_block_by_number E b (rq_params rq) s
      else if m = ''eth_getBlockByHash'' then eth_get_block_by_hash E b (rq_params rq) s
      else if m = ''eth_getTransactionByHash'' then eth_get_transaction_by_hash E b (rq_params rq) s
      else if m = ''eth_getTransactionReceipt'' then eth_get_transaction_receipt E b (rq_params rq) s
      else if m = ''eth_call'' then (Inl (evm_rpc_err (- 32601) ''smart contracts not supported''), s)
      else if m = ''eth_getLogs'' then (Inr EvEmptyList, s)
      else if m = ''web3_clientVersion'' then (Inr (EvString ''shardd-evm/0.1''), s)
      else if m = ''net_listening'' then (Inr (EvBool False), s)
      else if m = ''net_peerCount'' then (Inr (EvString ''0x0''), s)
      else if m = ''eth_feeHistory'' then (Inr EvFeeHistory, s)
      else (Inl (evm_rpc_err (- 32601) (''unknown method: '' @ m)), s))"

definition answer_evm ::
  "('p, 'a) evm_env \<Rightarrow> string \<Rightarrow> string \<Rightarrow> string \<Rightarrow> evm_rpc_request \<Rightarrow> 'a evm_gateway \<Rightarrow> evm_response \<times> 'a evm_gateway" where
  "answer_evm E b user_id raw_bucket rq s =
     (case evm_method E b raw_bucket rq s of
        (Inr v, s1) \<Rightarrow> (EvOk (rq_id rq) v, s1)
      | (Inl err, s1) \<Rightarrow> (EvError (rq_id rq) (er_code err) (er_message err), s1))"

definition evm_rpc_handler ::
  "('p, 'a) evm_env \<Rightarrow> string \<Rightarrow> string \<Rightarrow> string \<Rightarrow> 'a evm_gateway \<Rightarrow> evm_response \<times> 'a evm_gateway" where
  "evm_rpc_handler E user_id raw_bucket body s =
     (case (if trim body = [] then Inr \<lparr>rq_method = ''eth_chainId'', rq_params = None, rq_id = JNumber 0\<rparr>
            else ev_parse_request E body) of
        Inl err \<Rightarrow> (EvError JNull (- 32700) (''parse error: '' @ err), s)
      | Inr rq \<Rightarrow>
          (case ev_parse_uuid E user_id of
             Inl err \<Rightarrow> (EvError JNull (- 32602) (''invalid user id: '' @ err), s)
           | Inr uid \<Rightarrow>
               let b = internal_bucket_for_user uid raw_bucket in
               if rq_method rq = ''eth_sendRawTransaction''
               then (case ensure_evm_ready E (user_id @ '':'' @ raw_bucket) user_id raw_bucket s of
                       (Some err, s1) \<Rightarrow> (EvError JNull (er_code err) (er_message err), s1)
                     | (None, s1) \<Rightarrow> answer_evm E b user_id raw_bucket rq s1)
               else answer_evm E b user_id raw_bucket rq s))"

end
