(* ===== verification/Evm_Guarantees.thy ===== *)
theory Evm_Guarantees
  imports Evm_Rpc Gateway_Auth
begin

section \<open>What the EVM facade guarantees\<close>

text \<open>
  A signed transaction becomes at most three copies of one transfer request with exactly its value; what the facade reports when no node
  took the request; how a transaction is found again in the event list of its bucket.
\<close>

subsection \<open>Sending\<close>

definition takes :: "('p, 'a) evm_env \<Rightarrow> create_event_request \<Rightarrow> nat \<Rightarrow> 'a mesh_node \<Rightarrow> bool" where
  "takes E req i n \<longleftrightarrow>
     (\<exists>p a. parse_peer_id (ge_text (ev_gateway E)) (mn_peer_id n) = Inr p \<and> ev_send E i p (RqCreateEvent req) = Inr (Inr a))"

definition reachable_node :: "('p, 'a) evm_env \<Rightarrow> 'a mesh_node \<Rightarrow> bool" where
  "reachable_node E n \<longleftrightarrow> (\<exists>p. parse_peer_id (ge_text (ev_gateway E)) (mn_peer_id n) = Inr p)"

lemma fan_out_sent: "\<exists>k \<le> length ns. snd (fan_out E req i ns e) = replicate k req"
proof (induction ns arbitrary: i e)
  case (Cons n ns)
  let ?e1 = "\<lambda>err. Some (evm_rpc_err (- 32000) (''node error: '' @ ev_node_error_debug E err))"
    and ?e2 = "\<lambda>err. Some (evm_rpc_err (- 32000) (''mesh error: '' @ err))"
  have s: "\<exists>k' \<le> length (n # ns). req # snd (fan_out E req (Suc i) ns e') = replicate k' req"
      "\<exists>k' \<le> length (n # ns). snd (fan_out E req (Suc i) ns e') = replicate k' req" for e'
    using Cons [of "Suc i" e'] by (metis Suc_le_mono length_Cons replicate_Suc) (metis Cons le_SucI length_Cons)
  show ?case
    using s by (auto simp: case_prod_unfold intro!: exI [of _ "Suc 0"] split: sum.split)
qed simp

lemma fan_out_None:
  assumes "fst (fan_out E req i ns e) = None"
  shows "(\<exists>k < length ns. takes E req (i + k) (ns ! k)) \<or>
     e = None \<and> snd (fan_out E req i ns e) = [] \<and> (\<forall>n \<in> set ns. \<not> reachable_node E n)"
  using assms
proof (induction ns arbitrary: i e)
  case (Cons n ns)
  have later: "\<exists>k < length (n # ns). takes E req (i + k) ((n # ns) ! k)"
    if "\<exists>k < length ns. takes E req (Suc i + k) (ns ! k)"
    using that by (metis (no_types, lifting) add_Suc add_Suc_right length_Cons not_less_eq nth_Cons_Suc)
  show ?case
  proof (cases "takes E req i n")
    case True
    then show ?thesis by (intro disjI1 exI [of _ 0]) simp
  next
    case False
    then show ?thesis using Cons.prems later
      by (auto simp: takes_def reachable_node_def case_prod_unfold split: sum.splits dest!: Cons.IH)
  qed
qed simp

lemma fan_out_unreachable: "\<forall>n \<in> set ns. \<not> reachable_node E n \<Longrightarrow> fan_out E req i ns e = (e, [])"
  by (induction ns arbitrary: i) (auto simp: reachable_node_def split: sum.split)

lemma evm_mesh_state:
  "evm_mesh_request E req s = (res, s1) \<Longrightarrow> eg_sent s1 = eg_sent s \<and> eg_txs s1 = eg_txs s \<and> eg_state s1 = eg_state s"
  by (auto simp: evm_mesh_request_def split: prod.splits sum.splits)

lemma bucket_events_state:
  "get_bucket_events_sorted E b s = (es, s1) \<Longrightarrow> eg_sent s1 = eg_sent s \<and> eg_txs s1 = eg_txs s \<and> eg_state s1 = eg_state s"
  by (cases "evm_mesh_request E RqEvents s")
    (auto simp: get_bucket_events_sorted_def split: sum.splits node_rpc_response.splits dest!: evm_mesh_state)

lemma get_nonce_state:
  "get_nonce E b a s = (k, s1) \<Longrightarrow> eg_sent s1 = eg_sent s \<and> eg_txs s1 = eg_txs s \<and> eg_state s1 = eg_state s"
  by (cases "get_bucket_events_sorted E b s") (auto simp: get_nonce_def dest: bucket_events_state)

lemma check_tx_Inr:
  "check_tx E raw_bucket tx = Inr (signer, receiver, v) \<longleftrightarrow>
     tx_signer tx = Some signer \<and> tx_to tx = Some receiver \<and>
     (case tx_chain_id tx of Some c \<Rightarrow> c | None \<Rightarrow> 0) = chain_id_for_bucket E raw_bucket \<and>
     (\<exists>n < 2 ^ 63. tx_value tx = n * EVM_WEI_SCALE \<and> v = word_of_nat n)"
proof -
  have small: "n * EVM_WEI_SCALE < 2 ^ 128" if "n < 2 ^ 63" for n using that by (simp add: EVM_WEI_SCALE_def)
  have d: "n * EVM_WEI_SCALE div EVM_WEI_SCALE = n" "n * EVM_WEI_SCALE mod EVM_WEI_SCALE = 0" for n
    by (simp_all add: EVM_WEI_SCALE_def)
  have m: "k = (k div EVM_WEI_SCALE) * EVM_WEI_SCALE" if "k mod EVM_WEI_SCALE = 0" for k
    using that by (metis add.right_neutral div_mult_mod_eq)
  show ?thesis
    by (auto simp: check_tx_def Let_def d small simp del: power_numeral split: option.split if_splits intro: m)
qed

lemma sint_uminus_nat: "n < 2 ^ 63 \<Longrightarrow> sint (- (word_of_nat n :: i64)) = - int n"
  using sint_of_int_small [of "- int n"] by simp

text \<open>C16. Exactness of a sent transaction: when \<open>eth_sendRawTransaction\<close> reports success, the signature was recovered, the
  chain id is the bucket's, the value is a whole number of units below $2^{63}$ and the nonce is the number of debits of the signer seen
  in the bucket. At most three requests were sent, all of them the same transfer of exactly that number of units from the signer to the callee
  under the transaction hash as idempotency nonce; a node took it, or none of the nodes tried has a parsable
  peer id and nothing was sent.\<close>

theorem send_raw_exact:
  assumes "eth_send_raw_transaction E b raw_bucket params s = (Inr v, s')"
  shows "\<exists>raw tx signer receiver n hash req k s1.
     decode_raw E params = Inr (raw, tx) \<and> tx_signer tx = Some signer \<and> tx_to tx = Some receiver \<and>
     (case tx_chain_id tx of Some c \<Rightarrow> c | None \<Rightarrow> 0) = chain_id_for_bucket E raw_bucket \<and>
     tx_value tx = n * 10 ^ 18 \<and> n < 2 ^ 63 \<and> get_nonce E b signer s = (tx_nonce tx, s1) \<and>
     hash = hex_hash (ev_keccak256 E raw) \<and> v = EvString hash \<and> fmdom (eg_txs s') = finsert hash (fmdom (eg_txs s)) \<and>
     eg_sent s' = eg_sent s @ replicate k req \<and> k \<le> 3 \<and>
     req_bucket req = b \<and> req_account req = signer \<and> sint (req_amount req) = - int n \<and> req_transfer_to req = Some receiver \<and>
     req_idempotency_nonce req = hash \<and>
     ((\<exists>i < 3. i < length (fan_out_nodes E s1) \<and> takes E req i (fan_out_nodes E s1 ! i)) \<or>
      k = 0 \<and> (\<forall>node \<in> set (fan_out_nodes E s1). \<not> reachable_node E node))"
proof -
  obtain raw tx where d: "decode_raw E params = Inr (raw, tx)"
    using assms by (auto simp: eth_send_raw_transaction_def split: sum.splits)
  obtain signer receiver w where c: "check_tx E raw_bucket tx = Inr (signer, receiver, w)"
    using assms d by (auto simp: eth_send_raw_transaction_def split: sum.splits)
  then obtain n where n: "n < 2 ^ 63" "tx_value tx = n * EVM_WEI_SCALE" "w = word_of_nat n" by (auto simp: check_tx_Inr)
  obtain current s1 where g: "get_nonce E b signer s = (current, s1)" by fastforce
  have nonce: "tx_nonce tx = current"
    using assms d c g by (auto simp: eth_send_raw_transaction_def split: if_splits)
  let ?hash = "hex_hash (ev_keccak256 E raw)"
  let ?req = "transfer_request E b raw_bucket signer receiver w ?hash (tx_nonce tx)" and ?ns = "fan_out_nodes E s1"
  let ?f = "fan_out E ?req 0 ?ns None"
  have f: "fst ?f = None" "v = EvString ?hash" "eg_sent s' = eg_sent s1 @ snd ?f" "fmdom (eg_txs s') = finsert ?hash (fmdom (eg_txs s1))"
    using assms d c g nonce by (auto simp: eth_send_raw_transaction_def Let_def split: prod.splits option.splits)
  obtain k where k: "k \<le> length ?ns" "snd ?f = replicate k ?req" using fan_out_sent by blast
  have len: "length ?ns \<le> 3" by (simp add: fan_out_nodes_def)
  have r: "req_bucket ?req = b" "req_account ?req = signer" "sint (req_amount ?req) = - int n" "req_transfer_to ?req = Some receiver"
    "req_idempotency_nonce ?req = ?hash"
    using sint_uminus_nat n by (simp_all add: transfer_request_def)
  have t: "(\<exists>i < 3. i < length ?ns \<and> takes E ?req i (?ns ! i)) \<or> k = 0 \<and> (\<forall>node \<in> set ?ns. \<not> reachable_node E node)"
    using fan_out_None [OF f(1)] k len by (metis add_0 less_le_trans replicate_empty)
  have "k \<le> 3" "tx_value tx = n * 10 ^ 18" using k len n by (simp_all add: EVM_WEI_SCALE_def)
  note units = this
  have st: "eg_sent s' = eg_sent s @ replicate k ?req" "fmdom (eg_txs s') = finsert ?hash (fmdom (eg_txs s))"
    using f(3,4) k(2) get_nonce_state [OF g] by simp_all
  have chain: "tx_signer tx = Some signer" "tx_to tx = Some receiver"
    "(case tx_chain_id tx of Some c \<Rightarrow> c | None \<Rightarrow> 0) = chain_id_for_bucket E raw_bucket"
    using c by (simp_all add: check_tx_Inr)
  show ?thesis
    by (rule exI [of _ raw], rule exI [of _ tx], rule exI [of _ signer], rule exI [of _ receiver], rule exI [of _ n],
        rule exI [of _ ?hash], rule exI [of _ ?req], rule exI [of _ k], rule exI [of _ s1])
      (intro conjI d chain units n(1) g [folded nonce] refl f(2) st r t)
qed


subsection \<open>Balances\<close>

lemma eth_get_balance_bucket: "eth_get_balance E b params s = eth_get_balance E b' params s"
proof -
  have "query_balances E b s = query_balances E b' s" by (simp add: query_balances_def)
  then show ?thesis by (simp add: eth_get_balance_def cong: sum.case_cong)
qed

text \<open>The balance of an address does not depend on whose bucket is asked: \<open>eth_getBalance\<close> takes the first account of that name in
  any bucket of the ledger, so two requests that name different users and buckets get the same answer.\<close>

theorem balance_ignores_bucket:
  assumes "ev_parse_uuid E u = Inr uid" "ev_parse_uuid E u' = Inr uid'"
    and "ev_parse_request E body = Inr rq" "trim body \<noteq> []" "rq_method rq = ''eth_getBalance''"
  shows "evm_rpc_handler E u b body s = evm_rpc_handler E u' b' body s"
  using assms eth_get_balance_bucket [of E "internal_bucket_for_user uid b" _ s "internal_bucket_for_user uid' b'"]
  by (simp add: evm_rpc_handler_def answer_evm_def evm_method_def)

subsection \<open>Finding a transaction again\<close>

definition event_order :: "event \<Rightarrow> u64 \<times> string" where
  "event_order e = (created_at_unix_ms e, event_id e)"

lemma compare_events_key: "compare_events l r = cmp (event_order l) (event_order r)"
  by (simp add: compare_events_def event_order_def then_with_cmp)

lemma bucket_events_sorted: "get_bucket_events_sorted E b s = (es, s1) \<Longrightarrow> sorted (map event_order es)"
  by (cases "evm_mesh_request E RqEvents s")
    (auto simp: get_bucket_events_sorted_def sort_by_key [of compare_events, OF compare_events_key]
      split: sum.splits node_rpc_response.splits)

lemma find_block_Some: "find_block E P es i = Some j \<Longrightarrow> \<exists>k < length es. j = i + k \<and> P (es ! k) \<and> (\<forall>l < k. \<not> P (es ! l))"
proof (induction es arbitrary: i)
  case (Cons e es)
  show ?case
  proof (cases "P e")
    case False
    with Cons.prems have "find_block E P es (Suc i) = Some j" by simp
    from Cons.IH [OF this] obtain k where "k < length es" "j = Suc i + k" "P (es ! k)" "\<forall>l < k. \<not> P (es ! l)" by blast
    with False show ?thesis by (intro exI [of _ "Suc k"]) (auto simp: less_Suc_eq_0_disj)
  qed (use Cons.prems in auto)
qed simp

lemma find_block_None: "find_block E P es i = None \<longleftrightarrow> (\<forall>e \<in> set es. \<not> P e)"
  by (induction es arbitrary: i) auto

lemma first_block:
  assumes "sorted (map event_order es)" "e \<in> set es" "P e" "\<forall>x \<in> set es. P x \<longrightarrow> x = e \<or> event_order e < event_order x"
  shows "\<exists>i < length es. es ! i = e \<and> find_block E P es 0 = Some i"
proof -
  obtain i where f: "find_block E P es 0 = Some i" using assms(2,3) find_block_None by (metis not_None_eq)
  then have i: "i < length es" "P (es ! i)" "\<forall>l < i. \<not> P (es ! l)" using find_block_Some [OF f] by auto
  obtain j where j: "j < length es" "es ! j = e" using assms(2) by (meson in_set_conv_nth)
  then have "i \<le> j" using i(3) assms(3) by (meson not_le)
  then have "event_order (es ! i) \<le> event_order e" using assms(1) j by (auto simp: sorted_iff_nth_mono)
  then have "es ! i = e" using assms(4) i by (meson leD nth_mem)
  with i f show ?thesis by blast
qed

lemma hex_digit_not_x: "n < 16 \<Longrightarrow> hex_digit n \<noteq> CHR ''x''"
  using hex_digit_value [of n] by (auto simp: hex_value_def)

lemma trim_hash: "trim_0x (hex_hash h) = hex h"
proof -
  have "trim_0x (hex h) = hex h"
    by (cases h; subst trim_0x.simps) (auto simp: hex_def hex_digit_not_x split: list.split)
  then show ?thesis by (subst trim_0x.simps) (simp add: hex_hash_def)
qed

lemma hex_number_zero: "hex_number 0 = ''0x0''"
  by code_simp


subsection \<open>A small chain\<close>

text \<open>The two-node mesh, a hash of 32 zero bytes, and one transaction of three units from alice to bob.\<close>

definition sample_tx :: evm_tx where
  "sample_tx = \<lparr>tx_signer = Some ''alice'', tx_to = Some ''bob'', tx_value = 3 * 10 ^ 18, tx_nonce = 1, tx_chain_id = Some 0\<rparr>"

definition sample_note :: json where
  "sample_note = tx_note (hex_hash (replicate 32 (CHR 0x00))) ''bob'' 0 0"

definition sample_debit :: event where
  "sample_debit = (stored_event ''2'' ''b'')\<lparr>account := ''alice'', amount := - 3, event_note := Some ''note''\<rparr>"

definition sample_credit :: event where
  "sample_credit = (stored_event ''1'' ''b'')\<lparr>account := ''bob'', amount := 3, event_note := Some ''note''\<rparr>"

definition chain_answer :: "node_rpc_request \<Rightarrow> node_rpc_response" where
  "chain_answer req = (case req of RqEvents \<Rightarrow> RsEvents [sample_debit, sample_credit] | _ \<Rightarrow> RsHeads fmempty)"

definition sample_evm_env :: "(string, string) evm_env" where
  "sample_evm_env =
     \<lparr>ev_gateway = sample_gateway_env\<lparr>ge_ask := \<lambda>_ _ _ req. Inr (Inr (chain_answer req))\<rparr>, ev_keccak256 = (\<lambda>_. replicate 32 (CHR 0x00)), ev_decode_tx = (\<lambda>_. Inr sample_tx),
      ev_show_json = (\<lambda>_. ''note''), ev_parse_json = (\<lambda>_. Some sample_note), ev_parse_request = (\<lambda>_. Inl []),
      ev_parse_uuid = Inr, ev_node_error_debug = (\<lambda>_. []), ev_send = (\<lambda>_ _ _. Inr (Inr (RsHeads fmempty))),
      ev_listed_at = 10, ev_instant = 0, ev_now_secs = 0, ev_check_state = (\<lambda>_ _. None)\<rparr>"

definition sample_evm :: "string evm_gateway" where
  "sample_evm = \<lparr>eg_gateway = sample_gateway, eg_state = None, eg_txs = fmempty, eg_sent = []\<rparr>"

definition sample_params :: "json option" where
  "sample_params = Some (JArray [JString ''0x''])"

lemma sample_decode:
  "ev_decode_tx E [] = Inr tx \<Longrightarrow> decode_raw E sample_params = Inr ([], tx)"
  by (simp add: decode_raw_def sample_params_def extract_param_str_def trim_0x.simps [of "''0x''"] trim_0x.simps [of "[]"])

lemma sample_decoded: "decode_raw sample_evm_env sample_params = Inr ([], sample_tx)"
  by (rule sample_decode) (simp add: sample_evm_env_def)

lemma sample_chain_id: "chain_id_for_bucket sample_evm_env b = 0"
  by (simp add: chain_id_for_bucket_def sample_evm_env_def eval_nat_numeral Let_def)

lemma sample_check: "check_tx sample_evm_env ''b'' sample_tx = Inr (''alice'', ''bob'', 3)"
  unfolding check_tx_Inr by (auto simp: sample_tx_def sample_chain_id EVM_WEI_SCALE_def intro!: exI [of _ 3])

lemma sample_bucket_events:
  "get_bucket_events_sorted sample_evm_env ''b'' sample_evm =
     ([sample_credit, sample_debit], sample_evm\<lparr>eg_gateway := sample_gateway\<lparr>gw_calls := [RqEvents]\<rparr>\<rparr>)"
proof -
  have "evm_mesh_request sample_evm_env RqEvents sample_evm =
      (Inr (Inr (chain_answer RqEvents)), sample_evm\<lparr>eg_gateway := sample_gateway\<lparr>gw_calls := [RqEvents]\<rparr>\<rparr>)"
    by (simp add: evm_mesh_request_def sample_evm_env_def sample_evm_def sample_gateway_def answering_mesh_request)
  moreover have "compare_events sample_debit sample_credit = Greater" by code_simp
  moreover have "bucket sample_debit = ''b''" "bucket sample_credit = ''b''"
    by (simp_all add: sample_debit_def sample_credit_def stored_event_def)
  ultimately show ?thesis by (simp add: get_bucket_events_sorted_def chain_answer_def sort_by_def)
qed

lemma sample_lower: "lower sample_evm_env x = x"
  by (simp add: lower_def sample_evm_env_def sample_gateway_env_def)

lemma sample_nonce:
  "get_nonce sample_evm_env ''b'' ''alice'' sample_evm = (1, sample_evm\<lparr>eg_gateway := sample_gateway\<lparr>gw_calls := [RqEvents]\<rparr>\<rparr>)"
proof -
  have "(- 3 :: i64) <s 0" by code_simp
  then show ?thesis
    by (simp add: get_nonce_def sample_bucket_events count_debits_def sample_debit_def sample_credit_def stored_event_def sample_lower)
qed

lemma sample_reachable: "reachable_node sample_evm_env n" "takes sample_evm_env req i n"
  by (simp_all add: reachable_node_def takes_def sample_evm_env_def sample_gateway_env_def plain_text_def)

lemma sample_nodes:
  assumes "gw_mesh_config (eg_gateway s) = sample_config" "gw_peers (eg_gateway s) = sample_peers"
  shows "fan_out_nodes sample_evm_env s \<noteq> []"
proof -
  have "sort_by compare_for_fan_out xs = [] \<longleftrightarrow> xs = []" for xs :: "string mesh_node list"
  proof -
    have "insort_by compare_for_fan_out x ys \<noteq> []" for x :: "string mesh_node" and ys by (cases ys) auto
    then show ?thesis by (cases xs) (simp_all add: sort_by_def)
  qed
  then show ?thesis using assms
    by (simp add: fan_out_nodes_def sample_evm_env_def all_nodes_empty sample_candidates)
qed

lemma sample_fan_out: "ns \<noteq> [] \<Longrightarrow> fan_out sample_evm_env req i ns e = (None, [req])"
  by (cases ns) (simp_all add: sample_evm_env_def sample_gateway_env_def plain_text_def)

theorem send_raw_exact_witness:
  "\<exists>v s' req. eth_send_raw_transaction sample_evm_env ''b'' ''b'' sample_params sample_evm = (Inr v, s') \<and>
     eg_sent s' = [req] \<and> req_account req = ''alice'' \<and> sint (req_amount req) = - 3 \<and> req_transfer_to req = Some ''bob''"
proof -
  let ?s1 = "sample_evm\<lparr>eg_gateway := sample_gateway\<lparr>gw_calls := [RqEvents]\<rparr>\<rparr>"
  have ns: "fan_out_nodes sample_evm_env ?s1 \<noteq> []" by (rule sample_nodes) (simp_all add: sample_gateway_def)
  have n: "tx_nonce sample_tx = 1" by (simp add: sample_tx_def)
  obtain v s' where r: "eth_send_raw_transaction sample_evm_env ''b'' ''b'' sample_params sample_evm = (Inr v, s')"
    and one: "length (eg_sent s') = Suc (length (eg_sent sample_evm))"
    by (simp add: eth_send_raw_transaction_def sample_decoded sample_check sample_nonce n sample_fan_out [OF ns] Let_def)
  from send_raw_exact [OF r] obtain raw tx signer receiver n req k where
    d: "decode_raw sample_evm_env sample_params = Inr (raw, tx)" "tx_signer tx = Some signer" "tx_to tx = Some receiver"
      "tx_value tx = n * 10 ^ 18" "eg_sent s' = eg_sent sample_evm @ replicate k req" "req_account req = signer"
      "sint (req_amount req) = - int n" "req_transfer_to req = Some receiver"
    by blast
  from d(1) have "tx = sample_tx" by (simp add: sample_decoded)
  with d have "signer = ''alice''" "receiver = ''bob''" "n = 3" by (simp_all add: sample_tx_def)
  moreover have "k = 1" using d(5) one by (simp add: sample_evm_def)
  ultimately show ?thesis using r d by (auto simp: sample_evm_def)
qed

text \<open>The same gateway before it has met a node, and the first transaction of alice.\<close>

definition lone_env :: "(string, string) evm_env" where
  "lone_env = sample_evm_env\<lparr>ev_decode_tx := \<lambda>_. Inr (sample_tx\<lparr>tx_nonce := 0\<rparr>)\<rparr>"

definition lone_evm :: "string evm_gateway" where
  "lone_evm = sample_evm\<lparr>eg_gateway := sample_gateway\<lparr>gw_peers := fmempty\<rparr>\<rparr>"

lemma lone_nodes: "gw_peers (eg_gateway s) = fmempty \<Longrightarrow> fan_out_nodes E s = []"
  using all_nodes_empty [where cfg = "gw_mesh_config (eg_gateway s)" and t = "ev_listed_at E" and peers = fmempty]
  by (simp add: fan_out_nodes_def candidates_of_empty sort_by_def)


definition sample_get_balance :: evm_rpc_request where
  "sample_get_balance = \<lparr>rq_method = ''eth_getBalance'', rq_params = sample_params, rq_id = JNull\<rparr>"

theorem balance_ignores_bucket_witness:
  "let E = sample_evm_env\<lparr>ev_parse_request := \<lambda>_. Inr sample_get_balance\<rparr> in
   evm_rpc_handler E ''alice'' ''mine'' ''x'' sample_evm = evm_rpc_handler E ''bob'' ''yours'' ''x'' sample_evm"
  unfolding Let_def
proof (rule balance_ignores_bucket)
  show "trim ''x'' \<noteq> []" by code_simp
  show "rq_method sample_get_balance = ''eth_getBalance''" by (simp add: sample_get_balance_def)
qed (simp_all add: sample_evm_env_def)


end
