(* ===== verification/Postgres_Storage.thy ===== *)
theory Postgres_Storage
  imports Mesh_Selection
begin

section \<open>The PostgreSQL storage backend (\<open>libs/storage/src/postgres.rs\<close>)\<close>

text \<open>
  The record \<open>pg_storage\<close> holds the tables of the migrations, and each method of \<open>PostgresStorage\<close> is one definition: a statement is
  one atomic step on the tables, and \<open>None\<close> is the error the server answers. What a statement checks is written out: text with a NUL byte is
  refused, the note has at most 4096 characters, the event id and the position are unique, sums and the epoch must fit their columns.
  Numbers are the same words as in the domain types, but the columns are signed, so comparisons are. The server is \<open>pg_env\<close>:
  the collation that orders text, the case folding of \<open>ILIKE\<close>, and the remaining limits on a row (an index entry that is too
  long). Rows of a query with no \<open>ORDER BY\<close> come in the order of their positions, which SQL leaves open. Lost connections are not modelled.
\<close>

record event_row =
  er_event_id :: string
  er_bucket :: string
  er_origin_node_id :: string
  er_origin_epoch :: u32
  er_origin_seq :: i64
  er_created_at_unix_ms :: i64
  er_type :: string
  er_account :: string
  er_amount :: i64
  er_note :: "string option"
  er_idempotency_nonce :: string
  er_void_ref :: "string option"
  er_hold_amount :: i64
  er_hold_expires_at_unix_ms :: i64
  er_transfer_to :: "string option"

record registry_row =
  rr_node_id :: string
  rr_addr :: string
  rr_first_seen :: i64
  rr_last_seen :: i64
  rr_status :: string

record pg_storage =
  pg_events :: "(origin_key, event_row) fmap"
  pg_node_meta :: "(string, string \<times> u32) fmap"
  pg_registry :: "(string, registry_row) fmap"
  pg_digests :: "(epoch_key, i64 \<times> bytes) fmap"
  pg_allocators :: "(string \<times> string, bucket_allocator_row) fmap"
  pg_balance_summary :: "(string \<times> string \<times> i64) list option"

record pg_env =
  pe_collate :: "string \<Rightarrow> string \<Rightarrow> ordering"
  pe_fold_case :: "string \<Rightarrow> string"
  pe_row_fits :: "event_row \<Rightarrow> bool"

text \<open>The tables after the migrations; the view is created from the empty log.\<close>

definition pg_new :: pg_storage where
  "pg_new = \<lparr>pg_events = fmempty, pg_node_meta = fmempty, pg_registry = fmempty, pg_digests = fmempty,
     pg_allocators = fmempty, pg_balance_summary = Some []\<rparr>"

subsection \<open>Rows\<close>

definition parse_event_type :: "string \<Rightarrow> event_type" where
  "parse_event_type s =
     (if s = ''void'' then Void
      else if s = ''hold_release'' then HoldRelease
      else if s = ''reservation_create'' then ReservationCreate
      else if s = ''bucket_delete'' then BucketDelete
      else Standard)"

definition event_of_row :: "event_row \<Rightarrow> event" where
  "event_of_row r =
     \<lparr>event_id = er_event_id r, origin_node_id = er_origin_node_id r, origin_epoch = er_origin_epoch r,
      origin_seq = er_origin_seq r, created_at_unix_ms = er_created_at_unix_ms r, etype = parse_event_type (er_type r),
      bucket = er_bucket r, account = er_account r, amount = er_amount r, event_note = er_note r,
      idempotency_nonce = er_idempotency_nonce r, void_ref = er_void_ref r, hold_amount = er_hold_amount r,
      hold_expires_at_unix_ms = er_hold_expires_at_unix_ms r, transfer_to = er_transfer_to r\<rparr>"

definition row_of_event :: "event \<Rightarrow> event_row" where
  "row_of_event e =
     \<lparr>er_event_id = event_id e, er_bucket = bucket e, er_origin_node_id = origin_node_id e, er_origin_epoch = origin_epoch e,
      er_origin_seq = origin_seq e, er_created_at_unix_ms = created_at_unix_ms e, er_type = show_event_type (etype e),
      er_account = account e, er_amount = amount e, er_note = event_note e, er_idempotency_nonce = idempotency_nonce e,
      er_void_ref = void_ref e, er_hold_amount = hold_amount e, er_hold_expires_at_unix_ms = hold_expires_at_unix_ms e,
      er_transfer_to = transfer_to e\<rparr>"

definition row_position :: "event_row \<Rightarrow> origin_key" where
  "row_position r = (er_bucket r, er_origin_node_id r, er_origin_epoch r, er_origin_seq r)"

definition pg_text :: "string \<Rightarrow> bool" where
  "pg_text s \<longleftrightarrow> CHR 0x00 \<notin> set s"

definition row_texts :: "event_row \<Rightarrow> string list" where
  "row_texts r =
     [er_event_id r, er_bucket r, er_origin_node_id r, er_type r, er_account r, er_idempotency_nonce r] @
     List.map_filter id [er_note r, er_void_ref r, er_transfer_to r]"

text \<open>What one row must satisfy on its own: the texts, the check on the note, and the limits of the server.\<close>

definition row_accepted :: "pg_env \<Rightarrow> event_row \<Rightarrow> bool" where
  "row_accepted E r \<longleftrightarrow>
     list_all pg_text (row_texts r) \<and> opt_ok (er_note r) (\<lambda>n. chars_count n \<le> 4096) \<and> pe_row_fits E r"

definition scmp :: "'w::len word \<Rightarrow> 'w word \<Rightarrow> ordering" where
  "scmp x y = cmp (sint x) (sint y)"

text \<open>\<open>ORDER BY bucket, origin_node_id, origin_epoch, origin_seq\<close>.\<close>

definition by_position :: "pg_env \<Rightarrow> event_row \<Rightarrow> event_row \<Rightarrow> ordering" where
  "by_position E r r' =
     then_with (pe_collate E (er_bucket r) (er_bucket r'))
       (then_with (pe_collate E (er_origin_node_id r) (er_origin_node_id r'))
         (then_with (scmp (er_origin_epoch r) (er_origin_epoch r')) (scmp (er_origin_seq r) (er_origin_seq r'))))"

abbreviation pg_rows :: "pg_storage \<Rightarrow> event_row list" where
  "pg_rows db \<equiv> fm_values (pg_events db)"

subsection \<open>Events\<close>

text \<open>One row of an insert: a taken position is skipped, a taken event id is an error of the whole statement.\<close>

definition insert_row :: "pg_env \<Rightarrow> event_row \<Rightarrow> pg_storage \<Rightarrow> (nat \<times> pg_storage) option" where
  "insert_row E r db =
     (if \<not> row_accepted E r then None
      else if fm_contains (pg_events db) (row_position r) then Some (0, db)
      else if list_ex (\<lambda>r'. er_event_id r' = er_event_id r) (pg_rows db) then None
      else Some (1, db\<lparr>pg_events := fmupd (row_position r) r (pg_events db)\<rparr>))"

definition conflict_text :: "event \<Rightarrow> string \<Rightarrow> string" where
  "conflict_text e eid =
     ''('' @ bucket e @ '', '' @ origin_node_id e @ '', '' @ show_u32 (origin_epoch e) @ '', '' @
     show_u64 (origin_seq e) @ '') has event_id '' @ eid @ '' but received '' @ event_id e"

definition pg_insert_event :: "pg_env \<Rightarrow> pg_storage \<Rightarrow> event \<Rightarrow> insert_result option \<times> pg_storage" where
  "pg_insert_event E db e =
     (case insert_row E (row_of_event e) db of
        None \<Rightarrow> (None, db)
      | Some (n, db') \<Rightarrow>
          if n = 1 then (Some Inserted, db')
          else (case fmlookup (pg_events db') (origin_key e) of
                  Some r \<Rightarrow> if er_event_id r = event_id e then (Some Duplicate, db')
                            else (Some (Conflict (conflict_text e (er_event_id r))), db')
                | None \<Rightarrow> (Some Duplicate, db')))"

fun insert_rows :: "pg_env \<Rightarrow> event_row list \<Rightarrow> pg_storage \<Rightarrow> (nat \<times> pg_storage) option" where
  "insert_rows E [] db = Some (0, db)"
| "insert_rows E (r # rs) db =
     (case insert_row E r db of
        None \<Rightarrow> None
      | Some (n, db') \<Rightarrow>
          (case insert_rows E rs db' of
             None \<Rightarrow> None
           | Some (m, db'') \<Rightarrow> Some (n + m, db'')))"

definition BULK_CHUNK :: nat where
  "BULK_CHUNK = 4096"

text \<open>One statement per chunk: chunks before a failed one stay.\<close>

function insert_chunks :: "pg_env \<Rightarrow> event list \<Rightarrow> pg_storage \<Rightarrow> usize option \<times> pg_storage" where
  "insert_chunks E es db =
     (if es = [] then (Some 0, db)
      else case insert_rows E (map row_of_event (take BULK_CHUNK es)) db of
             None \<Rightarrow> (None, db)
           | Some (n, db') \<Rightarrow>
               (case insert_chunks E (drop BULK_CHUNK es) db' of
                  (None, db'') \<Rightarrow> (None, db'')
                | (Some m, db'') \<Rightarrow> (Some (word_of_nat n + m), db'')))"
  by pat_completeness auto
termination
  by (relation "measure (\<lambda>(_, es, _). length es)") (auto simp: BULK_CHUNK_def)

declare insert_chunks.simps [simp del]

definition pg_insert_events_bulk :: "pg_env \<Rightarrow> pg_storage \<Rightarrow> event list \<Rightarrow> usize option \<times> pg_storage" where
  "pg_insert_events_bulk E db es = insert_chunks E (sort_key origin_key es) db"

definition pg_query_events_range ::
  "pg_storage \<Rightarrow> string \<Rightarrow> string \<Rightarrow> u32 \<Rightarrow> u64 \<Rightarrow> u64 \<Rightarrow> event list option" where
  "pg_query_events_range db b origin ep from_seq to_seq =
     (if \<not> (pg_text b \<and> pg_text origin) then None
      else Some (map event_of_row
        (sort_by (\<lambda>r r'. scmp (er_origin_seq r) (er_origin_seq r'))
          (filter (\<lambda>r. er_bucket r = b \<and> er_origin_node_id r = origin \<and> er_origin_epoch r = ep \<and>
                     sint from_seq \<le> sint (er_origin_seq r) \<and> sint (er_origin_seq r) \<le> sint to_seq) (pg_rows db)))))"

definition pg_query_events_by_bucket :: "pg_env \<Rightarrow> pg_storage \<Rightarrow> string \<Rightarrow> event list option" where
  "pg_query_events_by_bucket E db b =
     (if \<not> pg_text b then None
      else Some (map event_of_row (sort_by (by_position E) (filter (\<lambda>r. er_bucket r = b) (pg_rows db)))))"

definition pg_delete_bucket_cascade :: "pg_storage \<Rightarrow> string \<Rightarrow> unit option \<times> pg_storage" where
  "pg_delete_bucket_cascade db b =
     (if b = META_BUCKET then (None, db)
      else if \<not> pg_text b then (None, db)
      else (Some (), db\<lparr>pg_events := fmfilter (\<lambda>k. fst k \<noteq> b) (pg_events db),
                        pg_digests := fmfilter (\<lambda>k. fst k \<noteq> b) (pg_digests db),
                        pg_allocators := fmfilter (\<lambda>k. fst k \<noteq> b) (pg_allocators db)\<rparr>))"

definition pg_query_all_events_sorted :: "pg_env \<Rightarrow> pg_storage \<Rightarrow> event list" where
  "pg_query_all_events_sorted E db =
     map event_of_row
       (sort_by (\<lambda>r r'. then_with (scmp (er_created_at_unix_ms r) (er_created_at_unix_ms r')) (by_position E r r')) (pg_rows db))"

definition pg_event_count :: "pg_storage \<Rightarrow> usize" where
  "pg_event_count db = fm_len (pg_events db)"

text \<open>\<open>LIKE\<close>: per cent for any text, underscore for one character, backslash for the next character itself.\<close>

fun skip_continuation :: "string \<Rightarrow> string" where
  "skip_continuation [] = []"
| "skip_continuation (c # s) = (if is_continuation c then skip_continuation s else c # s)"

lemma length_skip_continuation: "length (skip_continuation s) \<le> length s"
  by (induction s) auto

function like :: "string \<Rightarrow> string \<Rightarrow> bool" where
  "like [] s = (s = [])"
| "like (p # ps) s =
     (if p = CHR ''%'' then like ps s \<or> (case s of [] \<Rightarrow> False | _ # s' \<Rightarrow> like (p # ps) s')
      else if p = CHR ''_'' then (case s of [] \<Rightarrow> False | _ # s' \<Rightarrow> like ps (skip_continuation s'))
      else if p = CHR 0x5C \<and> ps \<noteq> [] then (case s of [] \<Rightarrow> False | c # s' \<Rightarrow> c = hd ps \<and> like (tl ps) s')
      else (case s of [] \<Rightarrow> False | c # s' \<Rightarrow> c = p \<and> like ps s'))"
  by pat_completeness auto
termination
  by (relation "measure (\<lambda>(p, s). length p + length s)")
    (auto simp: less_Suc_eq_le intro: le_trans [OF length_skip_continuation])

definition ilike :: "pg_env \<Rightarrow> string \<Rightarrow> string \<Rightarrow> bool" where
  "ilike E pattern s = like (pe_fold_case E pattern) (pe_fold_case E s)"

definition row_matches :: "pg_env \<Rightarrow> events_filter \<Rightarrow> event_row \<Rightarrow> bool" where
  "row_matches E f r \<longleftrightarrow>
     opt_ok (ef_bucket f) (\<lambda>b. er_bucket r = b) \<and>
     opt_ok (ef_bucket_prefix f) (\<lambda>p. prefix p (er_bucket r)) \<and>
     opt_ok (ef_account f) (\<lambda>a. er_account r = a) \<and>
     opt_ok (ef_origin f) (\<lambda>n. er_origin_node_id r = n) \<and>
     opt_ok (ef_event_type f) (\<lambda>t. er_type r = t) \<and>
     opt_ok (ef_since_unix_ms f) (\<lambda>t. sint t \<le> sint (er_created_at_unix_ms r)) \<and>
     opt_ok (ef_until_unix_ms f) (\<lambda>t. sint (er_created_at_unix_ms r) \<le> sint t) \<and>
     opt_ok (ef_search f) (\<lambda>q. let pattern = ''%'' @ q @ ''%'' in
       (case er_note r of Some n \<Rightarrow> ilike E pattern n | None \<Rightarrow> False) \<or> ilike E pattern (er_event_id r))"

definition filter_texts :: "events_filter \<Rightarrow> string list" where
  "filter_texts f =
     List.map_filter id [ef_bucket f, ef_bucket_prefix f, ef_account f, ef_origin f, ef_event_type f, ef_search f]"

definition pg_query_events_filtered ::
  "pg_env \<Rightarrow> pg_storage \<Rightarrow> events_filter \<Rightarrow> u32 \<Rightarrow> u32 \<Rightarrow> (event list \<times> u64) option" where
  "pg_query_events_filtered E db f limit offset =
     (if \<not> list_all pg_text (filter_texts f) then None
      else
        let matches = sort_by (\<lambda>r r'. then_with (scmp (er_created_at_unix_ms r') (er_created_at_unix_ms r))
                                        (pe_collate E (er_event_id r') (er_event_id r)))
                        (filter (row_matches E f) (pg_rows db))
        in Some (map event_of_row (take (unat limit) (drop (unat offset) matches)), word_of_nat (length matches)))"

subsection \<open>Aggregates for the rebuild\<close>

text \<open>\<open>SUM(amount)::BIGINT\<close>: the sum is exact, and the cast fails when it does not fit.\<close>

definition fits_bigint :: "int \<Rightarrow> bool" where
  "fits_bigint x \<longleftrightarrow> - (2 ^ 63) \<le> x \<and> x < 2 ^ 63"

definition balance_sums :: "pg_storage \<Rightarrow> (string \<times> string, int) fmap" where
  "balance_sums db =
     fold (\<lambda>r m. fmupd (er_bucket r, er_account r) (fm_get_or m (er_bucket r, er_account r) 0 + sint (er_amount r)) m)
       (pg_rows db) fmempty"

definition pg_aggregate_balances :: "pg_storage \<Rightarrow> (string \<times> string \<times> i64) list option" where
  "pg_aggregate_balances db =
     (let sums = fm_entries (balance_sums db)
      in if list_all (\<lambda>(_, x). fits_bigint x) sums
         then Some (map (\<lambda>((b, a), x). (b, a, word_of_int x)) sums) else None)"

definition pg_sequences_by_origin_epoch :: "pg_env \<Rightarrow> pg_storage \<Rightarrow> (epoch_key, u64 list) fmap" where
  "pg_sequences_by_origin_epoch E db =
     fold (\<lambda>r m. push_to (er_bucket r, er_origin_node_id r, er_origin_epoch r) (er_origin_seq r) m)
       (sort_by (by_position E) (pg_rows db)) fmempty"

definition pg_origin_account_epoch_mapping :: "pg_storage \<Rightarrow> (string \<times> string \<times> u32 \<times> string) list" where
  "pg_origin_account_epoch_mapping db =
     sorted_list_of_fset (fset_of_list
       (map (\<lambda>r. (er_bucket r, er_origin_node_id r, er_origin_epoch r, er_account r)) (pg_rows db)))"

definition pg_find_by_idempotency_key ::
  "pg_storage \<Rightarrow> string \<Rightarrow> string \<Rightarrow> string \<Rightarrow> i64 \<Rightarrow> event list option" where
  "pg_find_by_idempotency_key db nonce b a amt =
     (if \<not> list_all pg_text [nonce, b, a] then None
      else Some (map event_of_row
        (filter (\<lambda>r. er_idempotency_nonce r = nonce \<and> er_bucket r = b \<and> er_account r = a \<and> er_amount r = amt) (pg_rows db))))"

definition pg_active_holds :: "pg_storage \<Rightarrow> u64 \<Rightarrow> event list" where
  "pg_active_holds db now =
     map event_of_row
       (filter (\<lambda>r. er_type r = ''standard'' \<and> sint (er_amount r) < 0 \<and> sint (er_hold_amount r) > 0 \<and>
                  sint (er_hold_expires_at_unix_ms r) > sint now) (pg_rows db))"

definition pg_released_hold_refs :: "pg_storage \<Rightarrow> string list" where
  "pg_released_hold_refs db =
     List.map_filter (\<lambda>r. if er_type r = ''hold_release'' then er_void_ref r else None) (pg_rows db)"

definition pg_checksum_data :: "pg_env \<Rightarrow> (bytes \<Rightarrow> bytes) \<Rightarrow> pg_storage \<Rightarrow> string" where
  "pg_checksum_data E sha db =
     hex (sha (join_lines (map (canonical \<circ> event_of_row) (sort_by (by_position E) (pg_rows db)))))"

subsection \<open>Node metadata, allocator rows, registry, digests\<close>

definition pg_load_node_meta :: "pg_storage \<Rightarrow> string \<Rightarrow> node_meta option option" where
  "pg_load_node_meta db n =
     (if \<not> pg_text n then None
      else Some (map_option (\<lambda>(h, p). \<lparr>meta_node_id = n, meta_host = h, meta_port = ucast p\<rparr>) (fmlookup (pg_node_meta db) n)))"

definition pg_save_node_meta :: "pg_storage \<Rightarrow> node_meta \<Rightarrow> unit option \<times> pg_storage" where
  "pg_save_node_meta db m =
     (if \<not> list_all pg_text [meta_node_id m, meta_host m] then (None, db)
      else (Some (), db\<lparr>pg_node_meta := fmupd (meta_node_id m) (meta_host m, ucast (meta_port m)) (pg_node_meta db)\<rparr>))"

definition pg_load_bucket_allocators :: "pg_storage \<Rightarrow> string \<Rightarrow> bucket_allocator_row list option" where
  "pg_load_bucket_allocators db n =
     (if \<not> pg_text n then None else Some (filter (\<lambda>r. row_node_id r = n) (fm_values (pg_allocators db))))"

definition pg_mark_bucket_allocators_pending :: "pg_storage \<Rightarrow> string \<Rightarrow> usize option \<times> pg_storage" where
  "pg_mark_bucket_allocators_pending db n =
     (if \<not> pg_text n then (None, db)
      else (Some (word_of_nat (length (filter (\<lambda>r. row_node_id r = n) (fm_values (pg_allocators db))))),
            db\<lparr>pg_allocators := fmmap (\<lambda>r. if row_node_id r = n then r\<lparr>row_needs_bump := True\<rparr> else r) (pg_allocators db)\<rparr>))"

text \<open>The transaction of the bump; the epoch column is a signed integer, so the increment can leave its range.\<close>

definition pg_bump_bucket_epoch :: "pg_storage \<Rightarrow> string \<Rightarrow> string \<Rightarrow> u32 option \<times> pg_storage" where
  "pg_bump_bucket_epoch db b n =
     (if \<not> (pg_text b \<and> pg_text n) then (None, db)
      else case fmlookup (pg_allocators db) (b, n) of
        Some r \<Rightarrow>
          if row_needs_bump r then
            if sint (row_current_epoch r) = 2 ^ 31 - 1 then (None, db)
            else let r' = r\<lparr>row_current_epoch := row_current_epoch r + 1, row_next_seq := 1, row_needs_bump := False\<rparr>
                 in (Some (row_current_epoch r'), db\<lparr>pg_allocators := fmupd (b, n) r' (pg_allocators db)\<rparr>)
          else (Some (row_current_epoch r), db)
      | None \<Rightarrow>
          (Some 1, db\<lparr>pg_allocators := fmupd (b, n)
             \<lparr>row_bucket = b, row_node_id = n, row_current_epoch = 1, row_next_seq = 1, row_needs_bump = False\<rparr>
             (pg_allocators db)\<rparr>))"

definition pg_persist_bucket_next_seq :: "pg_storage \<Rightarrow> string \<Rightarrow> string \<Rightarrow> u64 \<Rightarrow> unit option \<times> pg_storage" where
  "pg_persist_bucket_next_seq db b n q =
     (if \<not> (pg_text b \<and> pg_text n) then (None, db)
      else (Some (), case fmlookup (pg_allocators db) (b, n) of
              Some r \<Rightarrow> db\<lparr>pg_allocators := fmupd (b, n) (r\<lparr>row_next_seq := signed_max (row_next_seq r) q\<rparr>) (pg_allocators db)\<rparr>
            | None \<Rightarrow> db))"

definition pg_derive_next_seq :: "pg_storage \<Rightarrow> string \<Rightarrow> string \<Rightarrow> u32 \<Rightarrow> u64 option" where
  "pg_derive_next_seq db b n ep =
     (if \<not> (pg_text b \<and> pg_text n) then None
      else
        let seqs = map er_origin_seq (filter (\<lambda>r. er_bucket r = b \<and> er_origin_node_id r = n \<and> er_origin_epoch r = ep) (pg_rows db))
        in Some ((case seqs of [] \<Rightarrow> 0 | q # qs \<Rightarrow> fold signed_max qs q) + 1))"

text \<open>\<open>ON CONFLICT (node_id) DO UPDATE\<close>: the row as it is and the excluded row.\<close>

definition merge_registry_row :: "registry_row \<Rightarrow> registry_row \<Rightarrow> registry_row" where
  "merge_registry_row cur ex =
     \<lparr>rr_node_id = rr_node_id cur,
      rr_addr = (if sint (rr_last_seen ex) > sint (rr_last_seen cur)
                 then if rr_addr ex \<noteq> [] then rr_addr ex else rr_addr cur
                 else if rr_addr cur = [] then rr_addr ex else rr_addr cur),
      rr_first_seen = (if sint (rr_first_seen ex) < sint (rr_first_seen cur) then rr_first_seen ex else rr_first_seen cur),
      rr_last_seen = signed_max (rr_last_seen cur) (rr_last_seen ex),
      rr_status = (if rr_status cur = ''decommissioned'' \<or> rr_status ex = ''decommissioned'' then ''decommissioned''
                   else if sint (rr_last_seen ex) > sint (rr_last_seen cur) then rr_status ex else rr_status cur)\<rparr>"

definition row_of_entry :: "node_registry_entry \<Rightarrow> registry_row" where
  "row_of_entry e =
     \<lparr>rr_node_id = reg_node_id e, rr_addr = reg_addr e, rr_first_seen = first_seen_at_unix_ms e,
      rr_last_seen = last_seen_at_unix_ms e, rr_status = show_node_status (reg_status e)\<rparr>"

definition parse_node_status :: "string \<Rightarrow> node_status" where
  "parse_node_status s =
     (if s = ''suspect'' then Suspect
      else if s = ''unreachable'' then Unreachable
      else if s = ''decommissioned'' then Decommissioned
      else Active)"

definition entry_of_row :: "registry_row \<Rightarrow> node_registry_entry" where
  "entry_of_row r =
     \<lparr>reg_node_id = rr_node_id r, reg_addr = rr_addr r, first_seen_at_unix_ms = rr_first_seen r,
      last_seen_at_unix_ms = rr_last_seen r, reg_status = parse_node_status (rr_status r)\<rparr>"

definition pg_upsert_registry_entry :: "pg_storage \<Rightarrow> node_registry_entry \<Rightarrow> unit option \<times> pg_storage" where
  "pg_upsert_registry_entry db e =
     (let ex = row_of_entry e in
      if \<not> list_all pg_text [rr_node_id ex, rr_addr ex] then (None, db)
      else (Some (), db\<lparr>pg_registry :=
             fmupd (rr_node_id ex)
               (case fmlookup (pg_registry db) (rr_node_id ex) of Some cur \<Rightarrow> merge_registry_row cur ex | None \<Rightarrow> ex)
               (pg_registry db)\<rparr>))"

definition pg_load_registry :: "pg_env \<Rightarrow> pg_storage \<Rightarrow> node_registry_entry list" where
  "pg_load_registry E db =
     map entry_of_row (sort_by (\<lambda>r r'. pe_collate E (rr_node_id r) (rr_node_id r')) (fm_values (pg_registry db)))"

definition pg_decommission_node :: "pg_storage \<Rightarrow> string \<Rightarrow> unit option \<times> pg_storage" where
  "pg_decommission_node db n =
     (if \<not> pg_text n then (None, db)
      else (Some (), case fmlookup (pg_registry db) n of
              Some r \<Rightarrow> db\<lparr>pg_registry := fmupd n (r\<lparr>rr_status := ''decommissioned''\<rparr>) (pg_registry db)\<rparr>
            | None \<Rightarrow> db))"

definition pg_refresh_balance_summary :: "pg_storage \<Rightarrow> unit option \<times> pg_storage" where
  "pg_refresh_balance_summary db =
     (case pg_balance_summary db of
        None \<Rightarrow> (None, db)
      | Some _ \<Rightarrow>
          (case pg_aggregate_balances db of
             None \<Rightarrow> (None, db)
           | Some rows \<Rightarrow> (Some (), db\<lparr>pg_balance_summary := Some rows\<rparr>)))"

definition pg_read_balance_summary :: "pg_storage \<Rightarrow> (string \<times> string \<times> i64) list option" where
  "pg_read_balance_summary db =
     (case pg_balance_summary db of Some rows \<Rightarrow> Some rows | None \<Rightarrow> pg_aggregate_balances db)"

definition pg_load_digests :: "pg_storage \<Rightarrow> (epoch_key, u64 \<times> bytes) fmap" where
  "pg_load_digests db =
     fold (\<lambda>(k, h, d) m. if length d = 32 then fmupd k (h, d) m else m) (fm_entries (pg_digests db)) fmempty"

definition pg_save_digest ::
  "pg_storage \<Rightarrow> string \<Rightarrow> string \<Rightarrow> u32 \<Rightarrow> u64 \<Rightarrow> bytes \<Rightarrow> unit option \<times> pg_storage" where
  "pg_save_digest db b n ep head digest =
     (if \<not> (pg_text b \<and> pg_text n) then (None, db)
      else (Some (), db\<lparr>pg_digests := fmupd (b, n, ep) (head, digest) (pg_digests db)\<rparr>))"

definition pg_backend :: "pg_env \<Rightarrow> (bytes \<Rightarrow> bytes) \<Rightarrow> pg_storage backend" where
  "pg_backend E sha = \<lparr>
     be_insert_event = pg_insert_event E,
     be_insert_events_bulk = pg_insert_events_bulk E,
     be_query_events_range = pg_query_events_range,
     be_query_events_by_bucket = pg_query_events_by_bucket E,
     be_query_all_events_sorted = (\<lambda>db. Some (pg_query_all_events_sorted E db)),
     be_event_count = (\<lambda>db. Some (pg_event_count db)),
     be_query_events_filtered = pg_query_events_filtered E,
     be_delete_bucket_cascade = pg_delete_bucket_cascade,
     be_aggregate_balances = pg_aggregate_balances,
     be_sequences_by_origin_epoch = (\<lambda>db. Some (pg_sequences_by_origin_epoch E db)),
     be_origin_account_epoch_mapping = (\<lambda>db. Some (pg_origin_account_epoch_mapping db)),
     be_find_by_idempotency_key = pg_find_by_idempotency_key,
     be_active_holds = (\<lambda>db now. Some (pg_active_holds db now)),
     be_released_hold_refs = (\<lambda>db. Some (pg_released_hold_refs db)),
     be_checksum_data = (\<lambda>db. Some (pg_checksum_data E sha db)),
     be_load_node_meta = pg_load_node_meta,
     be_save_node_meta = pg_save_node_meta,
     be_load_bucket_allocators = pg_load_bucket_allocators,
     be_mark_bucket_allocators_pending = pg_mark_bucket_allocators_pending,
     be_bump_bucket_epoch = pg_bump_bucket_epoch,
     be_persist_bucket_next_seq = pg_persist_bucket_next_seq,
     be_derive_next_seq = pg_derive_next_seq,
     be_upsert_registry_entry = pg_upsert_registry_entry,
     be_load_registry = (\<lambda>db. Some (pg_load_registry E db)),
     be_decommission_node = pg_decommission_node,
     be_load_digests = (\<lambda>db. Some (pg_load_digests db)),
     be_save_digest = pg_save_digest,
     be_refresh_balance_summary = pg_refresh_balance_summary,
     be_read_balance_summary = pg_read_balance_summary\<rparr>"

end
