(* ===== verification/Postgres_Refinement.thy ===== *)
theory Postgres_Refinement
  imports Postgres_Storage Workers
begin

section \<open>PostgreSQL against the in-memory store\<close>

text \<open>
  The two implementations of the storage trait are compared operation by operation. \<open>pg_rel\<close> relates the tables to an in-memory store
  with the same content. A write that PostgreSQL accepts does to the tables what the in-memory store does to its maps.
\<close>

subsection \<open>Rows and words\<close>

lemma parse_show_event_type [simp]: "parse_event_type (show_event_type t) = t"
  by (cases t) (simp_all add: parse_event_type_def)

lemma parse_show_node_status [simp]: "parse_node_status (show_node_status t) = t"
  by (cases t) (simp_all add: parse_node_status_def)

lemma show_decommissioned [simp]: "show_node_status t = ''decommissioned'' \<longleftrightarrow> t = Decommissioned"
  by (cases t) simp_all

lemma event_of_row_of_event [simp]: "event_of_row (row_of_event e) = e"
  by (simp add: event_of_row_def row_of_event_def)

lemma row_position_of_event [simp]: "row_position (row_of_event e) = origin_key e"
  by (simp add: row_position_def row_of_event_def origin_key_def)

lemma er_event_id_of_event [simp]: "er_event_id (row_of_event e) = event_id e"
  by (simp add: row_of_event_def)

lemma entry_of_row_of_entry [simp]: "entry_of_row (row_of_entry e) = e"
  by (simp add: entry_of_row_def row_of_entry_def)

lemma row_of_entry_id [simp]: "rr_node_id (row_of_entry e) = reg_node_id e" "rr_addr (row_of_entry e) = reg_addr e"
  by (simp_all add: row_of_entry_def)

lemma fm_values_fmmap: "fm_values (fmmap f m) = map f (fm_values m)"
  by (auto simp: fm_values_keys fm_keys_def fmlookup_dom_iff sorted_list_of_fset.rep_eq)

text \<open>A number that fits the signed column: there the two readings agree.\<close>

definition small :: "'w::len word \<Rightarrow> bool" where
  "small x \<longleftrightarrow> 0 \<le> sint x"

lemma small_sint:
  fixes x :: "'w::len word"
  assumes "small x"
  shows "sint x = uint x"
proof -
  have "sint x < 2 ^ (LENGTH('w) - 1)" by (rule sint_lt)
  also have "(2::int) ^ (LENGTH('w) - 1) \<le> 2 ^ LENGTH('w)" by simp
  finally have "take_bit LENGTH('w) (sint x) = sint x"
    using assms by (simp add: small_def take_bit_int_eq_self)
  then show ?thesis by (simp add: uint_sint)
qed

lemma small_order:
  assumes "small x" "small y"
  shows small_less: "sint x < sint y \<longleftrightarrow> x < y" and small_le: "sint x \<le> sint y \<longleftrightarrow> x \<le> y"
  using assms by (simp_all add: small_sint word_less_def word_le_def)

lemma small_max: "small x \<Longrightarrow> small y \<Longrightarrow> signed_max x y = max x y"
  by (simp add: signed_max_def word_sle_eq small_le max_def)

subsection \<open>Events\<close>

definition unique_ids :: "(origin_key, event) fmap \<Rightarrow> bool" where
  "unique_ids M \<longleftrightarrow> (\<forall>k k' e e'. fmlookup M k = Some e \<and> fmlookup M k' = Some e' \<and> event_id e = event_id e' \<longrightarrow> k = k')"

lemma unique_idsD:
  "unique_ids M \<Longrightarrow> fmlookup M k = Some e \<Longrightarrow> fmlookup M k' = Some e' \<Longrightarrow> event_id e = event_id e' \<Longrightarrow> k = k'"
  unfolding unique_ids_def by blast

lemma mem_index_unique_ids:
  assumes "mem_index_ok s"
  shows "unique_ids (ms_events s)"
  unfolding unique_ids_def
proof (intro allI impI, elim conjE)
  fix k k' e e' assume k: "fmlookup (ms_events s) k = Some e" "fmlookup (ms_events s) k' = Some e'" "event_id e = event_id e'"
  from mem_index_id [OF assms k(1)] mem_index_id [OF assms k(2)] k(3) show "k = k'" by simp
qed

text \<open>The log after a batch: a stored event stays, and a free position takes the first event of the batch that has it.\<close>

definition with_batch :: "(origin_key, event) fmap \<Rightarrow> event list \<Rightarrow> origin_key \<Rightarrow> event option" where
  "with_batch M es k = (case fmlookup M k of Some e \<Rightarrow> Some e | None \<Rightarrow> find (\<lambda>e. origin_key e = k) es)"

lemma with_batch_Nil [simp]: "with_batch M [] = fmlookup M"
  by (simp add: with_batch_def fun_eq_iff split: option.splits)

lemma with_batch_fresh:
  "fmlookup M (origin_key e) = None \<Longrightarrow> with_batch M (e # es) = with_batch (fmupd (origin_key e) e M) es"
  by (auto simp: with_batch_def fun_eq_iff split: option.splits)

lemma with_batch_taken:
  "fmlookup M (origin_key e) \<noteq> None \<Longrightarrow> with_batch M (e # es) = with_batch M es"
  by (auto simp: with_batch_def fun_eq_iff split: option.splits)

lemma with_batch_sort: "with_batch M (sort_key origin_key es) = with_batch M es"
proof -
  have "find (\<lambda>e. origin_key e = k) xs = (case filter (\<lambda>e. origin_key e = k) xs of [] \<Rightarrow> None | x # _ \<Rightarrow> Some x)" for k and xs :: "event list"
    by (induction xs) simp_all
  then have "find (\<lambda>e. origin_key e = k) (sort_key origin_key es) = find (\<lambda>e. origin_key e = k) es" for k
    by (simp add: sort_key_stable)
  then show ?thesis unfolding with_batch_def by presburger
qed

lemma find_append: "find P (xs @ ys) = (case find P xs of Some x \<Rightarrow> Some x | None \<Rightarrow> find P ys)"
  by (induction xs) simp_all

lemma with_batch_append: "fmlookup M' = with_batch M es \<Longrightarrow> with_batch M' fs = with_batch M (es @ fs)"
  by (auto simp: with_batch_def fun_eq_iff find_append split: option.splits)

lemma fm_len_upd_fresh: "fmlookup m k = None \<Longrightarrow> fm_len (fmupd k v m) = fm_len m + 1"
  by (simp add: fm_len_def fmlookup_dom_iff fcard_finsert_disjoint)

lemma mem_bulk_lookup:
  assumes "mem_index_ok s" and "\<And>k k' e e'. with_batch (ms_events s) es k = Some e \<Longrightarrow> with_batch (ms_events s) es k' = Some e' \<Longrightarrow>
      event_id e = event_id e' \<Longrightarrow> k = k'"
    and "mem_insert_events_bulk s es = (n, s')"
  shows "fmlookup (ms_events s') = with_batch (ms_events s) es \<and> fm_len (ms_events s') = fm_len (ms_events s) + n"
  using assms
proof (induction es arbitrary: s n)
  case Nil
  then show ?case by simp
next
  case (Cons e es)
  obtain r s1 where ins: "mem_insert_event s e = (r, s1)" by force
  obtain m where rest: "mem_insert_events_bulk s1 es = (m, s')" and n: "n = (if r = Inserted then m + 1 else m)"
    using Cons.prems(3) ins by (auto split: prod.splits)
  have ok: "mem_index_ok s1" by (rule mem_insert_event_index_ok [OF Cons.prems(1) ins])
  show ?case
  proof (cases "fmlookup (ms_events s) (origin_key e)")
    case None
    have "fmlookup (ms_event_ids s) (event_id e) \<noteq> Some k'" if "k' \<noteq> origin_key e" for k'
    proof
      assume "fmlookup (ms_event_ids s) (event_id e) = Some k'"
      then obtain y where y: "fmlookup (ms_events s) k' = Some y" "event_id y = event_id e"
        using mem_index_event [OF Cons.prems(1)] by blast
      have "with_batch (ms_events s) (e # es) k' = Some y" "with_batch (ms_events s) (e # es) (origin_key e) = Some e"
        using y None by (simp_all add: with_batch_def)
      from Cons.prems(2) [OF this y(2)] that show False by simp
    qed
    then have "(case fmlookup (ms_event_ids s) (event_id e) of Some k \<Rightarrow> k \<noteq> origin_key e | None \<Rightarrow> False) = False"
      by (auto split: option.splits)
    with None ins have r: "r = Inserted" and ev: "ms_events s1 = fmupd (origin_key e) e (ms_events s)"
      by (auto simp: mem_insert_event_def Let_def)
    have wb: "with_batch (ms_events s) (e # es) = with_batch (ms_events s1) es"
      unfolding ev by (rule with_batch_fresh [OF None])
    from Cons.IH [OF ok Cons.prems(2) [unfolded wb] rest] show ?thesis
      unfolding wb using n r by (simp add: ev fm_len_upd_fresh [OF None])
  next
    case (Some x)
    have s1: "s1 = s" "r \<noteq> Inserted" using ins Some by (cases rule: mem_insert_event_cases, auto)+
    have wb: "with_batch (ms_events s) (e # es) = with_batch (ms_events s1) es"
      using Some s1 by (simp add: with_batch_taken)
    from Cons.IH [OF ok Cons.prems(2) [unfolded wb] rest] show ?thesis
      unfolding wb using n s1 by simp
  qed
qed

lemma insert_row_cases:
  assumes "insert_row E (row_of_event e) db = Some (n, db')" and M: "pg_events db = fmmap row_of_event M"
  obtains (taken) "n = 0" "db' = db" "fmlookup M (origin_key e) \<noteq> None"
    | (stored) "n = 1" "db' = db\<lparr>pg_events := fmmap row_of_event (fmupd (origin_key e) e M)\<rparr>" "fmlookup M (origin_key e) = None"
        "\<And>k x. fmlookup M k = Some x \<Longrightarrow> event_id x \<noteq> event_id e"
proof -
  have upd: "fmupd (origin_key e) (row_of_event e) (fmmap row_of_event M) = fmmap row_of_event (fmupd (origin_key e) e M)"
    by (rule fmap_ext) simp
  show thesis
  proof (cases "fmlookup M (origin_key e)")
    case None
    have "\<not> list_ex (\<lambda>r'. er_event_id r' = event_id e) (pg_rows db)"
      using assms None by (auto simp: insert_row_def split: if_splits)
    then have "event_id x \<noteq> event_id e" if "fmlookup M k = Some x" for k x
      using that by (auto simp: M fm_values_fmmap list_ex_iff simp del: in_fm_values dest!: bspec [of _ _ x]) (metis in_fm_values)
    with None assms show thesis by (intro stored) (auto simp: insert_row_def upd split: if_splits)
  next
    case (Some x)
    with assms show thesis by (intro taken) (auto simp: insert_row_def split: if_splits)
  qed
qed

lemma unique_ids_upd:
  assumes "unique_ids M" and new: "\<And>k x. fmlookup M k = Some x \<Longrightarrow> event_id x \<noteq> event_id e"
  shows "unique_ids (fmupd k e M)"
  unfolding unique_ids_def
proof (intro allI impI, elim conjE)
  fix j j' x x' assume "fmlookup (fmupd k e M) j = Some x" "fmlookup (fmupd k e M) j' = Some x'" "event_id x = event_id x'"
  then show "j = j'" using new [of j x] new [of j' x'] unique_idsD [OF assms(1), of j x j' x'] by (auto split: if_splits)
qed

lemma insert_rows_lookup:
  assumes "insert_rows E (map row_of_event es) db = Some (n, db')" and "pg_events db = fmmap row_of_event M" and "unique_ids M"
  shows "\<exists>M'. db' = db\<lparr>pg_events := fmmap row_of_event M'\<rparr> \<and> unique_ids M' \<and> fmlookup M' = with_batch M es \<and>
    fm_len M' = fm_len M + word_of_nat n"
  using assms
proof (induction es arbitrary: db M n)
  case Nil
  then show ?case by (auto intro: exI [of _ M])
next
  case (Cons e es)
  from Cons.prems(1) obtain m1 db1 m2 where one: "insert_row E (row_of_event e) db = Some (m1, db1)"
    and rest: "insert_rows E (map row_of_event es) db1 = Some (m2, db')" and n: "n = m1 + m2"
    by (auto split: option.splits)
  from one Cons.prems(2) show ?case
  proof (cases rule: insert_row_cases)
    case taken
    with Cons.IH [OF rest [unfolded taken(2)] Cons.prems(2,3)] n show ?thesis by (simp add: with_batch_taken)
  next
    case stored
    let ?M = "fmupd (origin_key e) e M"
    have ev: "pg_events db1 = fmmap row_of_event ?M" using stored by simp
    have u: "unique_ids ?M" by (rule unique_ids_upd [OF Cons.prems(3)]) (rule stored(4))
    from Cons.IH [OF rest ev u] obtain M' where
      M': "db' = db1\<lparr>pg_events := fmmap row_of_event M'\<rparr>" "unique_ids M'" "fmlookup M' = with_batch ?M es"
        "fm_len M' = fm_len ?M + word_of_nat m2" by blast
    then show ?thesis using stored n
      by (intro exI [of _ M']) (simp add: with_batch_fresh fm_len_upd_fresh)
  qed
qed

lemma insert_chunks_lookup:
  assumes "insert_chunks E es db = (Some n, db')" and "pg_events db = fmmap row_of_event M" and "unique_ids M"
  shows "\<exists>M'. db' = db\<lparr>pg_events := fmmap row_of_event M'\<rparr> \<and> unique_ids M' \<and> fmlookup M' = with_batch M es \<and>
    fm_len M' = fm_len M + n"
  using assms
proof (induction E es db arbitrary: M n rule: insert_chunks.induct)
  case (1 E es db)
  show ?case
  proof (cases "es = []")
    case True
    with "1.prems" show ?thesis by (auto simp: insert_chunks.simps intro: exI [of _ M])
  next
    case False
    with "1.prems"(1) obtain m1 db1 m2 where one: "insert_rows E (map row_of_event (take BULK_CHUNK es)) db = Some (m1, db1)"
      and rest: "insert_chunks E (drop BULK_CHUNK es) db1 = (Some m2, db')" and n: "n = word_of_nat m1 + m2"
      by (subst (asm) insert_chunks.simps) (auto split: option.splits prod.splits)
    from insert_rows_lookup [OF one "1.prems"(2,3)] obtain M1 where
      M1: "db1 = db\<lparr>pg_events := fmmap row_of_event M1\<rparr>" "unique_ids M1" "fmlookup M1 = with_batch M (take BULK_CHUNK es)"
        "fm_len M1 = fm_len M + word_of_nat m1" by blast
    then have "pg_events db1 = fmmap row_of_event M1" by simp
    from "1.IH" [OF False one refl rest this M1(2)] obtain M' where
      "db' = db1\<lparr>pg_events := fmmap row_of_event M'\<rparr>" "unique_ids M'" "fmlookup M' = with_batch M1 (drop BULK_CHUNK es)"
        "fm_len M' = fm_len M1 + m2" by blast
    with M1 n with_batch_append [OF M1(3), of "drop BULK_CHUNK es"] show ?thesis
      by (intro exI [of _ M']) simp
  qed
qed

subsection \<open>The relation\<close>

definition pg_rel :: "pg_storage \<Rightarrow> mem_storage \<Rightarrow> bool" where
  "pg_rel db s \<longleftrightarrow> mem_inv s \<and> pg_events db = fmmap row_of_event (ms_events s) \<and>
     pg_allocators db = ms_bucket_allocators s \<and> pg_registry db = fmmap row_of_entry (ms_registry s) \<and>
     pg_digests db = ms_digests s \<and>
     pg_node_meta db = fmmap (\<lambda>m. (meta_host m, ucast (meta_port m))) (ms_node_meta s) \<and>
     (\<forall>n m. fmlookup (ms_node_meta s) n = Some m \<longrightarrow> meta_node_id m = n) \<and>
     (\<forall>k r. fmlookup (ms_bucket_allocators s) k = Some r \<longrightarrow> small (row_next_seq r)) \<and>
     (\<forall>n e. fmlookup (ms_registry s) n = Some e \<longrightarrow> small (first_seen_at_unix_ms e) \<and> small (last_seen_at_unix_ms e))"

lemma pg_rel_new: "pg_rel pg_new mem_new"
proof -
  have "fmmap f fmempty = fmempty" for f :: "'a \<Rightarrow> 'b" by (rule fmap_ext) simp
  then show ?thesis by (simp add: pg_rel_def pg_new_def mem_inv_new) (simp add: mem_new_def)
qed

text \<open>The writes of the trait, and what a caller sees of their outcome.\<close>

datatype store_op =
    OpInsert event | OpBulk "event list" | OpCascade string | OpMeta node_meta | OpMark string | OpBump string string
  | OpPersist string string u64 | OpUpsert node_registry_entry | OpDecommission string
  | OpDigest string string u32 u64 bytes | OpRefresh

datatype op_result = ResInserted | ResDuplicate | ResConflict | ResCount usize | ResEpoch u32 | ResDone

fun result_of_insert :: "insert_result \<Rightarrow> op_result" where
  "result_of_insert Inserted = ResInserted"
| "result_of_insert Duplicate = ResDuplicate"
| "result_of_insert (Conflict _) = ResConflict"

fun apply_op :: "'s backend \<Rightarrow> store_op \<Rightarrow> 's \<Rightarrow> op_result option \<times> 's" where
  "apply_op B (OpInsert e) s = apfst (map_option result_of_insert) (be_insert_event B s e)"
| "apply_op B (OpBulk es) s = apfst (map_option ResCount) (be_insert_events_bulk B s es)"
| "apply_op B (OpCascade b) s = apfst (map_option (\<lambda>_. ResDone)) (be_delete_bucket_cascade B s b)"
| "apply_op B (OpMeta m) s = apfst (map_option (\<lambda>_. ResDone)) (be_save_node_meta B s m)"
| "apply_op B (OpMark n) s = apfst (map_option ResCount) (be_mark_bucket_allocators_pending B s n)"
| "apply_op B (OpBump b n) s = apfst (map_option ResEpoch) (be_bump_bucket_epoch B s b n)"
| "apply_op B (OpPersist b n q) s = apfst (map_option (\<lambda>_. ResDone)) (be_persist_bucket_next_seq B s b n q)"
| "apply_op B (OpUpsert e) s = apfst (map_option (\<lambda>_. ResDone)) (be_upsert_registry_entry B s e)"
| "apply_op B (OpDecommission n) s = apfst (map_option (\<lambda>_. ResDone)) (be_decommission_node B s n)"
| "apply_op B (OpDigest b n ep h d) s = apfst (map_option (\<lambda>_. ResDone)) (be_save_digest B s b n ep h d)"
| "apply_op B OpRefresh s = apfst (map_option (\<lambda>_. ResDone)) (be_refresh_balance_summary B s)"

text \<open>The numbers of a write fit their columns.\<close>

fun op_small :: "store_op \<Rightarrow> bool" where
  "op_small (OpPersist b n q) = small q"
| "op_small (OpUpsert e) = (small (first_seen_at_unix_ms e) \<and> small (last_seen_at_unix_ms e))"
| "op_small _ = True"

text \<open>An upsert at the very time of the stored entry, with another address: there the two stores differ.\<close>

fun op_ties :: "mem_storage \<Rightarrow> store_op \<Rightarrow> bool" where
  "op_ties s (OpUpsert e) =
     (case fmlookup (ms_registry s) (reg_node_id e) of
        Some cur \<Rightarrow> last_seen_at_unix_ms cur = last_seen_at_unix_ms e \<and> reg_addr cur \<noteq> [] \<and> reg_addr e \<noteq> [] \<and> reg_addr cur \<noteq> reg_addr e
      | None \<Rightarrow> False)"
| "op_ties s _ = False"

text \<open>One write that PostgreSQL accepts, matched by the in-memory store.\<close>

definition matched :: "(bytes \<Rightarrow> bytes) \<Rightarrow> store_op \<Rightarrow> mem_storage \<Rightarrow> op_result \<Rightarrow> pg_storage \<Rightarrow> bool" where
  "matched sha op s res db' \<longleftrightarrow> (\<exists>s'. apply_op (mem_backend sha) op s = (Some res, s') \<and> pg_rel db' s')"

lemma merge_registry_row_merge:
  assumes "registry_merge cur e = Some merged"
    and "small (first_seen_at_unix_ms cur)" "small (last_seen_at_unix_ms cur)" "small (first_seen_at_unix_ms e)" "small (last_seen_at_unix_ms e)"
    and "\<not> (last_seen_at_unix_ms cur = last_seen_at_unix_ms e \<and> reg_addr cur \<noteq> [] \<and> reg_addr e \<noteq> [] \<and> reg_addr cur \<noteq> reg_addr e)"
  shows "merge_registry_row (row_of_entry cur) (row_of_entry e) = row_of_entry merged"
proof -
  note o = small_less [OF assms(3,5)] small_max [OF assms(3,5)] small_less [OF assms(4,2)]
  have "merged = \<lparr>reg_node_id = reg_node_id cur, reg_addr = latest_non_empty_addr cur e,
      first_seen_at_unix_ms = min (first_seen_at_unix_ms cur) (first_seen_at_unix_ms e),
      last_seen_at_unix_ms = max (last_seen_at_unix_ms cur) (last_seen_at_unix_ms e),
      reg_status = (if reg_status cur = Decommissioned \<or> reg_status e = Decommissioned then Decommissioned
        else reg_status (if last_seen_at_unix_ms e > last_seen_at_unix_ms cur then e else cur))\<rparr>"
    using assms(1) unfolding registry_merge_def Let_def by (auto split: if_splits)
  moreover have "min (first_seen_at_unix_ms cur) (first_seen_at_unix_ms e) =
      (if first_seen_at_unix_ms e < first_seen_at_unix_ms cur then first_seen_at_unix_ms e else first_seen_at_unix_ms cur)"
    by (auto simp: min_def)
  moreover have "latest_non_empty_addr cur e =
      (if last_seen_at_unix_ms e > last_seen_at_unix_ms cur then if reg_addr e \<noteq> [] then reg_addr e else reg_addr cur
       else if reg_addr cur = [] then reg_addr e else reg_addr cur)"
    using assms(6) by (auto simp: latest_non_empty_addr_def)
  ultimately show ?thesis by (simp add: merge_registry_row_def row_of_entry_def o)
qed

lemma fmmap_upd: "fmmap f (fmupd k v m) = fmupd k (f v) (fmmap f m)"
  by (rule fmap_ext) simp

lemma fmmap_filter: "fmmap f (fmfilter P m) = fmfilter P (fmmap f m)"
  by (rule fmap_ext) simp

lemma fmupd_same: "fmlookup m k = Some v \<Longrightarrow> fmupd k v m = m"
  by (rule fmap_ext) auto

lemma pg_relD:
  assumes "pg_rel db s"
  shows pg_rel_inv: "mem_inv s" and pg_rel_events: "pg_events db = fmmap row_of_event (ms_events s)"
    and pg_rel_allocators: "pg_allocators db = ms_bucket_allocators s"
    and pg_rel_registry: "pg_registry db = fmmap row_of_entry (ms_registry s)"
    and pg_rel_digests: "pg_digests db = ms_digests s"
    and pg_rel_meta: "pg_node_meta db = fmmap (\<lambda>m. (meta_host m, ucast (meta_port m))) (ms_node_meta s)"
    and pg_rel_meta_key: "fmlookup (ms_node_meta s) n = Some m \<Longrightarrow> meta_node_id m = n"
    and pg_rel_next_seq: "fmlookup (ms_bucket_allocators s) k = Some r \<Longrightarrow> small (row_next_seq r)"
    and pg_rel_times: "fmlookup (ms_registry s) n = Some e \<Longrightarrow> small (first_seen_at_unix_ms e) \<and> small (last_seen_at_unix_ms e)"
  using assms unfolding pg_rel_def by blast+

lemma pg_relI:
  assumes "mem_inv s" "pg_events db = fmmap row_of_event (ms_events s)" "pg_allocators db = ms_bucket_allocators s"
    "pg_registry db = fmmap row_of_entry (ms_registry s)" "pg_digests db = ms_digests s"
    "pg_node_meta db = fmmap (\<lambda>m. (meta_host m, ucast (meta_port m))) (ms_node_meta s)"
    "\<And>n m. fmlookup (ms_node_meta s) n = Some m \<Longrightarrow> meta_node_id m = n"
    "\<And>k r. fmlookup (ms_bucket_allocators s) k = Some r \<Longrightarrow> small (row_next_seq r)"
    "\<And>n e. fmlookup (ms_registry s) n = Some e \<Longrightarrow> small (first_seen_at_unix_ms e) \<and> small (last_seen_at_unix_ms e)"
  shows "pg_rel db s"
  using assms unfolding pg_rel_def by blast

text \<open>A write of events leaves the other tables alone.\<close>

lemma pg_rel_with_events:
  assumes rel: "pg_rel db s" and ev: "pg_events db' = fmmap row_of_event (ms_events s')"
    and db': "db' = db\<lparr>pg_events := pg_events db'\<rparr>" and inv: "mem_inv s'"
    and frame: "ms_node_meta s' = ms_node_meta s \<and> ms_registry s' = ms_registry s \<and> ms_digests s' = ms_digests s \<and>
      ms_bucket_allocators s' = ms_bucket_allocators s"
  shows "pg_rel db' s'"
proof -
  have "pg_allocators db' = pg_allocators db" "pg_registry db' = pg_registry db" "pg_digests db' = pg_digests db"
    "pg_node_meta db' = pg_node_meta db"
    by (subst db', simp)+
  then show ?thesis
    using ev inv frame pg_rel_allocators [OF rel] pg_rel_registry [OF rel] pg_rel_digests [OF rel] pg_rel_meta [OF rel]
      pg_rel_meta_key [OF rel] pg_rel_next_seq [OF rel] pg_rel_times [OF rel]
    by (intro pg_relI) simp_all
qed

lemma mem_bulk_frame:
  "mem_insert_events_bulk s es = (n, s') \<Longrightarrow>
     ms_node_meta s' = ms_node_meta s \<and> ms_registry s' = ms_registry s \<and> ms_digests s' = ms_digests s \<and>
     ms_bucket_allocators s' = ms_bucket_allocators s"
proof (induction es arbitrary: s n)
  case (Cons e es)
  then show ?case by (auto split: prod.splits dest!: mem_insert_event_frame)
qed simp

lemma matched_bulk:
  assumes rel: "pg_rel db s" and ok: "pg_insert_events_bulk E db es = (Some n, db')"
  shows "matched sha (OpBulk es) s (ResCount n) db'"
proof -
  have ix: "mem_index_ok s" using pg_rel_inv [OF rel] by (simp add: mem_inv_def)
  from insert_chunks_lookup [OF ok [unfolded pg_insert_events_bulk_def] pg_rel_events [OF rel] mem_index_unique_ids [OF ix]]
  obtain M' where M': "db' = db\<lparr>pg_events := fmmap row_of_event M'\<rparr>" "unique_ids M'" "fmlookup M' = with_batch (ms_events s) es"
    "fm_len M' = fm_len (ms_events s) + n" unfolding with_batch_sort by blast
  obtain m s' where bulk: "mem_insert_events_bulk s es = (m, s')" by force
  have "k = k'" if "with_batch (ms_events s) es k = Some e" "with_batch (ms_events s) es k' = Some e'" "event_id e = event_id e'" for k k' e e'
    using that unique_idsD [OF M'(2), of k e k' e'] by (simp add: M'(3))
  from mem_bulk_lookup [OF ix this bulk] have s': "fmlookup (ms_events s') = fmlookup M'" "fm_len (ms_events s') = fm_len (ms_events s) + m"
    by (simp_all add: M'(3))
  then have eq: "ms_events s' = M'" by (simp add: fmap_ext)
  with s'(2) M'(4) have "m = n" by simp
  moreover have "pg_rel db' s'"
    by (rule pg_rel_with_events [OF rel _ _ mem_insert_events_bulk_inv [OF pg_rel_inv [OF rel] bulk] mem_bulk_frame [OF bulk]])
      (simp_all add: M'(1) eq)
  ultimately show ?thesis by (simp add: matched_def mem_backend_def bulk)
qed

lemma matched_insert:
  assumes rel: "pg_rel db s" and ok: "pg_insert_event E db e = (Some r, db')"
  shows "matched sha (OpInsert e) s (result_of_insert r) db'"
proof -
  have ix: "mem_index_ok s" using pg_rel_inv [OF rel] by (simp add: mem_inv_def)
  obtain q s' where ins: "mem_insert_event s e = (q, s')" by force
  from ok obtain n db1 where row: "insert_row E (row_of_event e) db = Some (n, db1)" by (auto simp: pg_insert_event_def split: option.splits)
  have app: "apply_op (mem_backend sha) (OpInsert e) s = (Some (result_of_insert q), s')" by (simp add: mem_backend_def ins)
  from row pg_rel_events [OF rel] show ?thesis
  proof (cases rule: insert_row_cases)
    case taken
    then obtain x where x: "fmlookup (ms_events s) (origin_key e) = Some x" by auto
    have look: "fmlookup (pg_events db1) (origin_key e) = Some (row_of_event x)" by (simp add: taken pg_rel_events [OF rel] x)
    have out: "db' = db" "result_of_insert r = (if event_id x = event_id e then ResDuplicate else ResConflict)"
      using ok row look taken by (auto simp: pg_insert_event_def split: if_splits)
    have "fmlookup (ms_event_ids s) (event_id x) = Some (origin_key e)" by (rule mem_index_id [OF ix x])
    then have "s' = s" "result_of_insert q = (if event_id x = event_id e then ResDuplicate else ResConflict)"
      using ins x by (auto simp: mem_insert_event_def Let_def split: option.splits if_splits)
    with app out rel show ?thesis by (simp add: matched_def)
  next
    case stored
    have "fmlookup (ms_event_ids s) (event_id e) = None"
    proof (rule ccontr)
      assume "fmlookup (ms_event_ids s) (event_id e) \<noteq> None"
      then obtain k where "fmlookup (ms_event_ids s) (event_id e) = Some k" by auto
      from mem_index_event [OF ix this] stored(4) show False by blast
    qed
    with stored(3) ins have q: "q = Inserted" "ms_events s' = fmupd (origin_key e) e (ms_events s)"
      by (auto simp: mem_insert_event_def Let_def)
    have out: "db' = db1" "r = Inserted" using ok row stored(1) by (auto simp: pg_insert_event_def)
    have "pg_rel db' s'"
      by (rule pg_rel_with_events [OF rel _ _ mem_insert_event_inv [OF pg_rel_inv [OF rel] ins] mem_insert_event_frame [OF ins]])
        (simp_all add: out stored(2) q)
    with app out q show ?thesis by (simp add: matched_def)
  qed
qed

lemma pg_rel_cascade:
  assumes rel: "pg_rel db s" and ok: "pg_delete_bucket_cascade db b = (Some u, db')"
  shows "matched sha (OpCascade b) s ResDone db'"
proof -
  have b: "b \<noteq> META_BUCKET" and db': "db' = db\<lparr>pg_events := fmfilter (\<lambda>k. fst k \<noteq> b) (pg_events db),
      pg_digests := fmfilter (\<lambda>k. fst k \<noteq> b) (pg_digests db), pg_allocators := fmfilter (\<lambda>k. fst k \<noteq> b) (pg_allocators db)\<rparr>"
    using ok by (auto simp: pg_delete_bucket_cascade_def split: if_splits)
  obtain r s' where del: "mem_delete_bucket_cascade s b = (r, s')" by force
  note d = mem_delete_bucket_cascade_spec [OF pg_rel_inv [OF rel] b del]
  have "pg_rel db' s'"
  proof (rule pg_relI)
    show "mem_inv s'" by (rule d(7))
    show "pg_events db' = fmmap row_of_event (ms_events s')" by (simp only: d(2) fmmap_filter) (simp add: db' pg_rel_events [OF rel])
    show "pg_allocators db' = ms_bucket_allocators s'" by (simp add: db' d(4) pg_rel_allocators [OF rel])
    show "pg_registry db' = fmmap row_of_entry (ms_registry s')" by (simp add: db' d(5) pg_rel_registry [OF rel])
    show "pg_digests db' = ms_digests s'" by (simp add: db' d(3) pg_rel_digests [OF rel])
    show "pg_node_meta db' = fmmap (\<lambda>m. (meta_host m, ucast (meta_port m))) (ms_node_meta s')"
      by (simp add: db' d(6) pg_rel_meta [OF rel])
    show "meta_node_id m = n" if "fmlookup (ms_node_meta s') n = Some m" for n m
      using that by (intro pg_rel_meta_key [OF rel]) (simp add: d(6))
    show "small (row_next_seq r)" if "fmlookup (ms_bucket_allocators s') k = Some r" for k r
      using that by (intro pg_rel_next_seq [OF rel, of k]) (simp add: d(4) split: if_splits)
    show "small (first_seen_at_unix_ms e) \<and> small (last_seen_at_unix_ms e)" if "fmlookup (ms_registry s') n = Some e" for n e
      using that by (intro pg_rel_times [OF rel, of n]) (simp add: d(5))
  qed
  then show ?thesis by (simp add: matched_def mem_backend_def del d(1))
qed

lemma pg_rel_meta_row:
  assumes rel: "pg_rel db s" and ok: "pg_save_node_meta db m = (Some u, db')"
  shows "matched sha (OpMeta m) s ResDone db'"
proof -
  have db': "db' = db\<lparr>pg_node_meta := fmupd (meta_node_id m) (meta_host m, ucast (meta_port m)) (pg_node_meta db)\<rparr>"
    using ok by (auto simp: pg_save_node_meta_def split: if_splits)
  have "pg_rel db' (mem_save_node_meta s m)"
    using pg_relD [OF rel] mem_writers_inv(1) [OF pg_rel_inv [OF rel]]
    by (intro pg_relI) (auto simp: db' mem_save_node_meta_def fmmap_upd split: if_splits)
  then show ?thesis by (simp add: matched_def mem_backend_def)
qed

lemma pg_rel_mark:
  assumes rel: "pg_rel db s" and ok: "pg_mark_bucket_allocators_pending db n = (Some c, db')"
  shows "matched sha (OpMark n) s (ResCount c) db'"
proof -
  obtain c' s' where mk: "mem_mark_bucket_allocators_pending s n = (c', s')" by force
  have c: "c = c'" and db': "db' = db\<lparr>pg_allocators := ms_bucket_allocators s'\<rparr>"
    and s': "s' = s\<lparr>ms_bucket_allocators := fmmap (\<lambda>r. if row_node_id r = n then r\<lparr>row_needs_bump := True\<rparr> else r) (ms_bucket_allocators s)\<rparr>"
    using ok mk pg_rel_allocators [OF rel]
    by (auto simp: pg_mark_bucket_allocators_pending_def mem_mark_bucket_allocators_pending_def split: if_splits)
  have "mem_inv s'" using mem_writers_inv(2) [OF pg_rel_inv [OF rel], of n] by (simp add: mk)
  moreover have "small (row_next_seq r)" if "fmlookup (ms_bucket_allocators s') k = Some r" for k r
    using that pg_rel_next_seq [OF rel, of k] by (auto simp: s' split: if_splits simp del: split_paired_All)
  ultimately have "pg_rel db' s'"
    using pg_relD [OF rel] by (intro pg_relI) (auto simp: db' s')
  then show ?thesis by (simp add: matched_def mem_backend_def mk c)
qed

lemma small_1: "small (1 :: u64)"
  by (simp add: small_def)

lemma pg_rel_with_row:
  assumes rel: "pg_rel db s" and row: "small (row_next_seq r)" and inv: "mem_inv (s\<lparr>ms_bucket_allocators := fmupd k r (ms_bucket_allocators s)\<rparr>)"
  shows "pg_rel (db\<lparr>pg_allocators := fmupd k r (pg_allocators db)\<rparr>) (s\<lparr>ms_bucket_allocators := fmupd k r (ms_bucket_allocators s)\<rparr>)"
  using pg_relD [OF rel] row inv by (intro pg_relI) (auto split: if_splits)

lemma pg_rel_bump:
  assumes rel: "pg_rel db s" and ok: "pg_bump_bucket_epoch db b n = (Some ep, db')"
  shows "matched sha (OpBump b n) s (ResEpoch ep) db'"
proof -
  note same = pg_rel_allocators [OF rel]
  have inv: "mem_inv (snd (mem_bump_bucket_epoch s b n))" by (rule mem_writers_inv(3) [OF pg_rel_inv [OF rel]])
  have row: "pg_rel (db\<lparr>pg_allocators := fmupd (b, n) r (ms_bucket_allocators s)\<rparr>) (snd (mem_bump_bucket_epoch s b n))"
    if "snd (mem_bump_bucket_epoch s b n) = s\<lparr>ms_bucket_allocators := fmupd (b, n) r (ms_bucket_allocators s)\<rparr>" "small (row_next_seq r)" for r
    using pg_rel_with_row [OF rel that(2), of "(b, n)"] inv by (simp add: that(1) same)
  have "fst (mem_bump_bucket_epoch s b n) = ep \<and> pg_rel db' (snd (mem_bump_bucket_epoch s b n))"
  proof (cases "fmlookup (ms_bucket_allocators s) (b, n)")
    case None
    let ?r = "\<lparr>row_bucket = b, row_node_id = n, row_current_epoch = 1, row_next_seq = 1, row_needs_bump = False\<rparr>"
    have "db' = db\<lparr>pg_allocators := fmupd (b, n) ?r (ms_bucket_allocators s)\<rparr>" "ep = 1"
      using ok None by (auto simp: pg_bump_bucket_epoch_def same split: if_splits)
    moreover have m: "mem_bump_bucket_epoch s b n = (1, s\<lparr>ms_bucket_allocators := fmupd (b, n) ?r (ms_bucket_allocators s)\<rparr>)"
      by (simp add: mem_bump_bucket_epoch_def None)
    ultimately show ?thesis using row [of ?r] by (simp add: small_1)
  next
    case (Some x)
    let ?r = "x\<lparr>row_current_epoch := row_current_epoch x + 1, row_next_seq := 1, row_needs_bump := False\<rparr>"
    show ?thesis
    proof (cases "row_needs_bump x")
      case True
      have "db' = db\<lparr>pg_allocators := fmupd (b, n) ?r (ms_bucket_allocators s)\<rparr>" "ep = row_current_epoch x + 1"
        using ok Some True by (auto simp: pg_bump_bucket_epoch_def same Let_def split: if_splits)
      moreover have m: "mem_bump_bucket_epoch s b n =
          (row_current_epoch x + 1, s\<lparr>ms_bucket_allocators := fmupd (b, n) ?r (ms_bucket_allocators s)\<rparr>)"
        by (simp add: mem_bump_bucket_epoch_def Some True)
      ultimately show ?thesis using row [of ?r] by (simp add: small_1)
    next
      case False
      with ok Some rel show ?thesis by (auto simp: pg_bump_bucket_epoch_def mem_bump_bucket_epoch_def same split: if_splits)
    qed
  qed
  then show ?thesis by (simp add: matched_def mem_backend_def split_beta)
qed

lemma pg_rel_persist:
  assumes rel: "pg_rel db s" and ok: "pg_persist_bucket_next_seq db b n q = (Some u, db')" and q: "small q"
  shows "matched sha (OpPersist b n q) s ResDone db'"
proof -
  note same = pg_rel_allocators [OF rel]
  have db': "db' = (case fmlookup (pg_allocators db) (b, n) of
      Some r \<Rightarrow> db\<lparr>pg_allocators := fmupd (b, n) (r\<lparr>row_next_seq := signed_max (row_next_seq r) q\<rparr>) (pg_allocators db)\<rparr> | None \<Rightarrow> db)"
    using ok by (auto simp: pg_persist_bucket_next_seq_def split: if_splits)
  have inv: "mem_inv (mem_persist_bucket_next_seq s b n q)" by (rule mem_writers_inv(4) [OF pg_rel_inv [OF rel]])
  have "pg_rel db' (mem_persist_bucket_next_seq s b n q)"
  proof (cases "fmlookup (ms_bucket_allocators s) (b, n)")
    case None
    with rel show ?thesis by (simp add: db' same mem_persist_bucket_next_seq_def)
  next
    case (Some r)
    have mx: "signed_max (row_next_seq r) q = max (row_next_seq r) q"
      by (rule small_max) (use pg_rel_next_seq [OF rel Some] q in auto)
    have sm: "small (max (row_next_seq r) q)" using pg_rel_next_seq [OF rel Some] q by (simp add: max_def)
    let ?r = "r\<lparr>row_next_seq := max (row_next_seq r) q\<rparr>"
    have "mem_persist_bucket_next_seq s b n q = s\<lparr>ms_bucket_allocators := fmupd (b, n) ?r (ms_bucket_allocators s)\<rparr>"
    proof (cases "row_next_seq r < q")
      case False
      then have "?r = r" by (simp add: max_def)
      then show ?thesis using Some False by (simp add: mem_persist_bucket_next_seq_def fmupd_same [OF Some])
    qed (simp add: mem_persist_bucket_next_seq_def Some max_def)
    moreover have "db' = db\<lparr>pg_allocators := fmupd (b, n) ?r (pg_allocators db)\<rparr>" by (simp add: db' same Some mx)
    ultimately show ?thesis using pg_rel_with_row [OF rel, of ?r "(b, n)"] inv sm by simp
  qed
  then show ?thesis by (simp add: matched_def mem_backend_def)
qed

lemma pg_rel_with_registry:
  assumes rel: "pg_rel db s" and small: "small (first_seen_at_unix_ms e)" "small (last_seen_at_unix_ms e)"
    and inv: "mem_inv (s\<lparr>ms_registry := fmupd n e (ms_registry s)\<rparr>)"
  shows "pg_rel (db\<lparr>pg_registry := fmupd n (row_of_entry e) (pg_registry db)\<rparr>) (s\<lparr>ms_registry := fmupd n e (ms_registry s)\<rparr>)"
  using pg_relD [OF rel] small inv by (intro pg_relI) (auto simp: fmmap_upd split: if_splits)

lemma pg_rel_upsert:
  assumes rel: "pg_rel db s" and ok: "pg_upsert_registry_entry db e = (Some u, db')"
    and small: "small (first_seen_at_unix_ms e)" "small (last_seen_at_unix_ms e)" and tie: "\<not> op_ties s (OpUpsert e)"
  shows "matched sha (OpUpsert e) s ResDone db'"
proof -
  let ?n = "reg_node_id e"
  have db': "db' = db\<lparr>pg_registry := fmupd ?n (case fmlookup (pg_registry db) ?n of
      Some cur \<Rightarrow> merge_registry_row cur (row_of_entry e) | None \<Rightarrow> row_of_entry e) (pg_registry db)\<rparr>"
    using ok by (auto simp: pg_upsert_registry_entry_def Let_def split: if_splits)
  have up: "fst (mem_upsert_registry_entry s e) = Some ()" by (rule mem_upsert_registry_ok [OF pg_rel_inv [OF rel]])
  have inv: "mem_inv (snd (mem_upsert_registry_entry s e))" by (rule mem_writers_inv(5) [OF pg_rel_inv [OF rel]])
  have "pg_rel db' (snd (mem_upsert_registry_entry s e))"
  proof (cases "fmlookup (ms_registry s) ?n")
    case None
    then have "mem_upsert_registry_entry s e = (Some (), s\<lparr>ms_registry := fmupd ?n e (ms_registry s)\<rparr>)"
      by (simp add: mem_upsert_registry_entry_def)
    with inv None pg_rel_with_registry [OF rel small, of ?n] show ?thesis by (simp add: db' pg_rel_registry [OF rel])
  next
    case (Some cur)
    with up obtain m where m: "registry_merge cur e = Some m" by (auto simp: mem_upsert_registry_entry_def split: option.splits)
    note c = pg_rel_times [OF rel Some]
    have row: "merge_registry_row (row_of_entry cur) (row_of_entry e) = row_of_entry m"
      by (rule merge_registry_row_merge [OF m]) (use c small tie Some in auto)
    have ms: "mem_upsert_registry_entry s e = (Some (), s\<lparr>ms_registry := fmupd ?n m (ms_registry s)\<rparr>)"
      by (simp add: mem_upsert_registry_entry_def Some m)
    have "small (first_seen_at_unix_ms m) \<and> small (last_seen_at_unix_ms m)"
      using m c small by (auto simp: registry_merge_def Let_def min_def max_def split: if_splits)
    then have "pg_rel (db\<lparr>pg_registry := fmupd ?n (row_of_entry m) (pg_registry db)\<rparr>) (s\<lparr>ms_registry := fmupd ?n m (ms_registry s)\<rparr>)"
      using inv by (intro pg_rel_with_registry [OF rel]) (simp_all add: ms)
    moreover have "db' = db\<lparr>pg_registry := fmupd ?n (row_of_entry m) (pg_registry db)\<rparr>"
      by (simp add: db' pg_rel_registry [OF rel] Some row)
    ultimately show ?thesis by (simp add: ms)
  qed
  with up show ?thesis by (simp add: matched_def mem_backend_def prod_eq_iff)
qed

lemma pg_rel_decommission:
  assumes rel: "pg_rel db s" and ok: "pg_decommission_node db n = (Some u, db')"
  shows "matched sha (OpDecommission n) s ResDone db'"
proof -
  have db': "db' = (case fmlookup (pg_registry db) n of
      Some r \<Rightarrow> db\<lparr>pg_registry := fmupd n (r\<lparr>rr_status := ''decommissioned''\<rparr>) (pg_registry db)\<rparr> | None \<Rightarrow> db)"
    using ok by (auto simp: pg_decommission_node_def split: if_splits)
  have inv: "mem_inv (mem_decommission_node s n)" by (rule mem_writers_inv(6) [OF pg_rel_inv [OF rel]])
  have "pg_rel db' (mem_decommission_node s n)"
  proof (cases "fmlookup (ms_registry s) n")
    case None
    with rel show ?thesis by (simp add: db' pg_rel_registry [OF rel] mem_decommission_node_def)
  next
    case (Some e)
    have "(row_of_entry e)\<lparr>rr_status := ''decommissioned''\<rparr> = row_of_entry (e\<lparr>reg_status := Decommissioned\<rparr>)"
      by (simp add: row_of_entry_def)
    with Some inv pg_rel_times [OF rel Some] pg_rel_with_registry [OF rel, of "e\<lparr>reg_status := Decommissioned\<rparr>" n] show ?thesis
      by (simp add: db' pg_rel_registry [OF rel] mem_decommission_node_def)
  qed
  then show ?thesis by (simp add: matched_def mem_backend_def)
qed

lemma pg_rel_digest:
  assumes rel: "pg_rel db s" and ok: "pg_save_digest db b n ep h d = (Some u, db')"
  shows "matched sha (OpDigest b n ep h d) s ResDone db'"
proof -
  have db': "db' = db\<lparr>pg_digests := fmupd (b, n, ep) (h, d) (pg_digests db)\<rparr>"
    using ok by (auto simp: pg_save_digest_def split: if_splits)
  have "pg_rel db' (mem_save_digest s b n ep h d)"
    using pg_relD [OF rel] mem_writers_inv(7) [OF pg_rel_inv [OF rel]]
    by (intro pg_relI) (auto simp: db' mem_save_digest_def)
  then show ?thesis by (simp add: matched_def mem_backend_def)
qed

lemma pg_rel_refresh:
  assumes rel: "pg_rel db s" and ok: "pg_refresh_balance_summary db = (Some u, db')"
  shows "matched sha OpRefresh s ResDone db'"
proof -
  obtain v where "db' = db\<lparr>pg_balance_summary := v\<rparr>" using ok by (auto simp: pg_refresh_balance_summary_def split: option.splits)
  then have "pg_rel db' s" using pg_relD [OF rel] by (intro pg_relI) auto
  then show ?thesis by (simp add: matched_def mem_backend_def)
qed

subsection \<open>Runs\<close>

lemma write_matched:
  assumes rel: "pg_rel db s" and ok: "apply_op (pg_backend E sha) op db = (Some res, db')" and "op_small op" "\<not> op_ties s op"
  shows "matched sha op s res db'"
proof (cases op)
  case (OpInsert e)
  with ok show ?thesis by (auto simp: pg_backend_def apfst_def map_prod_def split: prod.splits intro: matched_insert [OF rel])
next
  case (OpBulk es)
  with ok show ?thesis by (auto simp: pg_backend_def apfst_def map_prod_def split: prod.splits intro: matched_bulk [OF rel])
next
  case (OpCascade b)
  with ok show ?thesis by (auto simp: pg_backend_def apfst_def map_prod_def split: prod.splits intro: pg_rel_cascade [OF rel])
next
  case (OpMeta m)
  with ok show ?thesis by (auto simp: pg_backend_def apfst_def map_prod_def split: prod.splits intro: pg_rel_meta_row [OF rel])
next
  case (OpMark n)
  with ok show ?thesis by (auto simp: pg_backend_def apfst_def map_prod_def split: prod.splits intro: pg_rel_mark [OF rel])
next
  case (OpBump b n)
  with ok show ?thesis by (auto simp: pg_backend_def apfst_def map_prod_def split: prod.splits intro: pg_rel_bump [OF rel])
next
  case (OpPersist b n q)
  with ok assms(3) show ?thesis by (auto simp: pg_backend_def apfst_def map_prod_def split: prod.splits intro: pg_rel_persist [OF rel])
next
  case (OpUpsert e)
  with ok assms(3,4) show ?thesis
    by (auto simp: pg_backend_def apfst_def map_prod_def simp del: op_ties.simps split: prod.splits intro: pg_rel_upsert [OF rel])
next
  case (OpDecommission n)
  with ok show ?thesis by (auto simp: pg_backend_def apfst_def map_prod_def split: prod.splits intro: pg_rel_decommission [OF rel])
next
  case (OpDigest b n ep h d)
  with ok show ?thesis by (auto simp: pg_backend_def apfst_def map_prod_def split: prod.splits intro: pg_rel_digest [OF rel])
next
  case OpRefresh
  with ok show ?thesis by (auto simp: pg_backend_def apfst_def map_prod_def split: prod.splits intro: pg_rel_refresh [OF rel])
qed

text \<open>A run stops at the first write that fails.\<close>

fun run_ops :: "'s backend \<Rightarrow> store_op list \<Rightarrow> 's \<Rightarrow> (op_result list \<times> 's) option" where
  "run_ops B [] s = Some ([], s)"
| "run_ops B (op # ops) s =
     (case apply_op B op s of
        (None, _) \<Rightarrow> None
      | (Some r, s') \<Rightarrow> map_option (apfst (Cons r)) (run_ops B ops s'))"

text \<open>Every write of a run meets a condition in the state of the reference store it comes to.\<close>

fun run_meets :: "('t \<Rightarrow> store_op \<Rightarrow> bool) \<Rightarrow> 't backend \<Rightarrow> store_op list \<Rightarrow> 't \<Rightarrow> bool" where
  "run_meets P B [] t = True"
| "run_meets P B (op # ops) t = (P t op \<and> run_meets P B ops (snd (apply_op B op t)))"

text \<open>
  The contract between a store and a reference store: on related states a write that the store accepts, and that is within the stated
  limits, is answered alike by the reference store and leaves related states.
\<close>

locale store_simulation =
  fixes B :: "'s backend" and B0 :: "'t backend" and R :: "'s \<Rightarrow> 't \<Rightarrow> bool" and within :: "'t \<Rightarrow> store_op \<Rightarrow> bool"
  assumes accepted_write: "R s t \<Longrightarrow> within t op \<Longrightarrow> apply_op B op s = (Some r, s') \<Longrightarrow>
    \<exists>t'. apply_op B0 op t = (Some r, t') \<and> R s' t'"
begin

lemma accepted_run:
  assumes "R s t" and "run_ops B ops s = Some (rs, s')" and "run_meets within B0 ops t"
  shows "\<exists>t'. run_ops B0 ops t = Some (rs, t') \<and> R s' t'"
  using assms
proof (induction ops arbitrary: s t rs)
  case Nil
  then show ?case by auto
next
  case (Cons op ops)
  from Cons.prems(2) obtain r s1 rs1 where one: "apply_op B op s = (Some r, s1)"
    and rest: "run_ops B ops s1 = Some (rs1, s')" and rs: "rs = r # rs1"
    by (auto split: prod.splits option.splits)
  have w: "within t op" using Cons.prems(3) by simp
  from accepted_write [OF Cons.prems(1) w one] obtain t1 where t1: "apply_op B0 op t = (Some r, t1)" "R s1 t1" by blast
  have "run_meets within B0 ops t1" using Cons.prems(3) t1(1) by simp
  from Cons.IH [OF t1(2) rest this] t1(1) rs show ?case by auto
qed

end

definition in_limits :: "mem_storage \<Rightarrow> store_op \<Rightarrow> bool" where
  "in_limits s op \<longleftrightarrow> op_small op \<and> \<not> op_ties s op"

interpretation pg_memory: store_simulation "pg_backend E sha" "mem_backend sha" pg_rel in_limits
  by unfold_locales (drule write_matched, assumption, auto simp: in_limits_def matched_def)

end
