(* ===== verification/Postgres_Guarantees.thy ===== *)
theory Postgres_Guarantees
  imports Postgres_Refinement
begin

section \<open>What the PostgreSQL backend guarantees\<close>

text \<open>
  The reads of PostgreSQL agree with those of the in-memory store when text is ordered by bytes and the numbers fit the signed columns, so a
  node rebuilt from either starts with the same caches. Then the behaviour that only PostgreSQL has: batches it refuses.
\<close>

subsection \<open>Orderings\<close>

lemma insort_key_cong:
  assumes "\<And>y. y \<in> set ys \<Longrightarrow> (f x \<le> f y) = (g x \<le> g y)"
  shows "insort_key f x ys = insort_key g x ys"
  using assms by (induction ys) auto

lemma sort_key_cong:
  assumes "\<And>x y. x \<in> set xs \<Longrightarrow> y \<in> set xs \<Longrightarrow> (f x \<le> f y) = (g x \<le> g y)"
  shows "sort_key f xs = sort_key g xs"
  using assms by (induction xs) (auto intro!: insort_key_cong)

lemma sort_key_map: "sort_key f (map h xs) = map h (sort_key (f \<circ> h) xs)"
proof -
  have "insort_key f (h x) (map h ys) = map h (insort_key (f \<circ> h) x ys)" for x ys
    by (induction ys) auto
  then show ?thesis by (induction xs) auto
qed

lemma scmp_key: "scmp x y = cmp (sint x) (sint y)"
  by (simp add: scmp_def)

definition byte_order :: "pg_env \<Rightarrow> bool" where
  "byte_order E \<longleftrightarrow> (\<forall>x y. pe_collate E x y = cmp x y)"

definition position_key :: "event_row \<Rightarrow> string \<times> string \<times> int \<times> int" where
  "position_key r = (er_bucket r, er_origin_node_id r, sint (er_origin_epoch r), sint (er_origin_seq r))"

lemma by_position_key: "byte_order E \<Longrightarrow> by_position E r r' = cmp (position_key r) (position_key r')"
  by (simp add: by_position_def byte_order_def scmp_key position_key_def then_with_cmp)

text \<open>The numbers of an event fit the columns.\<close>

definition event_small :: "event \<Rightarrow> bool" where
  "event_small e \<longleftrightarrow> small (origin_epoch e) \<and> small (origin_seq e) \<and> small (created_at_unix_ms e)"

lemma position_key_order:
  assumes "event_small e" "event_small e'"
  shows "position_key (row_of_event e) \<le> position_key (row_of_event e') \<longleftrightarrow> origin_key e \<le> origin_key e'"
proof -
  have s: "small (origin_epoch e)" "small (origin_epoch e')" "small (origin_seq e)" "small (origin_seq e')"
    using assms by (simp_all add: event_small_def)
  show ?thesis
    by (simp add: position_key_def row_of_event_def origin_key_def less_eq_prod_def small_order [OF s(1,2)] small_order [OF s(3,4)])
qed

lemma sorted_rows:
  assumes "byte_order E" and "\<And>e. e \<in> set es \<Longrightarrow> event_small e"
  shows "map event_of_row (sort_by (by_position E) (map row_of_event es)) = sort_key origin_key es"
proof -
  have "sort_by (by_position E) (map row_of_event es) = sort_key position_key (map row_of_event es)"
    by (rule sort_by_key) (rule by_position_key [OF assms(1)])
  also have "\<dots> = map row_of_event (sort_key (position_key \<circ> row_of_event) es)" by (rule sort_key_map)
  also have "sort_key (position_key \<circ> row_of_event) es = sort_key origin_key es"
    by (rule sort_key_cong) (simp add: position_key_order assms(2))
  finally show ?thesis by (simp add: comp_def)
qed

lemma mem_values_sorted:
  assumes "mem_inv s"
  shows "map origin_key (fm_values (ms_events s)) = fm_keys (ms_events s)"
    and "sort_key origin_key (fm_values (ms_events s)) = fm_values (ms_events s)"
proof -
  have ok: "mem_index_ok s" using assms by (simp add: mem_inv_def)
  show keys: "map origin_key (fm_values (ms_events s)) = fm_keys (ms_events s)"
    unfolding fm_values_keys map_map
  proof (rule map_idI)
    fix k assume "k \<in> set (fm_keys (ms_events s))"
    then obtain e where "fmlookup (ms_events s) k = Some e" by (auto simp: fmlookup_dom'_iff)
    then show "(origin_key \<circ> (\<lambda>k. the (fmlookup (ms_events s) k))) k = k" using mem_index_key [OF ok, of k e] by simp
  qed
  show "sort_key origin_key (fm_values (ms_events s)) = fm_values (ms_events s)"
    by (rule sort_key_id_if_sorted) (simp add: keys)
qed

lemma pg_rows_values: "pg_rel db s \<Longrightarrow> pg_rows db = map row_of_event (fm_values (ms_events s))"
  by (simp add: pg_rel_events fm_values_fmmap)

subsection \<open>The reads of a rebuild\<close>

text \<open>What is assumed of the rows: numbers that fit the columns. Texts without a NUL byte are what the inserts let in.\<close>

definition log_small :: "mem_storage \<Rightarrow> bool" where
  "log_small s \<longleftrightarrow> (\<forall>k e. fmlookup (ms_events s) k = Some e \<longrightarrow> event_small e)"

lemma log_smallD: "log_small s \<Longrightarrow> e \<in> set (fm_values (ms_events s)) \<Longrightarrow> event_small e"
  by (auto simp: log_small_def)

lemma rows_by_position:
  assumes "pg_rel db s" "byte_order E" "log_small s"
  shows "map event_of_row (sort_by (by_position E) (pg_rows db)) = fm_values (ms_events s)"
  unfolding pg_rows_values [OF assms(1)]
  using sorted_rows [OF assms(2), of "fm_values (ms_events s)"] log_smallD [OF assms(3)] mem_values_sorted(2) [OF pg_rel_inv [OF assms(1)]]
  by simp

lemma pg_checksum_agrees:
  assumes "pg_rel db s" "byte_order E" "log_small s"
  shows "pg_checksum_data E sha db = mem_checksum_data sha s"
  using rows_by_position [OF assms]
  by (simp add: pg_checksum_data_def mem_checksum_data_def flip: map_map)

lemma pg_all_events_agrees:
  assumes rel: "pg_rel db s" and bytes: "byte_order E" and small: "log_small s"
  shows "pg_query_all_events_sorted E db = mem_query_all_events_sorted s"
proof -
  let ?vs = "fm_values (ms_events s)"
  let ?f = "\<lambda>r. (sint (er_created_at_unix_ms r), position_key r)"
  have "sort_by (\<lambda>r r'. then_with (scmp (er_created_at_unix_ms r) (er_created_at_unix_ms r')) (by_position E r r')) (map row_of_event ?vs)
      = sort_key ?f (map row_of_event ?vs)"
    by (rule sort_by_key) (simp add: scmp_key by_position_key [OF bytes] then_with_cmp)
  also have "\<dots> = map row_of_event (sort_key (?f \<circ> row_of_event) ?vs)" by (rule sort_key_map)
  also have "sort_key (?f \<circ> row_of_event) ?vs = sort_key (\<lambda>e. (created_at_unix_ms e, origin_key e)) ?vs"
  proof (rule sort_key_cong)
    fix x y assume "x \<in> set ?vs" "y \<in> set ?vs"
    then have x: "event_small x" "event_small y" using log_smallD [OF small] by blast+
    then have "small (created_at_unix_ms x)" "small (created_at_unix_ms y)" by (simp_all add: event_small_def)
    then show "((?f \<circ> row_of_event) x \<le> (?f \<circ> row_of_event) y) =
        ((created_at_unix_ms x, origin_key x) \<le> (created_at_unix_ms y, origin_key y))"
      by (simp add: less_eq_prod_def [of "(_, position_key _)"] less_eq_prod_def [of "(_, origin_key _)"]
          position_key_order [OF x] small_order) (simp add: row_of_event_def small_order)
  qed
  finally show ?thesis
    by (simp add: pg_query_all_events_sorted_def mem_query_all_events_sorted_def pg_rows_values [OF rel] comp_def)
qed

lemma pg_by_bucket_agrees:
  assumes rel: "pg_rel db s" and bytes: "byte_order E" and small: "log_small s" and b: "pg_text b"
  shows "pg_query_events_by_bucket E db b = Some (mem_query_events_by_bucket s b)"
proof -
  let ?es = "map snd (filter (\<lambda>(k, _). fst k = b) (fm_entries (ms_events s)))"
  have ok: "mem_index_ok s" using pg_rel_inv [OF rel] by (simp add: mem_inv_def)
  have bk: "fst k = bucket e" if "(k, e) \<in> set (fm_entries (ms_events s))" for k e
    using mem_index_key [OF ok, of k e] that by (auto simp: origin_key_def)
  have same: "filter (\<lambda>e. bucket e = b) (fm_values (ms_events s)) = ?es"
    unfolding fm_values_def filter_map
    by (rule arg_cong [where f = "map snd"], rule filter_cong) (use bk in \<open>auto simp: comp_def\<close>)
  have sub: "set ?es \<subseteq> set (fm_values (ms_events s))" unfolding same [symmetric] by (rule filter_is_subset)
  have rows: "filter (\<lambda>r. er_bucket r = b) (pg_rows db) = map row_of_event ?es"
    unfolding pg_rows_values [OF rel] filter_map comp_def same [symmetric] by (simp add: row_of_event_def)
  have "pg_query_events_by_bucket E db b = Some (sort_key origin_key ?es)"
  proof -
    have "event_small e" if "e \<in> set ?es" for e using that sub log_smallD [OF small] by blast
    from sorted_rows [OF bytes this] show ?thesis by (simp only: pg_query_events_by_bucket_def rows b simp_thms if_False)
  qed
  also have "sort_key origin_key ?es = sort_key (\<lambda>e. (origin_node_id e, origin_epoch e, origin_seq e)) ?es"
  proof (rule sort_key_cong)
    fix x y assume "x \<in> set ?es" "y \<in> set ?es"
    then have "bucket x = b" "bucket y = b" unfolding same [symmetric] by auto
    then show "(origin_key x \<le> origin_key y) = ((origin_node_id x, origin_epoch x, origin_seq x) \<le> (origin_node_id y, origin_epoch y, origin_seq y))"
      by (simp add: origin_key_def)
  qed
  finally show ?thesis by (simp add: mem_query_events_by_bucket_def)
qed

lemma fold_push_map:
  "fold (\<lambda>r m. push_to (f r) (g r) m) (map h xs) m = fold (\<lambda>x m. push_to (f (h x)) (g (h x)) m) xs m"
  by (induction xs arbitrary: m) auto

lemma pg_sequences_agree:
  assumes "pg_rel db s" "byte_order E" "log_small s"
  shows "pg_sequences_by_origin_epoch E db = mem_sequences_by_origin_epoch s"
proof -
  have "sort_by (by_position E) (pg_rows db) = map row_of_event (fm_values (ms_events s))"
  proof -
    have sub: "\<exists>e. r = row_of_event e" if "r \<in> set (sort_by (by_position E) (pg_rows db))" for r
      using that sort_by_key [of "by_position E" position_key, OF by_position_key [OF assms(2)]]
      by (auto simp: pg_rows_values [OF assms(1)])
    have "map (row_of_event \<circ> event_of_row) (sort_by (by_position E) (pg_rows db)) = sort_by (by_position E) (pg_rows db)"
      by (rule map_idI) (use sub in fastforce)
    then show ?thesis using rows_by_position [OF assms] by (metis map_map)
  qed
  then have "pg_sequences_by_origin_epoch E db =
      fold (\<lambda>e m. push_to (epoch_of_origin_key (origin_key e)) (seq_of_origin_key (origin_key e)) m) (fm_values (ms_events s)) fmempty"
    by (simp add: pg_sequences_by_origin_epoch_def fold_push_map row_of_event_def epoch_key_def)
  also have "\<dots> = fold (\<lambda>k m. push_to (epoch_of_origin_key k) (seq_of_origin_key k) m) (map origin_key (fm_values (ms_events s))) fmempty"
    by (simp only: fold_push_map)
  finally show ?thesis
    by (simp add: mem_values_sorted(1) [OF pg_rel_inv [OF assms(1)]] mem_sequences_by_origin_epoch_def)
qed

lemma pg_origins_agree:
  "pg_rel db s \<Longrightarrow> pg_origin_account_epoch_mapping db = mem_origin_account_epoch_mapping s"
  by (simp add: pg_origin_account_epoch_mapping_def mem_origin_account_epoch_mapping_def pg_rows_values comp_def)
    (simp add: row_of_event_def)

text \<open>The balances: the sums of SQL are exact, and equal the wrapping sums where they fit.\<close>

lemma balance_sums_fold:
  "fm_get_or (fold (\<lambda>e m. fmupd (f e) (fm_get_or m (f e) (0::int) + g e) m) es m) k 0 =
     fm_get_or m k 0 + sum_list (map g (filter (\<lambda>e. f e = k) es))"
  by (induction es arbitrary: m) (auto simp: algebra_simps)

lemma balance_sums_dom:
  "fmdom' (fold (\<lambda>e m. fmupd (f e) (fm_get_or m (f e) (0::int) + g e) m) es m) = fmdom' m \<union> f ` set es"
  by (induction es arbitrary: m) auto

lemma word_of_int_sum_sint: "(word_of_int (sum_list (map (\<lambda>e. sint (g e)) es)) :: i64) = sum_list (map g es)"
  by (induction es) simp_all

lemma pg_balances_agree:
  assumes rel: "pg_rel db s" and ok: "pg_aggregate_balances db = Some rows"
  shows "rows = mem_aggregate_balances s"
proof -
  let ?vs = "fm_values (ms_events s)"
  let ?P = "fold (\<lambda>e m. fmupd (balance_key e) (fm_get_or m (balance_key e) 0 + sint (amount e)) m) ?vs (fmempty :: (string \<times> string, int) fmap)"
  let ?M = "fold (\<lambda>e m. add_to (balance_key e) (amount e) m) ?vs fmempty"
  have fm: "fold (\<lambda>r m. fmupd (f r) (fm_get_or m (f r) (0::int) + g r) m) (map h xs) m =
      fold (\<lambda>x m. fmupd (f (h x)) (fm_get_or m (f (h x)) 0 + g (h x)) m) xs m" for f :: "event_row \<Rightarrow> string \<times> string" and g and h :: "event \<Rightarrow> event_row" and xs m
    by (induction xs arbitrary: m) auto
  have P: "balance_sums db = ?P"
    unfolding balance_sums_def pg_rows_values [OF rel] fm by (simp add: row_of_event_def balance_key_def)
  have dom: "fmdom' ?P = fmdom' ?M" by (simp add: balance_sums_dom dom_fold_add_to)
  have val: "word_of_int (fm_get_or ?P k 0) = fm_get_or ?M k 0" for k
    by (simp add: balance_sums_fold lookup_fold_add_to word_of_int_sum_sint)
  have keys: "fm_keys ?P = fm_keys ?M" using dom by (simp add: fm_keys_def fmdom'_alt_def fset_inject)
  have entries: "fm_entries m = map (\<lambda>k. (k, fm_get_or m k d)) (fm_keys m)" for m :: "(string \<times> string, 'v) fmap" and d
    unfolding fm_entries_keys by (rule map_cong) (auto simp: fm_get_or_def fmlookup_dom'_iff)
  have "rows = map (\<lambda>((b, a), x). (b, a, word_of_int x)) (fm_entries ?P)"
    using ok by (auto simp: pg_aggregate_balances_def P Let_def split: if_splits)
  also have "\<dots> = map (\<lambda>((b, a), x). (b, a, x)) (fm_entries ?M)"
    unfolding entries [of ?P 0] entries [of ?M 0] keys map_map by (rule map_cong) (auto simp: val)
  finally show ?thesis by (simp add: mem_aggregate_balances_def)
qed

subsection \<open>A node rebuilt from either store\<close>

definition same_caches :: "pg_storage shared_state \<Rightarrow> mem_storage shared_state \<Rightarrow> bool" where
  "same_caches st st' \<longleftrightarrow>
     (node_id st, addr st, bucket_allocators st, accounts st, heads st, pending_seqs st, account_origin_epochs st) =
       (node_id st', addr st', bucket_allocators st', accounts st', heads st', pending_seqs st', account_origin_epochs st') \<and>
     (max_known_seqs st, event_buffer st, unpersisted st, idempotency_cache st, batch_tx st, total_event_count st) =
       (max_known_seqs st', event_buffer st', unpersisted st', idempotency_cache st', batch_tx st', total_event_count st') \<and>
     (hold_multiplier st, hold_duration_ms st, phase st, correction_tx st, digests st, deleted_buckets st) =
       (hold_multiplier st', hold_duration_ms st', phase st', correction_tx st', digests st', deleted_buckets st')"

text \<open>Both nodes have the same caches, and their stores the same content.\<close>

definition twins :: "pg_storage shared_state \<Rightarrow> mem_storage shared_state \<Rightarrow> bool" where
  "twins st st' \<longleftrightarrow> same_caches st st' \<and> pg_rel (storage st) (storage st')"

lemma pg_texts_of_log: "pg_text META_BUCKET"
  by (simp add: pg_text_def META_BUCKET_def)

lemma twins_allocators:
  assumes "twins st st'" "pg_text (node_id st)"
  shows "twins (rebuild_allocators (pg_backend E sha) st) (rebuild_allocators (mem_backend sha) st')"
    and "ms_events (storage (rebuild_allocators (mem_backend sha) st')) = ms_events (storage st')"
    and "pg_events (storage (rebuild_allocators (pg_backend E sha) st)) = pg_events (storage st)"
proof -
  have rel: "pg_rel (storage st) (storage st')" using assms by (simp add: twins_def)
  obtain c db where mk: "pg_mark_bucket_allocators_pending (storage st) (node_id st) = (Some c, db)"
    using assms(2) by (auto simp: pg_mark_bucket_allocators_pending_def)
  from pg_rel_mark [OF rel mk] obtain s where s: "mem_mark_bucket_allocators_pending (storage st') (node_id st) = (c, s)" "pg_rel db s"
    by (auto simp: matched_def mem_backend_def split: prod.splits)
  have load: "pg_load_bucket_allocators db (node_id st) = Some (mem_load_bucket_allocators s (node_id st))"
    using assms(2) pg_rel_allocators [OF s(2)] by (simp add: pg_load_bucket_allocators_def mem_load_bucket_allocators_def)
  have n: "node_id st' = node_id st" "bucket_allocators st' = bucket_allocators st" using assms by (simp_all add: twins_def same_caches_def)
  show "twins (rebuild_allocators (pg_backend E sha) st) (rebuild_allocators (mem_backend sha) st')"
    using assms(1) mk s load
    by (simp add: rebuild_allocators_def load_from_storage_def pg_backend_def mem_backend_def n twins_def same_caches_def)
  show "ms_events (storage (rebuild_allocators (mem_backend sha) st')) = ms_events (storage st')"
    using s(1) by (auto simp: rebuild_allocators_def load_from_storage_def mem_backend_def n mem_mark_bucket_allocators_pending_def)
  show "pg_events (storage (rebuild_allocators (pg_backend E sha) st)) = pg_events (storage st)"
    using mk load by (auto simp: rebuild_allocators_def load_from_storage_def pg_backend_def pg_mark_bucket_allocators_pending_def split: if_splits)
qed

lemma twinsD: "twins st st' \<Longrightarrow> same_caches st st'" "twins st st' \<Longrightarrow> pg_rel (storage st) (storage st')"
  by (simp_all add: twins_def)

text \<open>A step on the caches that leaves the store alone.\<close>

definition twin_step :: "(pg_storage shared_state \<Rightarrow> pg_storage shared_state) \<Rightarrow> (mem_storage shared_state \<Rightarrow> mem_storage shared_state) \<Rightarrow> bool" where
  "twin_step f g \<longleftrightarrow> (\<forall>st st'. same_caches st st' \<longrightarrow>
     same_caches (f st) (g st') \<and> storage (f st) = storage st \<and> storage (g st') = storage st')"

lemma twin_step_fold:
  assumes "\<And>x. twin_step (f x) (g x)"
  shows "twin_step (fold f xs) (fold g xs)"
proof (induction xs)
  case (Cons x xs)
  with assms [of x] show ?case unfolding twin_step_def by fastforce
qed (simp add: twin_step_def)

lemma twin_stepD: "twin_step f g \<Longrightarrow> same_caches st st' \<Longrightarrow>
    same_caches (f st) (g st') \<and> storage (f st) = storage st \<and> storage (g st') = storage st'"
  unfolding twin_step_def by blast

lemma twin_step_chain: "twin_step (rebuild_chain c) (rebuild_chain c)"
  unfolding twin_step_def rebuild_chain_def same_caches_def by (auto simp: Let_def split: prod.split)

lemma twin_step_account_event: "twin_step (rebuild_account_event now e) (rebuild_account_event now e)"
  unfolding twin_step_def rebuild_account_event_def with_account_def account_at_def same_caches_def by (simp cong: if_cong)

lemma twins_digest:
  assumes "twins st st'" "pg_text b" "pg_text origin"
  shows "twins (save_rebuilt_digest (pg_backend E sha) ((b, origin, ep), h, d) st) (save_rebuilt_digest (mem_backend sha) ((b, origin, ep), h, d) st')"
proof -
  have rel: "pg_rel (storage st) (storage st')" by (rule twinsD(2) [OF assms(1)])
  obtain db where sv: "pg_save_digest (storage st) b origin ep h d = (Some (), db)"
    using assms by (auto simp: pg_save_digest_def)
  from pg_rel_digest [OF rel sv] have "pg_rel db (mem_save_digest (storage st') b origin ep h d)"
    by (auto simp: matched_def mem_backend_def)
  then show ?thesis using twinsD(1) [OF assms(1)] sv
    by (simp add: save_rebuilt_digest_def pg_backend_def mem_backend_def twins_def same_caches_def)
qed

lemma twins_digests:
  assumes "twins st st'" "\<And>c. c \<in> set cs \<Longrightarrow> pg_text (fst (fst c)) \<and> pg_text (fst (snd (fst c)))"
  shows "twins (fold (save_rebuilt_digest (pg_backend E sha)) cs st) (fold (save_rebuilt_digest (mem_backend sha)) cs st')"
  using assms
proof (induction cs arbitrary: st st')
  case (Cons c cs)
  obtain b origin ep h d where c: "c = ((b, origin, ep), h, d)" by (cases c) auto
  have t: "pg_text b" "pg_text origin" using Cons.prems(2) [of c] by (simp_all add: c)
  have "twins (save_rebuilt_digest (pg_backend E sha) c st) (save_rebuilt_digest (mem_backend sha) c st')"
    unfolding c by (rule twins_digest [OF Cons.prems(1) t])
  then have "twins (fold (save_rebuilt_digest (pg_backend E sha)) cs (save_rebuilt_digest (pg_backend E sha) c st))
      (fold (save_rebuilt_digest (mem_backend sha)) cs (save_rebuilt_digest (mem_backend sha) c st'))"
    by (rule Cons.IH) (rule Cons.prems(2), simp)
  then show ?case by simp
qed simp

text \<open>The conditions under which the two stores answer the reads of the rebuild alike.\<close>

definition readable :: "pg_env \<Rightarrow> pg_storage \<Rightarrow> mem_storage \<Rightarrow> bool" where
  "readable E db s \<longleftrightarrow> byte_order E \<and> log_small s \<and> pg_aggregate_balances db \<noteq> None \<and>
     (\<forall>k e. fmlookup (ms_events s) k = Some e \<longrightarrow> pg_text (bucket e) \<and> pg_text (origin_node_id e))"

lemma pg_reads_events: "pg_events db = pg_events db' \<Longrightarrow> pg_aggregate_balances db = pg_aggregate_balances db'"
  by (simp add: pg_aggregate_balances_def balance_sums_def)

lemma readable_mono:
  "readable E db s \<Longrightarrow> pg_events db' = pg_events db \<Longrightarrow> ms_events s' = ms_events s \<Longrightarrow> readable E db' s'"
  using pg_reads_events [of db' db] by (simp add: readable_def log_small_def)

lemma twins_keep:
  assumes "twins st st'" "same_caches (f st) (g st')" "storage (f st) = storage st" "storage (g st') = storage st'"
  shows "twins (f st) (g st')"
  using assms by (simp add: twins_def)

lemma twins_balances:
  assumes t: "twins st st'" and r: "readable E (storage st) (storage st')"
  shows "twins (rebuild_balances (pg_backend E sha) st) (rebuild_balances (mem_backend sha) st')"
    and "storage (rebuild_balances (pg_backend E sha) st) = storage st" and "storage (rebuild_balances (mem_backend sha) st') = storage st'"
proof -
  from r obtain rows where rows: "pg_aggregate_balances (storage st) = Some rows" by (auto simp: readable_def)
  note eq = pg_balances_agree [OF twinsD(2) [OF t] rows]
  show s: "storage (rebuild_balances (pg_backend E sha) st) = storage st" "storage (rebuild_balances (mem_backend sha) st') = storage st'"
    by (simp_all add: rebuild_balances_def pg_backend_def mem_backend_def rows)
  have "same_caches (rebuild_balances (pg_backend E sha) st) (rebuild_balances (mem_backend sha) st')"
    using twinsD(1) [OF t] by (simp add: rebuild_balances_def pg_backend_def mem_backend_def rows eq same_caches_def)
  then show "twins (rebuild_balances (pg_backend E sha) st) (rebuild_balances (mem_backend sha) st')"
    using t s by (simp add: twins_def)
qed

lemma twins_heads:
  assumes t: "twins st st'" and r: "readable E (storage st) (storage st')"
  shows "twins (rebuild_heads (pg_backend E sha) st) (rebuild_heads (mem_backend sha) st')"
    and "storage (rebuild_heads (pg_backend E sha) st) = storage st" and "storage (rebuild_heads (mem_backend sha) st') = storage st'"
proof -
  have eq: "pg_sequences_by_origin_epoch E (storage st) = mem_sequences_by_origin_epoch (storage st')"
    using r by (intro pg_sequences_agree [OF twinsD(2) [OF t]]) (simp_all add: readable_def)
  let ?m = "fm_entries (mem_sequences_by_origin_epoch (storage st'))"
  have f: "rebuild_heads (pg_backend E sha) st = fold rebuild_chain ?m st" "rebuild_heads (mem_backend sha) st' = fold rebuild_chain ?m st'"
    by (simp_all add: rebuild_heads_def pg_backend_def mem_backend_def eq)
  note k = twin_stepD [OF twin_step_fold [where xs = ?m, OF twin_step_chain] twinsD(1) [OF t]]
  show "storage (rebuild_heads (pg_backend E sha) st) = storage st" "storage (rebuild_heads (mem_backend sha) st') = storage st'"
    "twins (rebuild_heads (pg_backend E sha) st) (rebuild_heads (mem_backend sha) st')"
    using k t by (simp_all add: f twins_def)
qed

lemma twins_origins:
  assumes t: "twins st st'"
  shows "twins (rebuild_origins (pg_backend E sha) st) (rebuild_origins (mem_backend sha) st')"
    and "storage (rebuild_origins (pg_backend E sha) st) = storage st" and "storage (rebuild_origins (mem_backend sha) st') = storage st'"
  using t pg_origins_agree [OF twinsD(2) [OF t]]
  by (simp_all add: rebuild_origins_def pg_backend_def mem_backend_def twins_def same_caches_def)

lemma rebuild_digest_keys:
  assumes "fst (k, v) \<in> fmdom' (snd (fold (rebuild_digest_event sha hs) es (buf, m)))"
  shows "k \<in> fmdom' m \<or> k \<in> epoch_key ` set es"
  using assms
proof (induction es arbitrary: buf m)
  case (Cons e es)
  obtain b1 m1 where one: "rebuild_digest_event sha hs e (buf, m) = (b1, m1)" by force
  have "fmdom' m1 \<subseteq> insert (epoch_key e) (fmdom' m)"
    using one by (auto simp: rebuild_digest_event_def fm_or_insert_def split: if_splits prod.splits option.splits)
  with Cons.IH [of b1 m1] Cons.prems one show ?case by auto
qed simp

lemma twins_events:
  assumes t: "twins st st'" and r: "readable E (storage st) (storage st')"
  shows "twins (rebuild_events (pg_backend E sha) sha now st) (rebuild_events (mem_backend sha) sha now st')"
proof -
  let ?es = "mem_query_all_events_sorted (storage st')"
  have eq: "pg_query_all_events_sorted E (storage st) = ?es"
    using r by (intro pg_all_events_agrees [OF twinsD(2) [OF t]]) (simp_all add: readable_def)
  define u where "u = rebuild_idempotency ?es (fold (rebuild_account_event now) ?es st)"
  define u' where "u' = rebuild_idempotency ?es (fold (rebuild_account_event now) ?es st')"
  note k = twin_stepD [OF twin_step_fold [where xs = ?es, OF twin_step_account_event [of now]] twinsD(1) [OF t]]
  have tu: "twins u u'" using k t by (simp add: u_def u'_def twins_def rebuild_idempotency_def same_caches_def)
  obtain buf m where folded: "fold (rebuild_digest_event sha (heads u)) (sort_key origin_key ?es) (event_buffer u, fmempty) = (buf, m)"
    by force
  have same: "heads u' = heads u" "event_buffer u' = event_buffer u" using twinsD(1) [OF tu] by (simp_all add: same_caches_def)
  have vals: "set ?es = set (fm_values (ms_events (storage st')))" by (simp add: mem_query_all_events_sorted_def)
  have texts: "pg_text b \<and> pg_text origin" if "((b, origin, ep), x) \<in> set (fm_entries m)" for b origin ep x
  proof -
    have "(b, origin, ep) \<in> fmdom' m" using that by (auto simp: fmlookup_dom'_iff)
    then have "(b, origin, ep) \<in> epoch_key ` set ?es"
      using rebuild_digest_keys [of "(b, origin, ep)" x sha "heads u" "sort_key origin_key ?es" "event_buffer u" fmempty] folded by simp
    then obtain e where "e \<in> set ?es" "epoch_key e = (b, origin, ep)" by auto
    with r show ?thesis unfolding vals by (auto simp: readable_def epoch_key_def)
  qed
  have tb: "twins (u\<lparr>event_buffer := buf\<rparr>) (u'\<lparr>event_buffer := buf\<rparr>)" using tu by (simp add: twins_def same_caches_def)
  have "twins (fold (save_rebuilt_digest (pg_backend E sha)) (fm_entries m) (u\<lparr>event_buffer := buf\<rparr>))
      (fold (save_rebuilt_digest (mem_backend sha)) (fm_entries m) (u'\<lparr>event_buffer := buf\<rparr>))"
    by (rule twins_digests [OF tb]) (use texts in \<open>metis prod.collapse\<close>)
  then have "twins (rebuild_digests (pg_backend E sha) sha ?es u) (rebuild_digests (mem_backend sha) sha ?es u')"
    by (simp add: rebuild_digests_def folded same)
  then show ?thesis
    by (simp add: rebuild_events_def pg_backend_def [of E sha] mem_backend_def [of sha] eq u_def u'_def)
qed

lemma twins_deleted:
  assumes t: "twins st st'" and r: "byte_order E" "log_small (storage st')"
  shows "twins (rebuild_deleted (pg_backend E sha) st) (rebuild_deleted (mem_backend sha) st')"
  using t pg_by_bucket_agrees [OF twinsD(2) [OF t] r pg_texts_of_log]
  by (simp add: rebuild_deleted_def pg_backend_def mem_backend_def twins_def same_caches_def)

text \<open>Saving digests leaves the log alone.\<close>

lemma mem_save_digests_events: "ms_events (storage (fold (save_rebuilt_digest (mem_backend sha)) cs st)) = ms_events (storage st)"
  by (induction cs arbitrary: st) (auto simp: save_rebuilt_digest_def mem_backend_def mem_save_digest_def split: prod.splits)

lemma mem_rebuild_events_log: "ms_events (storage (rebuild_events (mem_backend sha) sha now st)) = ms_events (storage st)"
proof -
  have "storage (fold (rebuild_account_event now) es st) = storage st" for es and st :: "mem_storage shared_state"
    by (induction es arbitrary: st) (simp_all add: rebuild_account_event_def with_account_def)
  then show ?thesis
    unfolding rebuild_events_def rebuild_digests_def
    by (auto simp: mem_save_digests_events rebuild_idempotency_def split: option.splits prod.splits)
qed

lemma rebuild_twins:
  assumes rel: "pg_rel db s" and r: "readable E db s" and n: "pg_text n"
  shows "twins (shared_state_new (pg_backend E sha) sha now n ad db btx ctx hc) (shared_state_new (mem_backend sha) sha now n ad s btx ctx hc)"
proof -
  let ?B = "pg_backend E sha" and ?M = "mem_backend sha"
  let ?e = "empty_state n ad db btx ctx hc" and ?e' = "empty_state n ad s btx ctx hc"
  have "twins ?e ?e'" "pg_text (node_id ?e)" using rel n by (simp_all add: twins_def same_caches_def empty_state_def)
  note al = twins_allocators [OF this]
  have "readable E (storage (rebuild_allocators ?B ?e)) (storage (rebuild_allocators ?M ?e'))"
    by (rule readable_mono [OF r]) (simp_all add: al(2,3), simp_all add: empty_state_def)
  note r1 = this
  note ba = twins_balances [OF al(1) r1]
  have r2: "readable E (storage (rebuild_balances ?B (rebuild_allocators ?B ?e))) (storage (rebuild_balances ?M (rebuild_allocators ?M ?e')))"
    using r1 by (simp add: ba)
  note he = twins_heads [OF ba(1) r2]
  note og = twins_origins [OF he(1)]
  have r3: "readable E (storage (rebuild_origins ?B (rebuild_heads ?B (rebuild_balances ?B (rebuild_allocators ?B ?e)))))
      (storage (rebuild_origins ?M (rebuild_heads ?M (rebuild_balances ?M (rebuild_allocators ?M ?e')))))"
    using r1 by (simp only: og he ba)
  note ev = twins_events [OF og(1) r3, where now = now]
  show ?thesis
    unfolding shared_state_new_def
    by (rule twins_deleted [OF ev]) (use r3 in \<open>simp_all add: readable_def log_small_def mem_rebuild_events_log\<close>)
qed

subsection \<open>Refused batches\<close>

lemma insert_rows_refused:
  "r \<in> set rs \<Longrightarrow> \<not> row_accepted E r \<Longrightarrow> insert_rows E rs db = None"
proof (induction rs arbitrary: db)
  case (Cons x rs)
  then show ?case by (cases "x = r") (auto simp: insert_row_def split: option.splits)
qed simp

lemma insert_chunks_refused:
  "e \<in> set es \<Longrightarrow> \<not> row_accepted E (row_of_event e) \<Longrightarrow> fst (insert_chunks E es db) = None"
proof (induction E es db rule: insert_chunks.induct)
  case (1 E es db)
  show ?case
  proof (cases "e \<in> set (take BULK_CHUNK es)")
    case True
    then have "insert_rows E (map row_of_event (take BULK_CHUNK es)) db = None"
      by (intro insert_rows_refused [of "row_of_event e"]) (use "1.prems"(2) in auto)
    then show ?thesis using "1.prems"(1) by (subst insert_chunks.simps) auto
  next
    case False
    then have rest: "e \<in> set (drop BULK_CHUNK es)"
      using "1.prems"(1) by (metis Un_iff append_take_drop_id set_append)
    have ne: "es \<noteq> []" using "1.prems"(1) by auto
    show ?thesis
    proof (cases "insert_rows E (map row_of_event (take BULK_CHUNK es)) db")
      case None
      then show ?thesis using ne by (subst insert_chunks.simps) auto
    next
      case (Some p)
      obtain n db' where p: "p = (n, db')" by force
      have "fst (insert_chunks E (drop BULK_CHUNK es) db') = None"
        by (rule "1.IH" [OF ne Some p [symmetric] rest "1.prems"(2)])
      then show ?thesis using ne Some p by (subst insert_chunks.simps) (auto split: prod.splits option.splits)
    qed
  qed
qed

lemma in_map_filter: "y \<in> set (List.map_filter f xs) \<longleftrightarrow> (\<exists>x\<in>set xs. f x = Some y)"
  by (induction xs) (auto simp: map_filter_simps split: option.splits)

lemma in_unpersisted_events:
  "e \<in> set (get_unpersisted_events c st) \<longleftrightarrow>
     (\<exists>k t. fmlookup (unpersisted st) k = Some t \<and> t \<le> c \<and> fmlookup (event_buffer st) k = Some e)"
  unfolding get_unpersisted_events_def in_map_filter by (simp add: Bex_def conj_assoc)

lemma orphan_turn_refused:
  assumes "e \<in> set (get_unpersisted_events (saturating_sub now age) st)" and "\<not> row_accepted E (row_of_event e)"
  shows "\<exists>db'. orphan_turn (pg_backend E sha) age now st = st\<lparr>storage := db'\<rparr>"
proof -
  let ?es = "get_unpersisted_events (saturating_sub now age) st"
  have "fst (pg_insert_events_bulk E (storage st) ?es) = None"
    unfolding pg_insert_events_bulk_def by (rule insert_chunks_refused [OF _ assms(2)]) (use assms(1) in simp)
  then obtain db' where "pg_insert_events_bulk E (storage st) ?es = (None, db')" by (cases "pg_insert_events_bulk E (storage st) ?es") auto
  then show ?thesis using assms(1) by (auto simp: orphan_turn_def Let_def pg_backend_def)
qed

subsection \<open>The checksum and the collation\<close>

text \<open>A collation that looks at dashes last, as linguistic ones do, and the order of bytes: the checksums of the same tables differ.\<close>

definition lenient_env :: pg_env where
  "lenient_env = \<lparr>pe_collate = cmp, pe_fold_case = to_ascii_lowercase, pe_row_fits = \<lambda>_. True\<rparr>"

definition dash_blind :: "string \<Rightarrow> string \<Rightarrow> ordering" where
  "dash_blind x y = then_with (cmp (filter (\<lambda>c. c \<noteq> CHR ''-'') x) (filter (\<lambda>c. c \<noteq> CHR ''-'') y)) (cmp x y)"

definition ev_in :: "string \<Rightarrow> string \<Rightarrow> event" where
  "ev_in b i = (sample_event i ''n'' 1 5 10)\<lparr>bucket := b\<rparr>"

lemma linguistic_rows:
  defines "r1 \<equiv> row_of_event (ev_in ''ab'' ''y'')" and "r2 \<equiv> row_of_event (ev_in ''a-c'' ''x'')"
  defines "db \<equiv> pg_new\<lparr>pg_events := fmupd (row_position r1) r1 (fmupd (row_position r2) r2 fmempty)\<rparr>"
  shows "pg_rows db = [r2, r1]" and "sort_by (by_position (lenient_env\<lparr>pe_collate := cmp\<rparr>)) [r2, r1] = [r2, r1]"
    and "sort_by (by_position (lenient_env\<lparr>pe_collate := dash_blind\<rparr>)) [r2, r1] = [r1, r2]"
proof -
  have k: "row_position r1 = (''ab'', ''n'', 1, 1)" "row_position r2 = (''a-c'', ''n'', 1, 1)"
    by (simp_all add: r1_def r2_def row_position_def row_of_event_def ev_in_def sample_event_def)
  have lt: "\<not> (''ab'', ''n'', 1 :: u32, 1 :: u64) \<le> (''a-c'', ''n'', 1, 1)" by code_simp
  show "pg_rows db = [r2, r1]"
    by (simp add: db_def k fm_values_def fm_entries_upd_fresh lt)
  have o: "by_position (lenient_env\<lparr>pe_collate := cmp\<rparr>) r2 r1 = Less" "by_position (lenient_env\<lparr>pe_collate := dash_blind\<rparr>) r2 r1 = Greater"
    unfolding r1_def r2_def by code_simp+
  then show "sort_by (by_position (lenient_env\<lparr>pe_collate := cmp\<rparr>)) [r2, r1] = [r2, r1]"
    "sort_by (by_position (lenient_env\<lparr>pe_collate := dash_blind\<rparr>)) [r2, r1] = [r1, r2]"
    by (simp_all add: sort_by_def)
qed

theorem checksum_depends_on_collation:
  "\<exists>db. pg_checksum_data (lenient_env\<lparr>pe_collate := cmp\<rparr>) (\<lambda>x. x) db \<noteq> pg_checksum_data (lenient_env\<lparr>pe_collate := dash_blind\<rparr>) (\<lambda>x. x) db"
proof -
  have "hex (join_lines (map canonical [ev_in ''a-c'' ''x'', ev_in ''ab'' ''y''])) \<noteq>
      hex (join_lines (map canonical [ev_in ''ab'' ''y'', ev_in ''a-c'' ''x'']))" by code_simp
  moreover obtain db where "pg_rows db = [row_of_event (ev_in ''a-c'' ''x''), row_of_event (ev_in ''ab'' ''y'')]"
    using linguistic_rows(1) by blast
  ultimately have "pg_checksum_data (lenient_env\<lparr>pe_collate := cmp\<rparr>) (\<lambda>x. x) db \<noteq>
      pg_checksum_data (lenient_env\<lparr>pe_collate := dash_blind\<rparr>) (\<lambda>x. x) db"
    unfolding pg_checksum_data_def by (simp only: linguistic_rows(2,3) list.map comp_apply event_of_row_of_event not_False_eq_True)
  then show ?thesis by blast
qed

section \<open>Properties\<close>

text \<open>C37. Refinement: a run of writes that PostgreSQL accepts, on the tables the migrations create, answers as the in-memory store does
  from empty, write by write, and ends in tables with the same events, allocator rows, registry, digests and metadata. The numbers must fit
  the signed columns, and no registry entry is upserted at the very time of the stored one with another address.\<close>

theorem postgres_refines_memory:
  assumes "run_ops (pg_backend E sha) ops pg_new = Some (rs, db)"
    and "run_meets in_limits (mem_backend sha) ops mem_new"
  shows "\<exists>s. run_ops (mem_backend sha) ops mem_new = Some (rs, s) \<and> pg_rel db s"
  by (rule pg_memory.accepted_run [OF pg_rel_new assms])

definition some_writes :: "store_op list" where
  "some_writes = [OpBump ''b'' ''n'', OpInsert (sample_event ''x'' ''n'' 1 5 10), OpPersist ''b'' ''n'' 2, OpMark ''n'', OpBump ''b'' ''n'']"

lemma run_some_writes:
  "\<exists>db. run_ops (pg_backend lenient_env (\<lambda>x. x)) some_writes pg_new = Some ([ResEpoch 1, ResInserted, ResDone, ResCount 1, ResEpoch 2], db) \<and>
     pg_aggregate_balances db = Some [(''b'', ''a'', 10)]"
proof -
  have v: "fm_values (fmupd k v fmempty) = [v]" for k :: "'k::linorder" and v :: 'v by (simp add: fm_values_def fm_entries_upd_fresh)
  have plain: "pg_text ''b''" "pg_text ''n''" by (simp_all add: pg_text_def)
  have acc: "row_accepted lenient_env (row_of_event (sample_event ''x'' ''n'' 1 5 10))"
    by (simp add: row_accepted_def row_texts_def row_of_event_def sample_event_def pg_text_def lenient_env_def opt_ok_def map_filter_simps)
  have small: "sint (10 :: i64) = 10" "fits_bigint 10" by (simp_all add: fits_bigint_def)
  show ?thesis
    by (simp add: some_writes_def pg_backend_def pg_new_def plain pg_bump_bucket_epoch_def pg_insert_event_def insert_row_def acc
        pg_persist_bucket_next_seq_def pg_mark_bucket_allocators_pending_def v)
      (simp add: pg_aggregate_balances_def balance_sums_def v row_of_event_def sample_event_def small fm_entries_upd_fresh)
qed

theorem postgres_refines_memory_witness:
  "\<exists>s. run_ops (mem_backend (\<lambda>x. x)) some_writes mem_new = Some ([ResEpoch 1, ResInserted, ResDone, ResCount 1, ResEpoch 2], s)"
proof -
  obtain db where db: "run_ops (pg_backend lenient_env (\<lambda>x. x)) some_writes pg_new =
      Some ([ResEpoch 1, ResInserted, ResDone, ResCount 1, ResEpoch 2], db)" using run_some_writes by blast
  have "run_meets in_limits (mem_backend (\<lambda>x. x)) some_writes mem_new" by (simp add: some_writes_def small_def in_limits_def)
  from postgres_refines_memory [OF db this] show ?thesis by blast
qed

text \<open>C38. Equivalence of the two stores at start-up: a node rebuilt from the tables starts with the same caches as one rebuilt from the
  in-memory store with the same content, and the stores keep the same content, if the database orders text by bytes, the numbers of the
  events and the balances fit their columns and no text has a NUL byte.\<close>

theorem rebuild_on_postgres:
  assumes "pg_rel db s" and "readable E db s" and "pg_text n"
  shows "twins (shared_state_new (pg_backend E sha) sha now n ad db btx ctx hc) (shared_state_new (mem_backend sha) sha now n ad s btx ctx hc)"
  by (rule rebuild_twins [OF assms])

lemma sample_tables:
  defines "e \<equiv> sample_event ''x'' ''n'' 1 5 10"
  defines "db \<equiv> pg_new\<lparr>pg_events := fmupd (origin_key e) (row_of_event e) fmempty\<rparr>"
  shows "\<exists>s. pg_rel db s \<and> readable lenient_env db s"
proof -
  have acc: "row_accepted lenient_env (row_of_event e)"
    by (simp add: row_accepted_def row_texts_def row_of_event_def e_def sample_event_def pg_text_def lenient_env_def opt_ok_def map_filter_simps)
  have ins: "pg_insert_event lenient_env pg_new e = (Some Inserted, db)"
    by (simp add: pg_insert_event_def insert_row_def acc db_def) (simp add: pg_new_def)
  from matched_insert [OF pg_rel_new ins] obtain s where rel: "pg_rel db s" by (auto simp: matched_def)
  have "fmlookup (fmmap row_of_event (ms_events s)) k = (if k = origin_key e then Some (row_of_event e) else None)" for k
    unfolding pg_rel_events [OF rel, symmetric] by (simp add: db_def)
  then have one: "x = e" if "fmlookup (ms_events s) k = Some x" for k x
    using that by (metis event_of_row_of_event fmlookup_map option.distinct(1) option.inject option.simps(9))
  have v: "fm_values (fmupd k v fmempty) = [v]" for k :: "'k::linorder" and v :: 'v by (simp add: fm_values_def fm_entries_upd_fresh)
  have "pg_aggregate_balances db \<noteq> None"
    by (simp add: pg_aggregate_balances_def balance_sums_def db_def v row_of_event_def e_def sample_event_def fm_entries_upd_fresh fits_bigint_def)
  moreover have "event_small e" "pg_text (bucket e)" "pg_text (origin_node_id e)"
    by (simp_all add: e_def sample_event_def event_small_def small_def pg_text_def)
  ultimately have "readable lenient_env db s"
    using one by (auto simp: readable_def log_small_def byte_order_def lenient_env_def)
  with rel show ?thesis by blast
qed

theorem rebuild_on_postgres_witness:
  "\<exists>db s. pg_rel db s \<and> db \<noteq> pg_new \<and>
     accounts (shared_state_new (pg_backend lenient_env (\<lambda>x. x)) (\<lambda>x. x) 9 ''n'' ''here'' db [] [] \<lparr>hc_multiplier = 0, hc_duration_ms = 0\<rparr>) =
     accounts (shared_state_new (mem_backend (\<lambda>x. x)) (\<lambda>x. x) 9 ''n'' ''here'' s [] [] \<lparr>hc_multiplier = 0, hc_duration_ms = 0\<rparr>)"
proof -
  define e where "e = sample_event ''x'' ''n'' 1 5 10"
  define db where "db = pg_new\<lparr>pg_events := fmupd (origin_key e) (row_of_event e) fmempty\<rparr>"
  obtain s where s: "pg_rel db s" "readable lenient_env db s" using sample_tables by (auto simp: e_def db_def)
  have "pg_text ''n''" by (simp add: pg_text_def)
  note t = rebuild_on_postgres [OF s this, of "\<lambda>x. x" 9 "''here''" "[]" "[]" "\<lparr>hc_multiplier = 0, hc_duration_ms = 0\<rparr>"]
  have "pg_events db \<noteq> pg_events pg_new" by (auto simp: db_def pg_new_def dest: arg_cong [where f = "\<lambda>m. fmlookup m (origin_key e)"])
  then have "db \<noteq> pg_new" by auto
  with s(1) twinsD(1) [OF t] show ?thesis by (auto simp: same_caches_def)
qed



text \<open>C40. Equivalence of the two registry merges: on timestamps that fit the columns, the upsert in SQL gives the entry that
  \<open>NodeRegistryEntry::merge\<close> gives, except exactly when both were seen at the same time under two different addresses, where SQL keeps
  the stored address and the merge takes the new one.\<close>

theorem registry_upsert_equals_merge:
  assumes "registry_merge cur e = Some m"
    and "small (first_seen_at_unix_ms cur)" "small (last_seen_at_unix_ms cur)" "small (first_seen_at_unix_ms e)" "small (last_seen_at_unix_ms e)"
  shows "merge_registry_row (row_of_entry cur) (row_of_entry e) = row_of_entry m \<longleftrightarrow>
    \<not> (last_seen_at_unix_ms cur = last_seen_at_unix_ms e \<and> reg_addr cur \<noteq> [] \<and> reg_addr e \<noteq> [] \<and> reg_addr cur \<noteq> reg_addr e)"
proof
  assume "merge_registry_row (row_of_entry cur) (row_of_entry e) = row_of_entry m"
  then have "rr_addr (merge_registry_row (row_of_entry cur) (row_of_entry e)) = rr_addr (row_of_entry m)" by simp
  moreover have "reg_addr m = latest_non_empty_addr cur e"
    using assms(1) unfolding registry_merge_def Let_def by (auto split: if_splits)
  ultimately show "\<not> (last_seen_at_unix_ms cur = last_seen_at_unix_ms e \<and> reg_addr cur \<noteq> [] \<and> reg_addr e \<noteq> [] \<and> reg_addr cur \<noteq> reg_addr e)"
    by (auto simp: merge_registry_row_def row_of_entry_def latest_non_empty_addr_def split: if_splits)
qed (rule merge_registry_row_merge [OF assms])

theorem registry_upsert_equals_merge_witness:
  "\<exists>cur e m. registry_merge cur e = Some m \<and> merge_registry_row (row_of_entry cur) (row_of_entry e) \<noteq> row_of_entry m"
proof -
  let ?cur = "\<lparr>reg_node_id = ''n'', reg_addr = ''old'', first_seen_at_unix_ms = 1, last_seen_at_unix_ms = 5, reg_status = Active\<rparr>"
  let ?e = "?cur\<lparr>reg_addr := ''new''\<rparr>"
  obtain m where m: "registry_merge ?cur ?e = Some m" by (simp add: registry_merge_def Let_def)
  with registry_upsert_equals_merge [OF m] show ?thesis by (intro exI [of _ ?cur] exI [of _ ?e] exI [of _ m]) (simp add: small_def)
qed

end
