(* ===== verification/Spec2Isabelle.thy ===== *)
theory Spec2Isabelle
  imports Durability Service_Guarantees Mesh_Loop Gateway_Auth Evm_Guarantees Postgres_Guarantees
begin

text \<open>
  A verification library for \<^emph>\<open>shardd\<close>, a leaderless replicated ledger: every node accepts debits, credits
  and reservations locally, logs them as events, gossips the events to its peers and keeps balances as a
  cache over the log.

  \<^bold>\<open>The program.\<close> \<open>libs/types\<close> defines the event, its keys and the RPC messages. \<open>libs/storage\<close> is the
  durable event log behind a trait, with an in-memory and a PostgreSQL implementation. \<open>apps/node\<close> is the
  node: \<open>bucket_allocator.rs\<close> issues the position (epoch, sequence number) of a local event; \<open>state.rs\<close> holds the
  caches and the operations on them (create, replicate, delete, conflict correction, heads and digests, rebuild);
  \<open>batch_writer.rs\<close> and \<open>orphan_detector.rs\<close> make events durable; \<open>server.rs\<close> runs the background tasks;
  \<open>service.rs\<close> answers RPC requests. \<open>libs/broadcast\<close> carries events between nodes and lets the gateway pick a node.

  \<^bold>\<open>The theories.\<close>
    \<^item> \<open>Prelude\<close>: Rust integers as words, decimal printing and parsing, string splitting, finite maps with key-ordered
      iteration, and the locale \<open>commuting_updates\<close> (a fold does not depend on the order of compatible updates).
    \<^item> \<open>Types\<close>: \<open>libs/types/src/lib.rs\<close>.
    \<^item> \<open>Storage\<close>: the trait \<open>StorageBackend\<close> as a record of operations, each of which may fail, and its contracts as the
      locales \<open>allocator_rows\<close> and \<open>node_store\<close>. \<open>Memory_Storage\<close>: the whole of \<open>memory.rs\<close>, its invariant \<open>mem_inv\<close>, and
      the interpretations \<open>mem_rows\<close> and \<open>mem_store\<close> of both locales.
    \<^item> \<open>Allocator\<close>: \<open>bucket_allocator.rs\<close>; schedules of allocations, checkpoints and restarts.
    \<^item> \<open>Account\<close>: \<open>AccountState\<close>, reservations, the classification of a request into a mode; the interpretation
      \<open>account_replay\<close> of \<open>commuting_updates\<close>.
    \<^item> \<open>Node_State\<close>: \<open>SharedState\<close> with replication, heads, digests, conflicts and reads. \<open>Local_Create\<close>: the four emitters of
      \<open>create_local_events\<close> and the bucket delete. \<open>Rebuild\<close>: \<open>SharedState::new\<close>, block by block.
    \<^item> \<open>Wire\<close>: the text formats of \<open>libs/broadcast\<close> and the in-memory broadcaster. \<open>Workers\<close>: the batch writer, the
      orphan detector and the tasks of \<open>server.rs\<close>. \<open>Service\<close>: \<open>service.rs\<close>, phases and metrics.
    \<^item> \<open>Head_Tracking\<close>: a head with its pending set stands for the set of received numbers. \<open>Ledger\<close>: the abstract ledger
      (a log, and accounts and chains as functions) and the refinement of it by every operation. \<open>Reachability\<close>: the node as a step
      relation, and its invariants by rule induction, inside the locale \<open>node_store\<close>.
    \<^item> \<open>Guarantees\<close>, \<open>Holds\<close>: what a create promises (overdraft, progress, transfers; reservations and retries).
      \<open>Convergence\<close>, \<open>Delivery\<close>: reachable nodes agree with their log and with each other; duplicates, conflicts and
      deletion. \<open>Durability\<close>: flush, orphans, restart. \<open>Service_Guarantees\<close>: the answers to clients.
    \<^item> \<open>Postgres_Storage\<close>: \<open>postgres.rs\<close> on the tables of its migrations. \<open>Postgres_Refinement\<close>: the locale \<open>store_simulation\<close> and its
      interpretation \<open>pg_memory\<close>: what PostgreSQL accepts, the in-memory store does. \<open>Postgres_Guarantees\<close>: the reads of a rebuild agree,
      and where the two stores part (refused batches, the collation, ties of the registry).
    \<^item> \<open>Mesh_Client\<close>: the whole of \<open>mesh_client.rs\<close>: the orderings that choose a node, the request loop with failover, the
      waiting loops, the peer cache, and the event loop as \<open>mesh_step\<close>. \<open>Mesh_Selection\<close>, \<open>Mesh_Loop\<close>: what selection, failover and the
      loop guarantee.
    \<^item> \<open>Namespaces\<close>, \<open>Edges\<close>, \<open>Gateway\<close>, \<open>Gateway_Routes\<close>, \<open>Gateway_Views\<close>: \<open>apps/gateway/src/main.rs\<close>: bucket names, the edge
      directory, responses and authorization, the read and write routes, the views, and the route table \<open>handle_route\<close>.
      \<open>Gateway_Calls\<close>: which requests a handler adds to the calls of the gateway. \<open>Gateway_Guarantees\<close>, \<open>Gateway_Auth\<close>: isolation of
      users, cached decisions, billing.
    \<^item> \<open>Evm_Rpc\<close>, \<open>Evm_Guarantees\<close>: \<open>evm_rpc.rs\<close>, the JSON-RPC facade, and what a sent transaction and a lookup mean.

  \<^bold>\<open>How code becomes definitions.\<close> A method of \<open>SharedState\<close> is a function on the record \<open>shared_state\<close>. The
  account lock, the head lock and the bump lock make a call one step. The clock readings and the generated ids of a call
  are the environment argument \<open>env\<close>, numbered in program order. Every error is a value; a call that waits for a lock it holds is the
  outcome \<open>Hangs\<close>. A channel is the list of what was sent. Integers keep their width and wrap around, as in a release
  build. SHA-256 is the argument \<open>sha\<close>; the storage is the argument \<open>B\<close>. The gateway is a function on the record \<open>gateway\<close>, which
  lists the requests it awaited and those it spawned; the answers of nodes, of the dashboard and of the clock are its environment
  \<open>gateway_env\<close> (\<open>evm_env\<close> for the facade). The waiting loops of the mesh client are partial functions, proved to return. All other loops are folds over finite lists or
  recursions with a termination proof (\<open>drain\<close>, \<open>trim_start\<close>, \<open>show_nat\<close>), so no fuel is needed.

  \<^bold>\<open>What the theorems show.\<close> Safety of the ledger: balances equal the log in every reachable state, replicas with the same
  log agree, debits respect the overdraft limit, retries and duplicate deliveries have no second effect, conflicting
  duplicates charge once, positions are never issued twice, deletion is final. Isolation at the gateway: a caller writes to and
  reads from the buckets of its own user only, and a cached authorization answers only the question it was given for. Routing: the mesh
  client picks a healthy near node, fails over, and accounts for every request. Refinement: create and replicate implement the
  abstract ledger, head tracking implements a set of numbers. Equivalence: the rebuild computes what the incremental
  code computes; the stored checksum is the protocol's checksum. Progress: permitted charges succeed, allocations succeed,
  orphans are rescued. Round trips of the text formats and of reserve and release. Where the code departs from its purpose
  (a transfer of an account to itself, a transfer of \<open>i64::MIN\<close>, the registry merge on ties, billing of the last credits, an EVM transaction
  without a node, its lookup by hash), the theorem states what it does.

  \<^bold>\<open>Bounds.\<close> The distinctness of positions is stated for fewer than \<open>2\<^sup>32\<close> allocator operations, after which the 32-bit
  epoch could wrap around. Sequence numbers zero and \<open>2\<^sup>64 - 1\<close> are excluded where a head could wrap around.

  \<^bold>\<open>Not modelled.\<close> Lost connections and concurrent statements of PostgreSQL, the libp2p swarm, the wiring of tasks and signals, the Prometheus text of the gateway, the in-memory mesh of
  the unit tests of the EVM facade, the dashboard, billing, the command-line tools and the SDKs, which are clients over HTTP.
\<close>

end
